(* ===== verification/Prelude.thy ===== *)
theory Prelude
  imports Main "HOL-Library.List_Lexorder" "HOL-Library.Char_ord" "HOL-Library.Multiset"
begin

text \<open>
  The vocabulary every component of the wafportal development shares: Go strings as byte lists,
  Go's \<open>(value, error)\<close> pairs as sums, instants and durations as integers, the named collections
  the proofs draw on, and the generic facts on lists, options and sums that several components
  need.

  A Go string is a sequence of bytes, and so is an Isabelle \<open>string\<close> (a list of 8-bit \<open>char\<close>s):
  lengths, indices and comparisons on both sides count bytes. The lexicographic order that
  \<open>List_Lexorder\<close> and \<open>Char_ord\<close> put on \<open>string\<close> is the byte order of Go's \<open><\<close> and of SQLite's
  default (BINARY) collation.
\<close>

named_theorems store_defs \<open>definitions of the operations on the database\<close>
named_theorems store_frame \<open>what an operation on the database leaves alone\<close>
named_theorems http_defs \<open>definitions of response writers and handlers\<close>
named_theorems reload_defs \<open>definitions of the reload chain\<close>

text \<open>Go's \<open>int\<close> and \<open>int64\<close> are kept as integers; where the code can leave the 64-bit range the
  bound is written out. Instants are nanoseconds since the Unix epoch in UTC, durations are
  nanoseconds. A \<open>float64\<close> is its IEEE 754 bit pattern, since the program only passes it on.\<close>

type_synonym go_time = int
type_synonym duration = int
type_synonym bytes = "nat list"

abbreviation max_int64 :: int where "max_int64 \<equiv> 9223372036854775807"
abbreviation min_int64 :: int where "min_int64 \<equiv> - 9223372036854775808"

abbreviation second :: duration where "second \<equiv> 1000000000"
abbreviation minute :: duration where "minute \<equiv> 60000000000"
abbreviation hour :: duration where "hour \<equiv> 3600000000000"

text \<open>HTTP status codes the program uses (\<^verbatim>\<open>net/http\<close>).\<close>

abbreviation StatusOK :: int where "StatusOK \<equiv> 200"
abbreviation StatusCreated :: int where "StatusCreated \<equiv> 201"
abbreviation StatusNoContent :: int where "StatusNoContent \<equiv> 204"
abbreviation StatusMovedPermanently :: int where "StatusMovedPermanently \<equiv> 301"
abbreviation StatusBadRequest :: int where "StatusBadRequest \<equiv> 400"
abbreviation StatusUnauthorized :: int where "StatusUnauthorized \<equiv> 401"
abbreviation StatusForbidden :: int where "StatusForbidden \<equiv> 403"
abbreviation StatusNotFound :: int where "StatusNotFound \<equiv> 404"
abbreviation StatusTooManyRequests :: int where "StatusTooManyRequests \<equiv> 429"
abbreviation StatusInternalServerError :: int where "StatusInternalServerError \<equiv> 500"
abbreviation StatusBadGateway :: int where "StatusBadGateway \<equiv> 502"

section \<open>Lists\<close>

lemma map_filter_commute_id:
  assumes "\<And>x. P (f x) = P x"
  shows "filter P (map f xs) = map f (filter P xs)"
  using assms by (induction xs) auto

lemma distinct_map_filterI [intro]: "distinct (map f xs) \<Longrightarrow> distinct (map f (filter P xs))"
  by (induction xs) auto

lemma sorted_map_filterI [intro]: "sorted (map f xs) \<Longrightarrow> sorted (map f (filter P xs))"
  by (induction xs) auto

lemma find_append: "find P (xs @ ys) = (case find P xs of None \<Rightarrow> find P ys | Some x \<Rightarrow> Some x)"
  by (induction xs) auto

lemma find_SomeD: "find P xs = Some x \<Longrightarrow> x \<in> set xs \<and> P x"
  by (induction xs) (auto split: if_splits)

lemma find_None_iff_all: "find P xs = None \<longleftrightarrow> (\<forall>x \<in> set xs. \<not> P x)"
  by (induction xs) auto

text \<open>Looking a row up by a key that no two rows share.\<close>

lemma find_key_unique:
  assumes "distinct (map k xs)" and "x \<in> set xs"
  shows "find (\<lambda>y. k y = k x) xs = Some x"
  using assms by (induction xs) force+

lemma find_map_same_key:
  assumes "\<And>y. k (f y) = k y"
  shows "find (\<lambda>y. k y = i) (map f xs) = map_option f (find (\<lambda>y. k y = i) xs)"
  using assms by (induction xs) auto

lemma find_filter_key:
  "find (\<lambda>y. k y = i) (filter (\<lambda>y. k y \<noteq> j) xs) =
     (if i = j then None else find (\<lambda>y. k y = i) xs)"
  by (induction xs) auto

lemma sum_list_bool_le_length: "sum_list (map (\<lambda>x. if P x then 1 else 0) xs) = length (filter P xs)"
  for xs :: "'a list"
  by (induction xs) auto

lemma takeWhile_append_hit: "c \<notin> set xs \<Longrightarrow> takeWhile (\<lambda>x. x \<noteq> c) (xs @ c # ys) = xs"
  by (induction xs) auto

lemma dropWhile_append_hit: "c \<notin> set xs \<Longrightarrow> dropWhile (\<lambda>x. x \<noteq> c) (xs @ c # ys) = c # ys"
  by (induction xs) auto

section \<open>Stable sorting, the meaning of ORDER BY\<close>

text \<open>
  SQL leaves the order of rows with equal keys to the engine. Every result an engine may return
  for \<open>ORDER BY k\<close> is the stable sort, by \<open>k\<close>, of some permutation of the rows; the queries below
  take that permutation as a parameter.
\<close>

definition visits :: "('a list \<Rightarrow> 'a list) \<Rightarrow> bool" where
  "visits v \<longleftrightarrow> (\<forall>xs. mset (v xs) = mset xs)"

lemma visits_id [simp]: "visits (\<lambda>xs. xs)"
  by (simp add: visits_def)

lemma visits_rev [simp]: "visits rev"
  by (simp add: visits_def)

lemma visits_mset: "visits v \<Longrightarrow> mset (v xs) = mset xs"
  by (simp add: visits_def)

lemma visits_set: "visits v \<Longrightarrow> set (v xs) = set xs"
  using mset_eq_setD visits_mset by blast

definition sort_desc :: "('a \<Rightarrow> 'k::linorder) \<Rightarrow> 'a list \<Rightarrow> 'a list" where
  "sort_desc k xs = rev (sort_key k (rev xs))"

lemma set_sort_desc [simp]: "set (sort_desc k xs) = set xs"
  by (simp add: sort_desc_def)

lemma mset_sort_desc [simp]: "mset (sort_desc k xs) = mset xs"
  by (simp add: sort_desc_def)

lemma length_sort_desc [simp]: "length (sort_desc k xs) = length xs"
  by (simp add: sort_desc_def)

lemma sorted_sort_desc: "sorted_wrt (\<lambda>x y. k y \<le> k x) (sort_desc k xs)"
proof -
  have "sorted_wrt (\<lambda>x y. k x \<le> k y) (sort_key k (rev xs))"
    using sorted_sort_key [of k "rev xs"] by (simp add: sorted_wrt_map)
  then show ?thesis by (simp add: sort_desc_def sorted_wrt_rev)
qed

section \<open>Runs of a machine\<close>

text \<open>A machine answers every event with a list of outputs and a new state; a run collects the outputs
  of a sequence of events.\<close>

primrec run_steps :: "('e \<Rightarrow> 's \<Rightarrow> 'o list \<times> 's) \<Rightarrow> 'e list \<Rightarrow> 's \<Rightarrow> 'o list \<times> 's" where
  "run_steps step [] s = ([], s)"
| "run_steps step (e # es) s =
     (case step e s of (os, s) \<Rightarrow> (case run_steps step es s of (os', s) \<Rightarrow> (os @ os', s)))"

lemma run_steps_append:
  "run_steps step (es @ fs) s =
     (case run_steps step es s of (os, s) \<Rightarrow> (case run_steps step fs s of (os', s) \<Rightarrow> (os @ os', s)))"
  by (induction es arbitrary: s) (auto split: prod.splits)

text \<open>The outputs addressed to one key.\<close>

definition outputs_for :: "'k \<Rightarrow> ('k \<times> 'o) list \<Rightarrow> 'o list" where
  "outputs_for k os = map snd (filter (\<lambda>p. fst p = k) os)"

lemma outputs_for_simps [simp]:
  "outputs_for k [] = []" "outputs_for k (os @ os') = outputs_for k os @ outputs_for k os'"
  "outputs_for k (p # os) = (if fst p = k then [snd p] else []) @ outputs_for k os"
  by (simp_all add: outputs_for_def)

text \<open>A machine that serves many keys as if each had a machine of its own.\<close>

locale keyed_machine =
  fixes step :: "'e \<Rightarrow> 's \<Rightarrow> ('k \<times> 'o) list \<times> 's" and inv :: "'s \<Rightarrow> bool"
    and view :: "'k \<Rightarrow> 's \<Rightarrow> 'v" and vstep :: "'k \<Rightarrow> 'e \<Rightarrow> 'v \<Rightarrow> 'o list \<times> 'v"
  assumes step_inv: "inv s \<Longrightarrow> inv (snd (step e s))"
    and step_view: "inv s \<Longrightarrow> vstep k e (view k s) = (outputs_for k (fst (step e s)), view k (snd (step e s)))"
begin

lemma run_view:
  "inv s \<Longrightarrow> run_steps (vstep k) es (view k s) =
     (outputs_for k (fst (run_steps step es s)), view k (snd (run_steps step es s)))"
proof (induction es arbitrary: s)
  case (Cons e es)
  from Cons.IH [OF step_inv [OF Cons.prems, of e]] step_view [OF Cons.prems, of k e]
  show ?case by (auto split: prod.splits)
qed simp

lemma run_inv: "inv s \<Longrightarrow> inv (snd (run_steps step es s))"
proof (induction es arbitrary: s)
  case (Cons e es)
  from Cons.IH [OF step_inv [OF Cons.prems, of e]] show ?case by (auto split: prod.splits)
qed simp

end

section \<open>Reloads\<close>

text \<open>A component that is rebuilt from a configuration: a failure leaves it as it was, and what a
  success gives depends on the configuration alone. Then only the last configuration that was accepted
  matters.\<close>

locale atomic_reload =
  fixes reload :: "'c \<Rightarrow> 's \<Rightarrow> ('e + unit) \<times> 's"
  assumes fail_keeps: "fst (reload c s) \<noteq> Inr () \<Longrightarrow> snd (reload c s) = s"
    and same_verdict: "fst (reload c s) = fst (reload c t)"
    and history_free: "fst (reload c s) = Inr () \<Longrightarrow> snd (reload c s) = snd (reload c t)"
begin

lemma after_reloads:
  "fold (\<lambda>c s. snd (reload c s)) cs s =
     (case find (\<lambda>c. fst (reload c s) = Inr ()) (rev cs) of None \<Rightarrow> s | Some c \<Rightarrow> snd (reload c s))"
proof (induction cs rule: rev_induct)
  case (snoc c cs)
  define now where "now = fold (\<lambda>c s. snd (reload c s)) cs s"
  show ?case
  proof (cases "fst (reload c s) = Inr ()")
    case True
    then show ?thesis using history_free [OF True, of now] by (simp add: now_def)
  next
    case False
    then have "fst (reload c now) \<noteq> Inr ()" using same_verdict [of c s now] by simp
    then have "snd (reload c now) = now" by (rule fail_keeps)
    with False snoc.IH show ?thesis by (simp add: now_def)
  qed
qed simp

end

end
