(* ===== verification/Go_Strings.thy ===== *)
theory Go_Strings
  imports Prelude
begin

text \<open>
  The parts of Go's standard library the program computes with: \<^verbatim>\<open>strings\<close> (\<open>IndexByte\<close>,
  \<open>LastIndexByte\<close>, \<open>Cut\<close>, \<open>ToLower\<close>, \<open>TrimSpace\<close>, \<open>Join\<close>), \<^verbatim>\<open>strconv\<close> (\<open>ParseInt\<close>, \<open>Atoi\<close>,
  \<open>FormatInt\<close>) and \<^verbatim>\<open>net.SplitHostPort\<close>. Each definition follows the library's documented result, the values returned
  next to an error included, because callers such as \<open>idParam\<close> ignore the error and use the value.
\<close>

section \<open>Searching for a byte\<close>

fun IndexByte :: "string \<Rightarrow> char \<Rightarrow> nat option" where
  "IndexByte [] c = None"
| "IndexByte (x # xs) c = (if x = c then Some 0 else map_option Suc (IndexByte xs c))"

definition LastIndexByte :: "string \<Rightarrow> char \<Rightarrow> nat option" where
  "LastIndexByte s c = map_option (\<lambda>i. length s - 1 - i) (IndexByte (rev s) c)"

text \<open>\<open>strings.Cut\<close> at a one-byte separator: the text before and after its first occurrence.\<close>

fun Cut :: "string \<Rightarrow> char \<Rightarrow> string \<times> string \<times> bool" where
  "Cut s c = (case IndexByte s c of None \<Rightarrow> (s, [], False)
                                  | Some i \<Rightarrow> (take i s, drop (Suc i) s, True))"

text \<open>The idiom \<^verbatim>\<open>if i := strings.IndexByte(s, c); i != -1 { s = s[:i] }\<close>.\<close>

definition before_byte :: "string \<Rightarrow> char \<Rightarrow> string" where
  "before_byte s c = (case IndexByte s c of None \<Rightarrow> s | Some i \<Rightarrow> take i s)"

lemma IndexByte_None_iff [simp]: "IndexByte s c = None \<longleftrightarrow> c \<notin> set s"
  by (induction s) auto

lemma IndexByte_missing [simp]: "c \<notin> set s \<Longrightarrow> IndexByte s c = None"
  by simp

lemma IndexByte_append_hit: "c \<notin> set xs \<Longrightarrow> IndexByte (xs @ c # ys) c = Some (length xs)"
  by (induction xs) auto

lemma IndexByte_SomeD:
  "IndexByte s c = Some i \<Longrightarrow> i < length s \<and> s ! i = c \<and> c \<notin> set (take i s)"
  by (induction s arbitrary: i) (auto split: if_splits)

lemma Cut_append_hit [simp]: "c \<notin> set xs \<Longrightarrow> Cut (xs @ c # ys) c = (xs, ys, True)"
  by (simp add: IndexByte_append_hit)

lemma Cut_missing [simp]: "c \<notin> set s \<Longrightarrow> Cut s c = (s, [], False)"
  by (simp flip: IndexByte_None_iff)

lemma Cut_foundD: "Cut s c = (a, b, True) \<Longrightarrow> s = a @ c # b \<and> c \<notin> set a"
  by (auto split: option.splits dest!: IndexByte_SomeD simp: id_take_nth_drop [symmetric])

declare Cut.simps [simp del]

lemma before_byte_missing [simp]: "c \<notin> set s \<Longrightarrow> before_byte s c = s"
  by (simp add: before_byte_def flip: IndexByte_None_iff)

lemma before_byte_append_hit [simp]: "c \<notin> set xs \<Longrightarrow> before_byte (xs @ c # ys) c = xs"
  by (simp add: before_byte_def IndexByte_append_hit)

lemma before_byte_takeWhile: "before_byte s c = takeWhile (\<lambda>x. x \<noteq> c) s"
proof (cases "c \<in> set s")
  case True
  then obtain xs ys where "s = xs @ c # ys" and "c \<notin> set xs"
    by (metis split_list_first)
  then show ?thesis by (simp add: takeWhile_append_hit)
next
  case False
  then have "takeWhile (\<lambda>x. x \<noteq> c) s = s" by (induction s) auto
  with False show ?thesis by (metis before_byte_missing)
qed

lemma before_byte_no_sep [simp]: "c \<notin> set (before_byte s c)"
  by (metis before_byte_takeWhile set_takeWhileD)

lemma LastIndexByte_None_iff [simp]: "LastIndexByte s c = None \<longleftrightarrow> c \<notin> set s"
  by (simp add: LastIndexByte_def)

lemma LastIndexByte_append_hit: "c \<notin> set ys \<Longrightarrow> LastIndexByte (xs @ c # ys) c = Some (length xs)"
  by (simp add: LastIndexByte_def IndexByte_append_hit)

section \<open>Case folding and trimming\<close>

definition is_ascii :: "string \<Rightarrow> bool" where
  "is_ascii s \<longleftrightarrow> (\<forall>c \<in> set s. of_char c < (128::nat))"

definition lower_byte :: "char \<Rightarrow> char" where
  "lower_byte c = (if CHR ''A'' \<le> c \<and> c \<le> CHR ''Z'' then char_of (of_char c + 32 :: nat) else c)"

text \<open>
  \<open>strings.ToLower\<close> maps the letters of an ASCII string byte by byte. For any other string it maps
  runes by the Unicode tables; that mapping is the parameter \<open>uni\<close>.
\<close>

definition ToLower :: "(string \<Rightarrow> string) \<Rightarrow> string \<Rightarrow> string" where
  "ToLower uni s = (if is_ascii s then map lower_byte s else uni s)"

text \<open>
  \<open>strings.TrimSpace\<close> removes leading and trailing white space as defined by Unicode. The white
  space runes, as UTF-8 byte sequences: the six ASCII ones, U+0085, U+00A0, U+1680, U+2000 to
  U+200A, U+2028, U+2029, U+202F, U+205F and U+3000. No sequence is a suffix of another valid
  rune, so decoding from either end is matching one of them at that end.
\<close>

definition bytes_str :: "nat list \<Rightarrow> string" where
  "bytes_str = map char_of"

definition space_runes :: "string list" where
  "space_runes = map bytes_str
     ([[9], [10], [11], [12], [13], [32], [194, 133], [194, 160], [225, 154, 128]] @
      map (\<lambda>b. [226, 128, b]) [128, 129, 130, 131, 132, 133, 134, 135, 136, 137, 138, 168, 169, 175] @
      [[226, 129, 159], [227, 128, 128]])"

definition strip_one :: "string list \<Rightarrow> string \<Rightarrow> string option" where
  "strip_one ws s = map_option (\<lambda>w. drop (length w) s) (find (\<lambda>w. take (length w) s = w) ws)"

lemma strip_one_shorter:
  assumes "\<forall>w \<in> set ws. w \<noteq> []" and "strip_one ws s = Some t"
  shows "length t < length s"
proof -
  from assms(2) obtain w where "w \<in> set ws" and "take (length w) s = w" and "t = drop (length w) s"
    by (auto simp: strip_one_def dest!: find_SomeD)
  moreover from this assms(1) have "w \<noteq> []" and "length w \<le> length s"
    by (force, metis length_take min.cobounded1)
  ultimately show ?thesis
    by (metis diff_less length_drop length_greater_0_conv order_less_le_trans)
qed

function trim_left :: "string list \<Rightarrow> string \<Rightarrow> string" where
  "trim_left ws s =
     (case strip_one ws s of
        None \<Rightarrow> s
      | Some t \<Rightarrow> if length t < length s then trim_left ws t else s)"
  by pat_completeness auto
termination
  by (relation "measure (\<lambda>(ws, s). length s)") auto

declare trim_left.simps [simp del]

definition TrimSpace :: "string \<Rightarrow> string" where
  "TrimSpace s = rev (trim_left (map rev space_runes) (rev (trim_left space_runes s)))"

definition Join :: "string list \<Rightarrow> string \<Rightarrow> string" where
  "Join ss sep = (case ss of [] \<Rightarrow> [] | s # rest \<Rightarrow> s @ concat (map (\<lambda>t. sep @ t) rest))"

lemma is_ascii_Nil [simp]: "is_ascii []"
  by (simp add: is_ascii_def)

lemma TrimSpace_Nil [simp]: "TrimSpace [] = []"
  by (simp add: TrimSpace_def trim_left.simps [of _ "[]"] split: option.splits)

text \<open>A text that neither starts nor ends with white space is left alone.\<close>

lemma trim_left_none: "strip_one ws s = None \<Longrightarrow> trim_left ws s = s"
  by (subst trim_left.simps) simp

lemma TrimSpace_id:
  assumes "strip_one space_runes s = None"
    and "strip_one (map rev space_runes) (rev s) = None"
  shows "TrimSpace s = s"
  using assms by (simp add: TrimSpace_def trim_left_none)

definition graphic :: "char \<Rightarrow> bool" where
  "graphic c \<longleftrightarrow> 33 \<le> (of_char c :: nat) \<and> (of_char c :: nat) \<le> 126"

lemma space_runes_not_graphic: "w \<in> set space_runes \<Longrightarrow> w \<noteq> [] \<and> \<not> graphic (hd w) \<and> \<not> graphic (last w)"
  by (auto simp: space_runes_def bytes_str_def graphic_def)

lemma strip_one_graphic:
  assumes "\<forall>w \<in> set ws. w \<noteq> [] \<and> \<not> graphic (hd w)" and "s \<noteq> []" and "graphic (hd s)"
  shows "strip_one ws s = None"
proof -
  have "take (length w) s \<noteq> w" if "w \<in> set ws" for w
  proof
    assume "take (length w) s = w"
    moreover have "w \<noteq> []" "\<not> graphic (hd w)" using that assms(1) by auto
    ultimately have "hd s = hd w" by (metis hd_take length_greater_0_conv)
    with assms(3) \<open>\<not> graphic (hd w)\<close> show False by simp
  qed
  then show ?thesis by (auto simp: strip_one_def find_None_iff)
qed

lemma TrimSpace_graphic:
  assumes "s \<noteq> []" and "graphic (hd s)" and "graphic (last s)"
  shows "TrimSpace s = s"
proof (rule TrimSpace_id)
  show "strip_one space_runes s = None"
    using assms(1,2) space_runes_not_graphic by (intro strip_one_graphic) auto
  show "strip_one (map rev space_runes) (rev s) = None"
    using assms(1,3) space_runes_not_graphic by (intro strip_one_graphic) (auto simp: hd_rev)
qed

section \<open>Decimal numbers\<close>

datatype num_error = ErrSyntax | ErrRange

definition is_digit :: "char \<Rightarrow> bool" where
  "is_digit c \<longleftrightarrow> CHR ''0'' \<le> c \<and> c \<le> CHR ''9''"

definition digit_val :: "char \<Rightarrow> nat" where
  "digit_val c = of_char c - 48"

definition digit_char :: "nat \<Rightarrow> char" where
  "digit_char d = char_of (48 + d)"

text \<open>\<open>strconv.ParseUint(s, 10, 64)\<close>: the loop stops at the first byte that is no digit with value 0
  and at the first overflow with the largest value.\<close>

fun uint_loop :: "nat \<Rightarrow> string \<Rightarrow> nat \<times> num_error option" where
  "uint_loop n [] = (n, None)"
| "uint_loop n (c # cs) =
     (if \<not> is_digit c then (0, Some ErrSyntax)
      else if 18446744073709551616 \<le> 10 * n + digit_val c
        then (18446744073709551615, Some ErrRange)
      else uint_loop (10 * n + digit_val c) cs)"

definition ParseUint :: "string \<Rightarrow> nat \<times> num_error option" where
  "ParseUint s = (if s = [] then (0, Some ErrSyntax) else uint_loop 0 s)"

fun split_sign :: "string \<Rightarrow> bool \<times> string" where
  "split_sign [] = (False, [])"
| "split_sign (c # cs) =
     (if c = CHR ''-'' then (True, cs) else if c = CHR ''+'' then (False, cs) else (False, c # cs))"

text \<open>\<open>strconv.ParseInt(s, 10, 64)\<close>: a range error comes with the nearest representable value, a
  syntax error with 0.\<close>

definition ParseInt :: "string \<Rightarrow> int \<times> num_error option" where
  "ParseInt s =
     (if s = [] then (0, Some ErrSyntax)
      else let (neg, t) = split_sign s; (un, err) = ParseUint t
           in if err = Some ErrSyntax then (0, err)
              else if \<not> neg \<and> 9223372036854775808 \<le> un then (max_int64, Some ErrRange)
              else if neg \<and> 9223372036854775808 < un then (min_int64, Some ErrRange)
              else (if neg then - int un else int un, None))"

text \<open>\<open>strconv.Atoi\<close> on a 64-bit platform: a fast path for short strings, which needs no overflow
  check, and \<open>ParseInt\<close> otherwise.\<close>

fun atoi_loop :: "int \<Rightarrow> string \<Rightarrow> int option" where
  "atoi_loop n [] = Some n"
| "atoi_loop n (c # cs) = (if is_digit c then atoi_loop (n * 10 + int (digit_val c)) cs else None)"

definition Atoi :: "string \<Rightarrow> int \<times> num_error option" where
  "Atoi s =
     (if 0 < length s \<and> length s < 19
      then let (neg, t) = split_sign s
           in if t = [] then (0, Some ErrSyntax)
              else case atoi_loop 0 t of
                     None \<Rightarrow> (0, Some ErrSyntax)
                   | Some n \<Rightarrow> (if neg then - n else n, None)
      else ParseInt s)"

text \<open>\<open>strconv.FormatInt(n, 10)\<close>.\<close>

fun nat_digits :: "nat \<Rightarrow> string" where
  "nat_digits n = (if n < 10 then [digit_char n] else nat_digits (n div 10) @ [digit_char (n mod 10)])"

declare nat_digits.simps [simp del]

definition FormatInt :: "int \<Rightarrow> string" where
  "FormatInt n = (if n < 0 then CHR ''-'' # nat_digits (nat (- n)) else nat_digits (nat n))"

lemma of_char_digit_char: "d < 10 \<Longrightarrow> of_char (digit_char d) = 48 + d"
  by (simp add: digit_char_def)

lemma is_digit_char [simp]: "d < 10 \<Longrightarrow> is_digit (digit_char d)"
  by (simp add: is_digit_def less_eq_char_def of_char_digit_char)

lemma digit_val_char [simp]: "d < 10 \<Longrightarrow> digit_val (digit_char d) = d"
  by (simp add: digit_val_def of_char_digit_char)

lemma digit_val_less: "is_digit c \<Longrightarrow> digit_val c < 10"
  by (auto simp: is_digit_def digit_val_def less_eq_char_def)

lemma nat_digits_not_Nil [simp]: "nat_digits n \<noteq> []"
  by (subst nat_digits.simps) simp

lemma nat_digits_are_digits: "c \<in> set (nat_digits n) \<Longrightarrow> is_digit c"
proof (induction n rule: nat_digits.induct)
  case (1 n)
  then show ?case by (auto simp: nat_digits.simps [of n] split: if_splits)
qed

lemma digit_not_special:
  "is_digit c \<Longrightarrow> c \<noteq> CHR ''-'' \<and> c \<noteq> CHR ''+'' \<and> c \<noteq> CHR ''|'' \<and> c \<noteq> CHR '','' \<and> c \<noteq> CHR '']''"
  by (auto simp: is_digit_def less_eq_char_def)

lemma uint_loop_digits:
  "n < 18446744073709551616 \<Longrightarrow> uint_loop 0 (nat_digits n @ cs) = uint_loop n cs"
proof (induction n arbitrary: cs rule: nat_digits.induct)
  case (1 n)
  show ?case
  proof (cases "n < 10")
    case True
    then show ?thesis by (simp add: nat_digits.simps [of n])
  next
    case False
    with "1.prems" have "n div 10 < 18446744073709551616" by simp
    with "1.IH" False
    have "uint_loop 0 (nat_digits (n div 10) @ digit_char (n mod 10) # cs) =
          uint_loop (n div 10) (digit_char (n mod 10) # cs)" by simp
    with False "1.prems" show ?thesis by (simp add: nat_digits.simps [of n])
  qed
qed

lemma ParseUint_digits: "n < 18446744073709551616 \<Longrightarrow> ParseUint (nat_digits n) = (n, None)"
  using uint_loop_digits [of n "[]"] by (simp add: ParseUint_def)

lemma split_sign_digits [simp]: "split_sign (nat_digits n) = (False, nat_digits n)"
proof (cases "nat_digits n")
  case (Cons c cs)
  then have "is_digit c" using nat_digits_are_digits [of c n] by simp
  with Cons show ?thesis by (auto dest: digit_not_special)
qed simp

text \<open>Printing and parsing a number of the 64-bit range gives the number back.\<close>

lemma ParseInt_FormatInt:
  assumes "min_int64 \<le> n" and "n \<le> max_int64"
  shows "ParseInt (FormatInt n) = (n, None)"
proof (cases "n < 0")
  case True
  with assms have "ParseUint (nat_digits (nat (- n))) = (nat (- n), None)"
    by (intro ParseUint_digits) linarith
  with True assms show ?thesis by (simp add: ParseInt_def FormatInt_def nat_le_iff)
next
  case False
  with assms have "ParseUint (nat_digits (nat n)) = (nat n, None)"
    by (intro ParseUint_digits) linarith
  with False assms show ?thesis by (simp add: ParseInt_def FormatInt_def nat_le_iff)
qed

lemma ParseInt_range:
  assumes "ParseInt s = (n, e)"
  shows "min_int64 \<le> n \<and> n \<le> max_int64"
  using assms by (auto simp: ParseInt_def Let_def split: prod.splits if_splits)

lemma uint_loop_range: "uint_loop n s = (v, Some ErrRange) \<Longrightarrow> v = 18446744073709551615"
  by (induction s arbitrary: n) (auto split: if_splits)

lemma ParseInt_okD:
  assumes "snd (ParseInt s) = None" and "split_sign s = (neg, t)"
  shows "snd (ParseUint t) = None"
proof (rule ccontr)
  assume "snd (ParseUint t) \<noteq> None"
  then obtain v e where e: "ParseUint t = (v, Some e)" by (cases "ParseUint t") auto
  show False
  proof (cases e)
    case ErrSyntax
    with e assms show False by (auto simp: ParseInt_def split: if_splits)
  next
    case ErrRange
    with e have "v = 18446744073709551615"
      by (auto simp: ParseUint_def dest: uint_loop_range split: if_splits)
    with e ErrRange assms show False by (auto simp: ParseInt_def split: if_splits)
  qed
qed

text \<open>The fast path of \<open>Atoi\<close> computes what \<open>ParseInt\<close> computes.\<close>

lemma atoi_loop_uint_loop:
  assumes "m < 10 ^ k" and "k + length cs \<le> 18"
  shows "uint_loop m cs = (case atoi_loop (int m) cs of
           None \<Rightarrow> (0, Some ErrSyntax) | Some n \<Rightarrow> (nat n, None))"
  using assms
proof (induction cs arbitrary: m k)
  case (Cons c cs)
  show ?case
  proof (cases "is_digit c")
    case True
    from Cons.prems have m: "10 * m + digit_val c < 10 ^ Suc k"
      using digit_val_less [OF True] by simp
    also have "(10::nat) ^ Suc k \<le> 10 ^ 18" using Cons.prems(2) by (intro power_increasing) auto
    finally have "10 * m + digit_val c < 18446744073709551616" by simp
    with True Cons.IH [OF m] Cons.prems(2) show ?thesis by (simp add: mult.commute)
  qed simp
qed simp

lemma atoi_loop_bounds:
  assumes "0 \<le> m" and "m < 10 ^ k" and "k + length cs \<le> 18" and "atoi_loop m cs = Some n"
  shows "0 \<le> n \<and> n < 10 ^ 18"
  using assms
proof (induction cs arbitrary: m k)
  case Nil
  then have "(10::int) ^ k \<le> 10 ^ 18" by (intro power_increasing) auto
  with Nil show ?case by simp
next
  case (Cons c cs)
  then have "is_digit c" and "atoi_loop (m * 10 + int (digit_val c)) cs = Some n"
    by (auto split: if_splits)
  moreover from this Cons.prems have "m * 10 + int (digit_val c) < 10 ^ Suc k"
    using digit_val_less [of c] by simp
  ultimately show ?case using Cons.prems Cons.IH [of "m * 10 + int (digit_val c)" "Suc k"] by simp
qed

lemma split_sign_length: "split_sign s = (neg, t) \<Longrightarrow> length t \<le> length s"
  by (cases s) (auto split: if_splits)

lemma Atoi_eq_ParseInt: "Atoi s = ParseInt s"
proof (cases "0 < length s \<and> length s < 19")
  case True
  obtain neg t where st: "split_sign s = (neg, t)" by fastforce
  with True have len: "0 + length t \<le> 18" using split_sign_length [OF st] by simp
  have loop: "uint_loop 0 t = (case atoi_loop 0 t of
      None \<Rightarrow> (0, Some ErrSyntax) | Some n \<Rightarrow> (nat n, None))"
    using atoi_loop_uint_loop [of 0 0 t] len by simp
  have "0 \<le> n \<and> n < 10 ^ 18" if "atoi_loop 0 t = Some n" for n
    using atoi_loop_bounds [of 0 0 t n] len that by simp
  with True st loop show ?thesis
    by (auto simp: Atoi_def ParseInt_def ParseUint_def nat_le_iff split: option.splits)
next
  case False
  then show ?thesis by (auto simp: Atoi_def)
qed

section \<open>Splitting host and port\<close>

text \<open>\<open>net.SplitHostPort\<close>: \<open>None\<close> stands for its address errors, which the caller does not inspect.\<close>

definition SplitHostPort :: "string \<Rightarrow> (string \<times> string) option" where
  "SplitHostPort hostport =
     (case LastIndexByte hostport CHR '':'' of
        None \<Rightarrow> None
      | Some i \<Rightarrow>
          (case (if hd hostport = CHR ''[''
                 then (case IndexByte hostport CHR '']'' of
                         None \<Rightarrow> None
                       | Some e \<Rightarrow> if Suc e = i then Some (take (e - 1) (drop 1 hostport), 1, Suc e)
                                  else None)
                 else (let host = take i hostport
                       in if CHR '':'' \<in> set host then None else Some (host, 0, 0))) of
             None \<Rightarrow> None
           | Some (host, j, k) \<Rightarrow>
               if CHR ''['' \<in> set (drop j hostport) then None
               else if CHR '']'' \<in> set (drop k hostport) then None
               else Some (host, drop (Suc i) hostport)))"

lemma SplitHostPort_plain:
  assumes "CHR '':'' \<notin> set host" and "CHR '':'' \<notin> set port"
    and "CHR ''['' \<notin> set host \<union> set port" and "CHR '']'' \<notin> set host \<union> set port"
  shows "SplitHostPort (host @ CHR '':'' # port) = Some (host, port)"
proof -
  have "hd (host @ CHR '':'' # port) \<noteq> CHR ''[''"
    using assms(3) by (cases host) auto
  with assms show ?thesis
    by (simp add: SplitHostPort_def LastIndexByte_append_hit)
qed

lemma SplitHostPort_bracket:
  assumes "CHR '':'' \<notin> set port"
    and "CHR ''['' \<notin> set host \<union> set port" and "CHR '']'' \<notin> set host \<union> set port"
  shows "SplitHostPort (CHR ''['' # host @ CHR '']'' # CHR '':'' # port) = Some (host, port)"
proof -
  have "LastIndexByte (CHR ''['' # host @ CHR '']'' # CHR '':'' # port) CHR '':'' =
        Some (Suc (Suc (length host)))"
    using LastIndexByte_append_hit [of "CHR '':''" port "CHR ''['' # host @ [CHR '']'']"] assms
    by simp
  moreover have "IndexByte (CHR ''['' # host @ CHR '']'' # CHR '':'' # port) CHR '']'' =
        Some (Suc (length host))"
    using IndexByte_append_hit [of "CHR '']''" host] assms by simp
  ultimately show ?thesis using assms by (simp add: SplitHostPort_def)
qed

end
