(* ===== verification/Go_Encoding.thy ===== *)
theory Go_Encoding
  imports Go_Strings
begin

text \<open>
  The encodings the session cookies and the event table rely on: \<^verbatim>\<open>encoding/hex\<close>,
  \<^verbatim>\<open>base64.RawURLEncoding\<close>, the JSON text of an \<^verbatim>\<open>[]int\<close> and the constant-time comparison of
  \<^verbatim>\<open>crypto/subtle\<close>, with their round-trip lemmas. The decoders follow Go's: hex accepts both cases,
  base64 skips CR and LF and ignores the unused bits of a final partial quantum.
\<close>

section \<open>Alphabets\<close>

definition hex_alphabet :: string where
  "hex_alphabet = ''0123456789abcdef''"

definition b64_alphabet :: string where
  "b64_alphabet = ''ABCDEFGHIJKLMNOPQRSTUVWXYZabcdefghijklmnopqrstuvwxyz0123456789-_''"

lemma IndexByte_nth: "distinct s \<Longrightarrow> n < length s \<Longrightarrow> IndexByte s (s ! n) = Some n"
proof (induction s arbitrary: n)
  case (Cons x s)
  then show ?case by (cases n) auto
qed simp

lemma distinct_hex_alphabet: "distinct hex_alphabet"
  by (simp add: hex_alphabet_def)

lemma length_hex_alphabet: "length hex_alphabet = 16"
  by (simp add: hex_alphabet_def)

lemma distinct_b64_alphabet: "distinct b64_alphabet"
  by (simp add: b64_alphabet_def)

lemma length_b64_alphabet: "length b64_alphabet = 64"
  by (simp add: b64_alphabet_def)

text \<open>The top bits of a byte, as the encoders shift them out.\<close>

lemma byte_div_16 [simp]: "of_char c div 16 < (16::nat)" for c :: char
  by (rule less_mult_imp_div_less) simp

lemma byte_div_64 [simp]: "of_char c div 64 < (4::nat)" for c :: char
  by (rule less_mult_imp_div_less) simp

lemma byte_div_4 [simp]: "of_char c div 4 < (64::nat)" for c :: char
  by (rule less_mult_imp_div_less) simp

section \<open>Hexadecimal\<close>

definition hex_digit :: "nat \<Rightarrow> char" where
  "hex_digit n = hex_alphabet ! n"

definition hex_value :: "char \<Rightarrow> nat option" where
  "hex_value c =
     (case IndexByte hex_alphabet c of
        Some n \<Rightarrow> Some n
      | None \<Rightarrow> map_option (\<lambda>i. i + 10) (IndexByte ''ABCDEF'' c))"

fun hex_encode :: "string \<Rightarrow> string" where
  "hex_encode [] = []"
| "hex_encode (c # cs) = hex_digit (of_char c div 16) # hex_digit (of_char c mod 16) # hex_encode cs"

text \<open>\<open>None\<close> stands for the invalid-byte and odd-length errors.\<close>

fun hex_decode :: "string \<Rightarrow> string option" where
  "hex_decode [] = Some []"
| "hex_decode [c] = None"
| "hex_decode (a # b # cs) =
     (case (hex_value a, hex_value b, hex_decode cs) of
        (Some x, Some y, Some t) \<Rightarrow> Some (char_of (16 * x + y) # t)
      | _ \<Rightarrow> None)"

lemma hex_value_digit [simp]: "n < 16 \<Longrightarrow> hex_value (hex_digit n) = Some n"
  using IndexByte_nth [OF distinct_hex_alphabet, of n]
  by (simp add: hex_value_def hex_digit_def length_hex_alphabet)

lemma hex_decode_encode [simp]: "hex_decode (hex_encode s) = Some s"
proof (induction s)
  case (Cons c s)
  have "char_of (16 * (of_char c div 16) + of_char c mod 16 :: nat) = c"
    by (simp only: mult_div_mod_eq) simp
  with Cons.IH show ?case by simp
qed simp

lemma hex_encode_inj: "hex_encode s = hex_encode t \<longleftrightarrow> s = t"
  by (metis hex_decode_encode option.inject)

section \<open>Base64, URL alphabet, no padding\<close>

definition b64_digit :: "nat \<Rightarrow> char" where
  "b64_digit n = b64_alphabet ! n"

definition b64_value :: "char \<Rightarrow> nat option" where
  "b64_value c = IndexByte b64_alphabet c"

fun b64_encode :: "string \<Rightarrow> string" where
  "b64_encode [] = []"
| "b64_encode [a] = [b64_digit (of_char a div 4), b64_digit (of_char a mod 4 * 16)]"
| "b64_encode [a, b] =
     [b64_digit (of_char a div 4), b64_digit (of_char a mod 4 * 16 + of_char b div 16),
      b64_digit (of_char b mod 16 * 4)]"
| "b64_encode (a # b # c # s) =
     b64_digit (of_char a div 4) # b64_digit (of_char a mod 4 * 16 + of_char b div 16) #
     b64_digit (of_char b mod 16 * 4 + of_char c div 64) # b64_digit (of_char c mod 64) #
     b64_encode s"

fun b64_decode_quanta :: "nat list \<Rightarrow> string option" where
  "b64_decode_quanta [] = Some []"
| "b64_decode_quanta [w] = None"
| "b64_decode_quanta [w, x] = Some [char_of (w * 4 + x div 16)]"
| "b64_decode_quanta [w, x, y] = Some [char_of (w * 4 + x div 16), char_of (x mod 16 * 16 + y div 4)]"
| "b64_decode_quanta (w # x # y # z # s) =
     map_option (\<lambda>t. char_of (w * 4 + x div 16) # char_of (x mod 16 * 16 + y div 4) #
                     char_of (y mod 4 * 64 + z) # t) (b64_decode_quanta s)"

definition b64_skips :: "char \<Rightarrow> bool" where
  "b64_skips c \<longleftrightarrow> c = char_of (10::nat) \<or> c = char_of (13::nat)"

definition b64_decode :: "string \<Rightarrow> string option" where
  "b64_decode s =
     (let t = map b64_value (filter (\<lambda>c. \<not> b64_skips c) s)
      in if None \<in> set t then None else b64_decode_quanta (map the t))"

lemma b64_value_digit [simp]: "n < 64 \<Longrightarrow> b64_value (b64_digit n) = Some n"
  using IndexByte_nth [OF distinct_b64_alphabet, of n]
  by (simp add: b64_value_def b64_digit_def length_b64_alphabet)

lemma b64_digit_in [intro]: "n < 64 \<Longrightarrow> b64_digit n \<in> set b64_alphabet"
  by (simp add: b64_digit_def length_b64_alphabet)

lemma sextet_bounds:
  fixes x y z :: nat
  assumes "y < 16" and "z < 4"
  shows "x mod 4 * 16 < 64" "x mod 4 * 16 + y < 64" "x mod 16 * 4 < 64" "x mod 16 * 4 + z < 64"
proof -
  have "x mod 4 \<le> 3" and "x mod 16 \<le> 15" by (simp_all flip: less_Suc_eq_le)
  with assms show "x mod 4 * 16 < 64" "x mod 4 * 16 + y < 64" "x mod 16 * 4 < 64" "x mod 16 * 4 + z < 64"
    by linarith+
qed

lemmas b64_sextets [simp] = sextet_bounds [OF byte_div_16 byte_div_64]

lemma b64_encode_alphabet: "set (b64_encode s) \<subseteq> set b64_alphabet"
  by (induction s rule: b64_encode.induct) auto

lemma b64_alphabet_no_dot: "CHR ''.'' \<notin> set b64_alphabet"
  by (simp add: b64_alphabet_def)

lemma b64_alphabet_not_skipped: "c \<in> set b64_alphabet \<Longrightarrow> \<not> b64_skips c"
proof -
  have "char_of (10::nat) \<notin> set b64_alphabet" and "char_of (13::nat) \<notin> set b64_alphabet"
    by (simp_all add: b64_alphabet_def char_of_def)
  then show "c \<in> set b64_alphabet \<Longrightarrow> \<not> b64_skips c" by (auto simp: b64_skips_def)
qed

lemma b64_encode_no_dot: "CHR ''.'' \<notin> set (b64_encode s)"
  using b64_encode_alphabet b64_alphabet_no_dot by blast

definition b64_sextet_list :: "string \<Rightarrow> nat list" where
  "b64_sextet_list s = map (\<lambda>c. the (b64_value c)) (b64_encode s)"

lemma byte_high_bits [simp]:
  "of_char b div 16 div 16 = (0::nat)" "of_char c div 64 div 4 = (0::nat)"
  "of_char b div 16 mod 16 = (of_char b div 16 :: nat)" "of_char c div 64 mod 4 = (of_char c div 64 :: nat)"
  for b c :: char
  by (simp_all only: div_less mod_less byte_div_16 byte_div_64)

lemma b64_decode_quanta_encode: "b64_decode_quanta (b64_sextet_list s) = Some s"
  by (induction s rule: b64_encode.induct) (simp_all add: b64_sextet_list_def)

text \<open>Decoding an encoded payload gives the payload back.\<close>

lemma b64_decode_encode [simp]: "b64_decode (b64_encode s) = Some s"
proof -
  have keep: "filter (\<lambda>c. \<not> b64_skips c) (b64_encode s) = b64_encode s"
    using b64_encode_alphabet b64_alphabet_not_skipped by (auto intro: filter_True)
  have "b64_value c \<noteq> None" if "c \<in> set (b64_encode s)" for c
    using that b64_encode_alphabet [of s] by (simp add: b64_value_def subset_iff)
  then have "None \<notin> set (map b64_value (b64_encode s))" by fastforce
  with keep b64_decode_quanta_encode [of s] show ?thesis
    by (simp add: b64_decode_def b64_sextet_list_def comp_def)
qed

section \<open>Constant-time comparison\<close>

text \<open>\<open>subtle.ConstantTimeCompare\<close>: unequal lengths give 0; otherwise the differences of all bytes
  are accumulated, and the result is 1 exactly when none was found. \<open>hmac.Equal\<close> is this
  comparison with 1.\<close>

definition ConstantTimeCompare :: "string \<Rightarrow> string \<Rightarrow> int" where
  "ConstantTimeCompare x y =
     (if length x \<noteq> length y then 0
      else if fold (\<lambda>(a, b) v. v \<or> a \<noteq> b) (zip x y) False then 0 else 1)"

lemma fold_diff: "fold (\<lambda>(a, b) v. v \<or> a \<noteq> b) ps v \<longleftrightarrow> v \<or> (\<exists>(a, b) \<in> set ps. a \<noteq> b)"
  by (induction ps arbitrary: v) auto

lemma ConstantTimeCompare_iff [simp]: "ConstantTimeCompare x y = 1 \<longleftrightarrow> x = y"
  by (auto simp: ConstantTimeCompare_def fold_diff list_eq_iff_zip_eq split: prod.splits)

section \<open>JSON text of an integer slice\<close>

text \<open>
  \<open>json.Marshal\<close> of an \<^verbatim>\<open>[]int\<close>. The slices the program builds with \<open>append\<close> are nil exactly when
  they are empty, and a nil slice is the JSON null. \<open>Unmarshal\<close> is given on the texts \<open>Marshal\<close>
  writes and on the column's default, which is all the column ever holds.
\<close>

definition Marshal_ints :: "int list \<Rightarrow> string" where
  "Marshal_ints xs = (if xs = [] then ''null'' else ''['' @ Join (map FormatInt xs) '','' @ '']'')"

function split_on :: "char \<Rightarrow> string \<Rightarrow> string list" where
  "split_on c s = (case IndexByte s c of None \<Rightarrow> [s] | Some i \<Rightarrow> take i s # split_on c (drop (Suc i) s))"
  by pat_completeness auto
termination
  by (relation "measure (\<lambda>(c, s). length s)") (auto dest: IndexByte_SomeD)

declare split_on.simps [simp del]

definition Unmarshal_ints :: "string \<Rightarrow> int list option" where
  "Unmarshal_ints s =
     (if s = ''null'' \<or> s = ''[]'' then Some []
      else if s \<noteq> [] \<and> hd s = CHR ''['' \<and> last s = CHR '']''
        then let ns = map ParseInt (split_on CHR '','' (butlast (tl s)))
             in if \<forall>n \<in> set ns. snd n = None then Some (map fst ns) else None
      else None)"

lemma split_on_single: "c \<notin> set s \<Longrightarrow> split_on c s = [s]"
  by (subst split_on.simps) simp

lemma split_on_append: "c \<notin> set s \<Longrightarrow> split_on c (s @ c # t) = s # split_on c t"
  by (subst split_on.simps) (simp add: IndexByte_append_hit)

lemma Join_Cons: "Join (s # t # ss) sep = s @ sep @ Join (t # ss) sep"
  by (simp add: Join_def)

lemma split_on_Join:
  assumes "ss \<noteq> []" and "\<forall>s \<in> set ss. c \<notin> set s"
  shows "split_on c (Join ss [c]) = ss"
  using assms
proof (induction ss)
  case (Cons s ss)
  show ?case
  proof (cases ss)
    case Nil
    with Cons.prems show ?thesis by (simp add: Join_def split_on_single)
  next
    case (Cons t ts)
    with Cons.prems Cons.IH show ?thesis by (simp add: Join_Cons split_on_append)
  qed
qed simp

lemma FormatInt_chars: "c \<in> set (FormatInt n) \<Longrightarrow> c = CHR ''-'' \<or> is_digit c"
  using nat_digits_are_digits by (auto simp: FormatInt_def split: if_splits)

lemma FormatInt_no_comma: "CHR '','' \<notin> set (FormatInt n)"
  using FormatInt_chars digit_not_special by blast

lemma FormatInt_no_bar: "CHR ''|'' \<notin> set (FormatInt n)"
  using FormatInt_chars digit_not_special by blast

lemma FormatInt_not_Nil [simp]: "FormatInt n \<noteq> []"
  by (simp add: FormatInt_def)

lemma hd_Join_FormatInt: "xs \<noteq> [] \<Longrightarrow> Join (map FormatInt xs) sep \<noteq> []"
  by (cases xs) (auto simp: Join_def)

text \<open>A matched-rule list survives the trip through the TEXT column.\<close>

lemma Unmarshal_Marshal_ints:
  assumes "\<forall>x \<in> set xs. min_int64 \<le> x \<and> x \<le> max_int64"
  shows "Unmarshal_ints (Marshal_ints xs) = Some xs"
proof (cases "xs = []")
  case False
  let ?j = "Join (map FormatInt xs) '',''"
  have split: "split_on CHR '','' ?j = map FormatInt xs"
    using False FormatInt_no_comma by (intro split_on_Join) auto
  have "?j \<noteq> []" using False by (rule hd_Join_FormatInt)
  moreover have "\<forall>x \<in> set xs. ParseInt (FormatInt x) = (x, None)"
    using assms by (simp add: ParseInt_FormatInt)
  ultimately show ?thesis using False split
    by (simp add: Marshal_ints_def Unmarshal_ints_def Let_def butlast_append map_idI)
qed (simp add: Marshal_ints_def Unmarshal_ints_def)

end
