(* ===== verification/Go_Hmac.thy ===== *)
theory Go_Hmac
  imports Go_Encoding "HOL-Library.Word"
begin

text \<open>
  \<^verbatim>\<open>crypto/sha256\<close> and \<^verbatim>\<open>crypto/hmac\<close>, which sign the session cookies: the SHA-256 compression
  function on 32-bit words with wrapping addition, its padding, and HMAC over it.
\<close>

unbundle bit_operations_syntax

type_synonym u32 = "32 word"

section \<open>SHA-256\<close>

definition rotr :: "nat \<Rightarrow> u32 \<Rightarrow> u32" where
  "rotr n x = drop_bit n x OR push_bit (32 - n) x"

definition Ch :: "u32 \<Rightarrow> u32 \<Rightarrow> u32 \<Rightarrow> u32" where
  "Ch x y z = (x AND y) XOR (NOT x AND z)"

definition Maj :: "u32 \<Rightarrow> u32 \<Rightarrow> u32 \<Rightarrow> u32" where
  "Maj x y z = (x AND y) XOR (x AND z) XOR (y AND z)"

definition Sigma0 :: "u32 \<Rightarrow> u32" where
  "Sigma0 x = rotr 2 x XOR rotr 13 x XOR rotr 22 x"

definition Sigma1 :: "u32 \<Rightarrow> u32" where
  "Sigma1 x = rotr 6 x XOR rotr 11 x XOR rotr 25 x"

definition sigma0 :: "u32 \<Rightarrow> u32" where
  "sigma0 x = rotr 7 x XOR rotr 18 x XOR drop_bit 3 x"

definition sigma1 :: "u32 \<Rightarrow> u32" where
  "sigma1 x = rotr 17 x XOR rotr 19 x XOR drop_bit 10 x"

text \<open>The first 32 bits of the fractional parts of the cube roots of the first 64 primes, and below of the
  square roots of the first eight.\<close>

definition sha256_K :: "u32 list" where
  "sha256_K =
    [1116352408, 1899447441, 3049323471, 3921009573, 961987163, 1508970993,
     2453635748, 2870763221, 3624381080, 310598401, 607225278, 1426881987,
     1925078388, 2162078206, 2614888103, 3248222580, 3835390401, 4022224774,
     264347078, 604807628, 770255983, 1249150122, 1555081692, 1996064986,
     2554220882, 2821834349, 2952996808, 3210313671, 3336571891, 3584528711,
     113926993, 338241895, 666307205, 773529912, 1294757372, 1396182291,
     1695183700, 1986661051, 2177026350, 2456956037, 2730485921, 2820302411,
     3259730800, 3345764771, 3516065817, 3600352804, 4094571909, 275423344,
     430227734, 506948616, 659060556, 883997877, 958139571, 1322822218,
     1537002063, 1747873779, 1955562222, 2024104815, 2227730452, 2361852424,
     2428436474, 2756734187, 3204031479, 3329325298]"

datatype hstate = HS u32 u32 u32 u32 u32 u32 u32 u32

definition sha256_init :: hstate where
  "sha256_init = HS 1779033703 3144134277 1013904242 2773480762 1359893119 2600822924 528734635 1541459225"

fun sha256_round :: "u32 \<times> u32 \<Rightarrow> hstate \<Rightarrow> hstate" where
  "sha256_round (k, w) (HS a b c d e f g h) =
     (let t1 = h + Sigma1 e + Ch e f g + k + w; t2 = Sigma0 a + Maj a b c
      in HS (t1 + t2) a b c (d + t1) e f g)"

fun add_hstate :: "hstate \<Rightarrow> hstate \<Rightarrow> hstate" where
  "add_hstate (HS a b c d e f g h) (HS a' b' c' d' e' f' g' h') =
     HS (a + a') (b + b') (c + c') (d + d') (e + e') (f + f') (g + g') (h + h')"

text \<open>The message schedule, newest word first.\<close>

fun schedule :: "nat \<Rightarrow> u32 list \<Rightarrow> u32 list" where
  "schedule 0 r = r"
| "schedule (Suc n) r = schedule n ((sigma1 (r ! 1) + r ! 6 + sigma0 (r ! 14) + r ! 15) # r)"

fun be_word :: "string \<Rightarrow> u32" where
  "be_word cs = fold (\<lambda>c w. push_bit 8 w + word_of_nat (of_char c)) cs 0"

fun be_words :: "string \<Rightarrow> u32 list" where
  "be_words (a # b # c # d # s) = be_word [a, b, c, d] # be_words s"
| "be_words _ = []"

definition sha256_block :: "string \<Rightarrow> hstate \<Rightarrow> hstate" where
  "sha256_block blk h =
     add_hstate h (fold sha256_round (zip sha256_K (rev (schedule 48 (rev (be_words blk))))) h)"

function sha256_blocks :: "string \<Rightarrow> hstate \<Rightarrow> hstate" where
  "sha256_blocks s h = (if length s < 64 then h else sha256_blocks (drop 64 s) (sha256_block (take 64 s) h))"
  by pat_completeness auto
termination
  by (relation "measure (\<lambda>(s, h). length s)") auto

declare sha256_blocks.simps [simp del]

fun be_bytes :: "nat \<Rightarrow> nat \<Rightarrow> string" where
  "be_bytes 0 n = []"
| "be_bytes (Suc k) n = be_bytes k (n div 256) @ [char_of (n mod 256)]"

definition sha256_pad :: "string \<Rightarrow> string" where
  "sha256_pad s =
     s @ char_of (128::nat) # replicate ((119 - length s mod 64) mod 64) (char_of (0::nat)) @
     be_bytes 8 (8 * length s)"

fun hstate_bytes :: "hstate \<Rightarrow> string" where
  "hstate_bytes (HS a b c d e f g h) = concat (map (\<lambda>w. be_bytes 4 (unat w)) [a, b, c, d, e, f, g, h])"

definition sha256 :: "string \<Rightarrow> string" where
  "sha256 s = hstate_bytes (sha256_blocks (sha256_pad s) sha256_init)"

section \<open>HMAC\<close>

definition hmac_key :: "string \<Rightarrow> string" where
  "hmac_key k = (let k' = (if 64 < length k then sha256 k else k)
                 in k' @ replicate (64 - length k') (char_of (0::nat)))"

definition xor_pad :: "nat \<Rightarrow> string \<Rightarrow> string" where
  "xor_pad p = map (\<lambda>c. char_of (of_char c XOR p))"

definition hmac_sha256 :: "string \<Rightarrow> string \<Rightarrow> string" where
  "hmac_sha256 key msg =
     sha256 (xor_pad 92 (hmac_key key) @ sha256 (xor_pad 54 (hmac_key key) @ msg))"

lemma length_be_bytes [simp]: "length (be_bytes k n) = k"
  by (induction k arbitrary: n) auto

lemma length_hstate_bytes [simp]: "length (hstate_bytes h) = 32"
  by (cases h) simp

lemma length_sha256 [simp]: "length (sha256 s) = 32"
  by (simp add: sha256_def)

text \<open>The padded message is a whole number of blocks, so no byte of it is left out.\<close>

lemma sha256_pad_blocks: "length (sha256_pad s) mod 64 = 0"
proof -
  define q r where "q = length s div 64" and "r = length s mod 64"
  then have len: "length s = 64 * q + r" and "r < 64" by simp_all
  have "length (sha256_pad s) = 64 * q + r + 9 + (119 - r) mod 64"
    by (simp add: sha256_pad_def r_def [symmetric]) (simp add: len)
  also have "\<dots> = 64 * (if r \<le> 55 then q + 1 else q + 2)"
  proof (cases "r \<le> 55")
    case True
    then have "119 - r = 64 + (55 - r)" by simp
    then have "(119 - r) mod 64 = (64 + (55 - r)) mod 64" by (rule arg_cong)
    also have "\<dots> = (55 - r) mod 64" by (rule mod_add_self1)
    also have "\<dots> = 55 - r" by (rule mod_less) simp
    finally show ?thesis using True by simp
  next
    case False
    with \<open>r < 64\<close> show ?thesis by simp
  qed
  finally show ?thesis by simp
qed

lemma length_hmac_sha256 [simp]: "length (hmac_sha256 k m) = 32"
  by (simp add: hmac_sha256_def)

end
