(* ===== verification/Go_Url.thy ===== *)
theory Go_Url
  imports Go_Strings "HOL-Library.Monad_Syntax"
begin

text \<open>
  \<open>url.Parse\<close> of \<^verbatim>\<open>net/url\<close> (Go 1.25.0, the version \<^verbatim>\<open>go.mod\<close> names): the parsed URL, or \<open>None\<close> for any error,
  since the callers only test for one. Of the result the fields the program and the reverse proxy read
  are kept.
\<close>

record url =
  u_Scheme :: string
  u_Opaque :: string
  u_Host :: string
  u_Path :: string
  u_RawQuery :: string
  u_Fragment :: string

datatype encoding = encodePath | encodeHost | encodeZone | encodeUserPassword | encodeFragment

definition byte_in :: "char \<Rightarrow> char \<Rightarrow> char \<Rightarrow> bool" where
  [simp]: "byte_in lo hi c \<longleftrightarrow> lo \<le> c \<and> c \<le> hi"

definition is_letter :: "char \<Rightarrow> bool" where
  "is_letter c \<longleftrightarrow> byte_in CHR ''a'' CHR ''z'' c \<or> byte_in CHR ''A'' CHR ''Z'' c"

definition unhex :: "char \<Rightarrow> nat option" where
  "unhex c = (if is_digit c then Some (of_char c - 48)
              else if CHR ''a'' \<le> c \<and> c \<le> CHR ''f'' then Some (of_char c - 87)
              else if CHR ''A'' \<le> c \<and> c \<le> CHR ''F'' then Some (of_char c - 55) else None)"

text \<open>\<open>shouldEscape\<close> in the two host modes.\<close>

definition shouldEscape_host :: "char \<Rightarrow> bool" where
  "shouldEscape_host c \<longleftrightarrow> \<not> (is_letter c \<or> is_digit c \<or> c \<in> set ''!$&()*+,;=:[]<>-_.~'' \<or> c = CHR 0x27 \<or> c = CHR 0x22)"

fun unescape :: "encoding \<Rightarrow> string \<Rightarrow> string option" where
  "unescape m [] = Some []"
| "unescape m (c # cs) =
     (if c = CHR ''%''
      then (case cs of
              a # b # ds \<Rightarrow>
                (case (unhex a, unhex b) of
                   (Some x, Some y) \<Rightarrow>
                     (let val = char_of (16 * x + y)
                      in if m = encodeHost \<and> x < 8 \<and> [a, b] \<noteq> ''25'' then None
                         else if m = encodeZone \<and> [a, b] \<noteq> ''25'' \<and> val \<noteq> CHR '' '' \<and> shouldEscape_host val then None
                         else map_option (Cons val) (unescape m ds))
                 | _ \<Rightarrow> None)
            | _ \<Rightarrow> None)
      else if (m = encodeHost \<or> m = encodeZone) \<and> of_char c < (128::nat) \<and> shouldEscape_host c then None
      else map_option (Cons c) (unescape m cs))"

fun scheme_loop :: "string \<Rightarrow> string \<Rightarrow> string \<Rightarrow> (string \<times> string) option" where
  "scheme_loop raw acc [] = Some ([], raw)"
| "scheme_loop raw acc (c # cs) =
     (if is_letter c then scheme_loop raw (acc @ [c]) cs
      else if is_digit c \<or> c \<in> set ''+-.'' then (if acc = [] then Some ([], raw) else scheme_loop raw (acc @ [c]) cs)
      else if c = CHR '':'' then (if acc = [] then None else Some (acc, cs))
      else Some ([], raw))"

definition getScheme :: "string \<Rightarrow> (string \<times> string) option" where
  "getScheme raw = scheme_loop raw [] raw"

definition validOptionalPort :: "string \<Rightarrow> bool" where
  "validOptionalPort port \<longleftrightarrow> port = [] \<or> hd port = CHR '':'' \<and> list_all is_digit (tl port)"

definition validUserinfo :: "string \<Rightarrow> bool" where
  "validUserinfo s \<longleftrightarrow> list_all (\<lambda>c. is_letter c \<or> is_digit c \<or> c \<in> set ''-._:~!$&()*+,;=%@'' \<or> c = CHR 0x27) s"

text \<open>The first place where \<^verbatim>\<open>%25\<close> stands, which introduces the zone of an IPv6 address.\<close>

fun zone_index :: "string \<Rightarrow> nat option" where
  "zone_index [] = None"
| "zone_index (c # cs) = (if take 3 (c # cs) = ''%25'' then Some 0 else map_option Suc (zone_index cs))"

definition parseHost :: "string \<Rightarrow> string option" where
  "parseHost host =
     (if host \<noteq> [] \<and> hd host = CHR ''[''
      then case LastIndexByte host CHR '']'' of
             None \<Rightarrow> None
           | Some i \<Rightarrow>
               if \<not> validOptionalPort (drop (Suc i) host) then None
               else (case zone_index (take i host) of
                       Some z \<Rightarrow> do {
                         h1 \<leftarrow> unescape encodeHost (take z host);
                         h2 \<leftarrow> unescape encodeZone (drop z (take i host));
                         h3 \<leftarrow> unescape encodeHost (drop i host);
                         Some (h1 @ h2 @ h3) }
                     | None \<Rightarrow> unescape encodeHost host)
      else case LastIndexByte host CHR '':'' of
             Some i \<Rightarrow> if \<not> validOptionalPort (drop i host) then None else unescape encodeHost host
           | None \<Rightarrow> unescape encodeHost host)"

definition parseAuthority :: "string \<Rightarrow> string option" where
  "parseAuthority authority =
     (case LastIndexByte authority CHR ''@'' of
        None \<Rightarrow> parseHost authority
      | Some i \<Rightarrow> do {
          host \<leftarrow> parseHost (drop (Suc i) authority);
          (if validUserinfo (take i authority) then Some () else None);
          (case Cut (take i authority) CHR '':'' of (user, password, _) \<Rightarrow> do {
             unescape encodeUserPassword user;
             unescape encodeUserPassword password });
          Some host })"

definition has_ctl :: "string \<Rightarrow> bool" where
  "has_ctl s \<longleftrightarrow> list_ex (\<lambda>c. of_char c < (32::nat) \<or> of_char c = (127::nat)) s"

definition split_query :: "string \<Rightarrow> string \<times> string" where
  "split_query rest = (case Cut rest CHR ''?'' of (path, query, _) \<Rightarrow> (path, query))"

definition url_parse_raw :: "string \<Rightarrow> url option" where
  "url_parse_raw raw =
     (if has_ctl raw then None
      else if raw = ''*'' then Some \<lparr>u_Scheme = [], u_Opaque = [], u_Host = [], u_Path = ''*'', u_RawQuery = [], u_Fragment = []\<rparr>
      else do {
        (scheme0, rest0) \<leftarrow> getScheme raw;
        let scheme = map lower_byte scheme0;
        let (rest, query) = split_query rest0;
        if (rest = [] \<or> hd rest \<noteq> CHR ''/'') \<and> scheme \<noteq> []
        then Some \<lparr>u_Scheme = scheme, u_Opaque = rest, u_Host = [], u_Path = [], u_RawQuery = query, u_Fragment = []\<rparr>
        else if (rest = [] \<or> hd rest \<noteq> CHR ''/'') \<and> CHR '':'' \<in> set (takeWhile (\<lambda>c. c \<noteq> CHR ''/'') rest)
        then None
        else if (scheme \<noteq> [] \<or> take 3 rest \<noteq> ''///'') \<and> take 2 rest = ''//''
        then do {
          let authority = takeWhile (\<lambda>c. c \<noteq> CHR ''/'') (drop 2 rest);
          let path = dropWhile (\<lambda>c. c \<noteq> CHR ''/'') (drop 2 rest);
          host \<leftarrow> parseAuthority authority;
          p \<leftarrow> unescape encodePath path;
          Some \<lparr>u_Scheme = scheme, u_Opaque = [], u_Host = host, u_Path = p, u_RawQuery = query, u_Fragment = []\<rparr> }
        else do {
          p \<leftarrow> unescape encodePath rest;
          Some \<lparr>u_Scheme = scheme, u_Opaque = [], u_Host = [], u_Path = p, u_RawQuery = query, u_Fragment = []\<rparr> } })"

definition url_Parse :: "string \<Rightarrow> url option" where
  "url_Parse s =
     (case Cut s CHR ''#'' of (u, frag, _) \<Rightarrow> do {
        url \<leftarrow> url_parse_raw u;
        f \<leftarrow> unescape encodeFragment frag;
        Some (url\<lparr>u_Fragment := f\<rparr>) })"

section \<open>Plain upstream addresses\<close>

definition host_char :: "char \<Rightarrow> bool" where
  "host_char c \<longleftrightarrow> is_letter c \<or> is_digit c \<or> c \<in> set ''-.''"

lemma unescape_plain:
  assumes "list_all host_char h"
  shows "unescape m h = Some h"
  using assms
  by (induction h) (auto simp: host_char_def shouldEscape_host_def is_letter_def is_digit_def)

lemma host_char_no:
  assumes "list_all host_char h"
  shows "CHR '':'' \<notin> set h" "CHR ''@'' \<notin> set h" "CHR ''/'' \<notin> set h" "CHR ''#'' \<notin> set h" "CHR ''?'' \<notin> set h"
    "CHR ''['' \<notin> set h"
  using assms by (induction h) (auto simp: host_char_def is_letter_def is_digit_def)

lemma host_char_no_ctl: "list_all host_char h \<Longrightarrow> \<not> has_ctl h"
proof (induction h)
  case (Cons c h)
  have "\<not> ((of_char c :: nat) < 32 \<or> of_char c = (127::nat))" if "host_char c"
    using that by (auto simp: host_char_def is_letter_def is_digit_def less_eq_char_def)
  with Cons show ?case by (simp add: has_ctl_def)
qed (simp add: has_ctl_def)

text \<open>A plain http address is taken apart as expected.\<close>

lemma url_Parse_http:
  assumes "list_all host_char h" and "h \<noteq> []"
  shows "url_Parse (''http://'' @ h) =
    Some \<lparr>u_Scheme = ''http'', u_Opaque = [], u_Host = h, u_Path = [], u_RawQuery = [], u_Fragment = []\<rparr>"
proof -
  note no = host_char_no [OF assms(1)]
  have hd: "hd h \<noteq> CHR ''/''" "hd h \<noteq> CHR ''[''" using no(3,6) assms(2) by (metis hd_in_set)+
  have ctl: "\<not> has_ctl (''http://'' @ h)" using host_char_no_ctl [OF assms(1)] by (simp add: has_ctl_def)
  have scheme: "getScheme (''http://'' @ h) = Some (''http'', ''//'' @ h)"
    by (simp add: getScheme_def is_letter_def is_digit_def)
  have query: "split_query (''//'' @ h) = (''//'' @ h, [])"
    using no(5) by (simp add: split_query_def Cut_missing)
  have tw: "takeWhile (\<lambda>c. c \<noteq> CHR ''/'') h = h" "dropWhile (\<lambda>c. c \<noteq> CHR ''/'') h = []"
    using no(3) by (auto simp: takeWhile_eq_all_conv)
  have none: "LastIndexByte h CHR ''@'' = None" "LastIndexByte h CHR '':'' = None"
    using no by (simp_all add: LastIndexByte_def)
  have auth: "parseAuthority h = Some h"
    using hd by (simp add: none parseAuthority_def parseHost_def unescape_plain [OF assms(1)])
  have "lower_byte CHR ''h'' = CHR ''h''" "lower_byte CHR ''t'' = CHR ''t''" "lower_byte CHR ''p'' = CHR ''p''"
    by (simp_all add: lower_byte_def)
  then have "url_parse_raw (''http://'' @ h) =
      Some \<lparr>u_Scheme = ''http'', u_Opaque = [], u_Host = h, u_Path = [], u_RawQuery = [], u_Fragment = []\<rparr>"
    using ctl scheme query auth by (simp add: tw url_parse_raw_def)
  moreover have "Cut (''http://'' @ h) CHR ''#'' = (''http://'' @ h, [], False)"
    using no(4) by (simp add: Cut_missing)
  ultimately show ?thesis by (simp add: url_Parse_def)
qed

end
