(* ===== verification/Http.thy ===== *)
theory Http
  imports Go_Strings
begin

text \<open>
  The parts of \<^verbatim>\<open>net/http\<close> the handlers see: a parsed request, the cookies they set, and the response
  writer of the server with its rules for status lines. The writer follows \<^verbatim>\<open>http.response\<close>: the first
  final status wins, informational (1xx) statuses are sent at once without ending the header phase, a
  body write before any status sends 200, and a status outside 100..999 panics.
\<close>

section \<open>Requests\<close>

record http_request =
  r_Method :: string
  r_Path :: string
  r_URLString :: string
  r_RequestURI :: string
  r_Proto :: string
  r_Host :: string
  r_RemoteAddr :: string
  r_Header :: "(string \<times> string list) list"
  r_TransferEncoding :: "string list"
  r_Cookies :: "(string \<times> string) list"
  r_Query :: "(string \<times> string list) list"
  r_TLS :: bool
  r_Body :: "string option"

text \<open>\<open>Header.Get\<close> and \<open>url.Values.Get\<close>: the first value of a key, or the empty string.\<close>

definition Values_Get :: "(string \<times> string list) list \<Rightarrow> string \<Rightarrow> string" where
  "Values_Get h k = (case map_of h k of Some (v # _) \<Rightarrow> v | _ \<Rightarrow> [])"

text \<open>\<open>r.Cookie(name)\<close>: the first cookie of that name.\<close>

definition Request_Cookie :: "http_request \<Rightarrow> string \<Rightarrow> string option" where
  "Request_Cookie r n = map_of (r_Cookies r) n"

section \<open>Cookies\<close>

datatype same_site = SameSiteStrictMode

record cookie =
  c_Name :: string
  c_Value :: string
  c_Path :: string
  c_Expires :: "go_time option"
  c_MaxAge :: int
  c_HttpOnly :: bool
  c_Secure :: bool
  c_SameSite :: same_site

section \<open>JSON responses\<close>

text \<open>The control plane answers with JSON values; the text they are printed as is not modelled.\<close>

datatype json =
  JNull | JBool bool | JInt int | JStr string | JTime go_time
| JArr "json list" | JObj "(string \<times> json) list"

record response =
  rs_Status :: int
  rs_ContentType :: "string option"
  rs_Cookies :: "cookie list"
  rs_Body :: "json option"

section \<open>Response writers\<close>

record writer =
  w_header :: "string \<rightharpoonup> string"
  w_status :: "int option"
  w_info :: "int list"
  w_body :: string
  w_flushes :: nat
  w_panicked :: bool

definition new_writer :: writer where
  "new_writer = \<lparr>w_header = Map.empty, w_status = None, w_info = [], w_body = [], w_flushes = 0,
                 w_panicked = False\<rparr>"

definition informational :: "int \<Rightarrow> bool" where
  "informational code \<longleftrightarrow> 100 \<le> code \<and> code \<le> 199 \<and> code \<noteq> 101"

definition Header_Set :: "string \<Rightarrow> string \<Rightarrow> writer \<Rightarrow> writer" where
  "Header_Set k v w = (if w_panicked w then w else w\<lparr>w_header := (w_header w)(k \<mapsto> v)\<rparr>)"

definition WriteHeader :: "int \<Rightarrow> writer \<Rightarrow> writer" where
  "WriteHeader code w =
     (if w_panicked w \<or> w_status w \<noteq> None then w
      else if code < 100 \<or> 999 < code then w\<lparr>w_panicked := True\<rparr>
      else if informational code then w\<lparr>w_info := w_info w @ [code]\<rparr>
      else w\<lparr>w_status := Some code\<rparr>)"

definition Write :: "string \<Rightarrow> writer \<Rightarrow> writer" where
  "Write b w =
     (if w_panicked w then w
      else let w' = (if w_status w = None then w\<lparr>w_status := Some StatusOK\<rparr> else w)
           in w'\<lparr>w_body := w_body w' @ b\<rparr>)"

definition Flush :: "writer \<Rightarrow> writer" where
  "Flush w = (if w_panicked w then w
              else let w' = (if w_status w = None then w\<lparr>w_status := Some StatusOK\<rparr> else w)
                   in w'\<lparr>w_flushes := Suc (w_flushes w')\<rparr>)"

text \<open>\<open>http.Error\<close>: plain text with a trailing newline.\<close>

definition Http_Error :: "string \<Rightarrow> int \<Rightarrow> writer \<Rightarrow> writer" where
  "Http_Error msg code w =
     Write (msg @ [char_of (10::nat)])
       (WriteHeader code
         (Header_Set ''X-Content-Type-Options'' ''nosniff''
           (Header_Set ''Content-Type'' ''text/plain; charset=utf-8'' w)))"

text \<open>\<open>http.Redirect\<close> to an absolute address: the location, with its bytes outside ASCII escaped, and for
  GET and HEAD a short hypertext body (sent for GET alone).\<close>

definition upper_hex :: "nat \<Rightarrow> char" where
  "upper_hex n = ''0123456789ABCDEF'' ! n"

definition hexEscapeNonASCII :: "string \<Rightarrow> string" where
  "hexEscapeNonASCII s = concat (map (\<lambda>c. if 128 \<le> (of_char c :: nat)
     then [CHR ''%'', upper_hex (of_char c div 16), upper_hex (of_char c mod 16)] else [c]) s)"

definition htmlEscape :: "string \<Rightarrow> string" where
  "htmlEscape s = concat (map (\<lambda>c.
     if c = CHR ''&'' then ''&amp;'' else if c = CHR ''<'' then ''&lt;'' else if c = CHR ''>'' then ''&gt;''
     else if c = CHR 0x22 then ''&#34;'' else if c = CHR 0x27 then ''&#39;'' else [c]) s)"

definition Http_Redirect :: "string \<Rightarrow> string \<Rightarrow> int \<Rightarrow> string \<Rightarrow> writer \<Rightarrow> writer" where
  "Http_Redirect method target code statusText w =
     (let hadCT = w_header w ''Content-Type'' \<noteq> None;
          w = Header_Set ''Location'' (hexEscapeNonASCII target) w;
          w = (if \<not> hadCT \<and> (method = ''GET'' \<or> method = ''HEAD'')
               then Header_Set ''Content-Type'' ''text/html; charset=utf-8'' w else w);
          w = WriteHeader code w
      in if \<not> hadCT \<and> method = ''GET''
         then Write (''<a href='' @ [CHR 0x22] @ htmlEscape target @ [CHR 0x22] @ ''>'' @ statusText @ ''</a>.'' @ [CHR 0x0A, CHR 0x0A]) w
         else w)"

text \<open>What the client finally sees: the server sends 200 when a handler returned without a status.\<close>

definition final_status :: "writer \<Rightarrow> int" where
  "final_status w = (case w_status w of None \<Rightarrow> StatusOK | Some c \<Rightarrow> c)"

lemmas [http_defs] = Header_Set_def WriteHeader_def Write_def Flush_def Http_Error_def final_status_def
  informational_def Let_def

text \<open>What a handler does with its writer, as data.\<close>

datatype wop = SetHeaderOp string string | WriteHeaderOp int | WriteOp string | FlushOp

fun writer_op :: "wop \<Rightarrow> writer \<Rightarrow> writer" where
  "writer_op (SetHeaderOp k v) w = Header_Set k v w"
| "writer_op (WriteHeaderOp c) w = WriteHeader c w"
| "writer_op (WriteOp b) w = Write b w"
| "writer_op FlushOp w = Flush w"

text \<open>\<open>http.Error\<close> as a handler's writes.\<close>

definition http_error_ops :: "string \<Rightarrow> int \<Rightarrow> wop list" where
  "http_error_ops msg code =
     [SetHeaderOp ''Content-Type'' ''text/plain; charset=utf-8'', SetHeaderOp ''X-Content-Type-Options'' ''nosniff'',
      WriteHeaderOp code, WriteOp (msg @ [char_of (10::nat)])]"

lemma http_error_ops: "fold writer_op (http_error_ops msg code) w = Http_Error msg code w"
  by (simp add: http_error_ops_def Http_Error_def)

lemma writer_op_status_stable: "w_status w = Some c \<Longrightarrow> w_status (writer_op x w) = Some c"
  by (cases x) (auto simp: http_defs)

lemma fold_writer_status_stable: "w_status w = Some c \<Longrightarrow> w_status (fold writer_op xs w) = Some c"
  by (induction xs arbitrary: w) (auto simp: writer_op_status_stable)

lemma writer_op_panicked: "w_panicked w \<Longrightarrow> writer_op x w = w"
  by (cases x) (auto simp: http_defs)

lemma fold_writer_panicked: "w_panicked w \<Longrightarrow> fold writer_op xs w = w"
  by (induction xs) (auto simp: writer_op_panicked)

end
