(* ===== verification/Store.thy ===== *)
theory Store
  imports Go_Encoding
begin

text \<open>
  \<^verbatim>\<open>internal/store\<close>: the persistence layer. The SQLite database is a record of its four tables with
  their AUTOINCREMENT counters, and each method of \<open>Store\<close> is a function that returns its result and
  the database after it. A statement may fail in the driver: the field \<open>faults\<close> lists, for the
  statements to come, the driver error each one meets (\<open>None\<close>: it runs; the empty list: no more
  errors). A failing statement changes no row. An error while the rows of a query are read counts as a
  failure of the query where the code asks for \<open>rows.Err()\<close>; \<open>Stats\<close> does not ask, so there reading the rows
  takes an entry of its own, and an error merely ends the loop early. The rows a query leaves in an unspecified order are
  visited in an order that is a parameter of the query.
\<close>

section \<open>The data model\<close>

type_synonym WAFMode = string
type_synonym TLSMode = string

definition WAFModeOn :: WAFMode where "WAFModeOn = ''on''"
definition WAFModeDetection :: WAFMode where "WAFModeDetection = ''detection''"
definition WAFModeOff :: WAFMode where "WAFModeOff = ''off''"

definition TLSModeAuto :: TLSMode where "TLSModeAuto = ''auto''"
definition TLSModeManual :: TLSMode where "TLSModeManual = ''manual''"
definition TLSModeOff :: TLSMode where "TLSModeOff = ''off''"

lemmas waf_modes = WAFModeOn_def WAFModeDetection_def WAFModeOff_def
lemmas tls_modes = TLSModeAuto_def TLSModeManual_def TLSModeOff_def

record site =
  site_ID :: int
  site_Domain :: string
  site_UpstreamURL :: string
  site_WAFMode :: WAFMode
  site_TLSMode :: TLSMode
  site_CertFile :: string
  site_KeyFile :: string
  site_Enabled :: bool
  site_CreatedAt :: go_time
  site_UpdatedAt :: go_time

record custom_rule =
  rule_ID :: int
  rule_Name :: string
  rule_Directive :: string
  rule_Description :: string
  rule_Enabled :: bool
  rule_CreatedAt :: go_time
  rule_UpdatedAt :: go_time

record event =
  ev_ID :: int
  ev_Timestamp :: go_time
  ev_TxID :: string
  ev_Domain :: string
  ev_ClientIP :: string
  ev_Method :: string
  ev_URI :: string
  ev_Blocked :: bool
  ev_StatusCode :: int
  ev_RuleID :: int
  ev_Message :: string
  ev_Severity :: int
  ev_AnomalyScore :: int
  ev_MatchedRules :: "int list"

record rule_count =
  rc_RuleID :: int
  rc_Message :: string
  rc_Count :: nat

record client_count =
  cc_ClientIP :: string
  cc_Count :: nat

record timeline_point =
  tp_Bucket :: go_time
  tp_Total :: nat
  tp_Blocked :: nat

record stats =
  TotalEvents :: nat
  BlockedEvents :: nat
  TopRules :: "rule_count list"
  TopClients :: "client_count list"
  Timeline :: "timeline_point list"

text \<open>The row of an event holds the matched rules as text.\<close>

record event_row =
  er_event :: event
  er_matched :: string

datatype db_error = ErrNoRows | ErrUnique | ErrFull | ErrDriver string

record db =
  sites :: "site list"
  sites_seq :: int
  rules :: "custom_rule list"
  rules_seq :: int
  events :: "event_row list"
  events_seq :: int
  settings :: "string \<rightharpoonup> string"
  faults :: "string option list"

type_synonym 'a db_result = "(db_error + 'a) \<times> db"

text \<open>A database with its tables and nothing in them.\<close>

definition empty_db :: db where
  "empty_db = \<lparr>sites = [], sites_seq = 0, rules = [], rules_seq = 0, events = [], events_seq = 0,
              settings = Map.empty, faults = []\<rparr>"

text \<open>One statement: it runs unless the driver fails it.\<close>

definition stmt :: "(db \<Rightarrow> 'a db_result) \<Rightarrow> db \<Rightarrow> 'a db_result" where
  "stmt f d = (case faults d of
                 [] \<Rightarrow> f d
               | None # fs \<Rightarrow> f (d\<lparr>faults := fs\<rparr>)
               | Some m # fs \<Rightarrow> (Inl (ErrDriver m), d\<lparr>faults := fs\<rparr>))"

text \<open>Whether the statement after the next \<open>i\<close> ones runs.\<close>

definition runs :: "nat \<Rightarrow> db \<Rightarrow> bool" where
  "runs i d \<longleftrightarrow> (i < length (faults d) \<longrightarrow> faults d ! i = None)"

section \<open>Settings\<close>

definition GetSetting :: "string \<Rightarrow> db \<Rightarrow> string option db_result" where
  "GetSetting key = stmt (\<lambda>d. (Inr (settings d key), d))"

definition SetSetting :: "string \<Rightarrow> string \<Rightarrow> db \<Rightarrow> unit db_result" where
  "SetSetting key value = stmt (\<lambda>d. (Inr (), d\<lparr>settings := (settings d)(key \<mapsto> value)\<rparr>))"

section \<open>Sites\<close>

definition ListSites :: "db \<Rightarrow> site list db_result" where
  "ListSites = stmt (\<lambda>d. (Inr (sort_key site_Domain (sites d)), d))"

definition GetSite :: "int \<Rightarrow> db \<Rightarrow> site db_result" where
  "GetSite i = stmt (\<lambda>d. ((case find (\<lambda>r. site_ID r = i) (sites d) of
                              None \<Rightarrow> Inl ErrNoRows | Some st \<Rightarrow> Inr st), d))"

definition CreateSite :: "site \<Rightarrow> go_time \<Rightarrow> db \<Rightarrow> site db_result" where
  "CreateSite st now = stmt (\<lambda>d.
     let st' = st\<lparr>site_ID := sites_seq d + 1, site_CreatedAt := now, site_UpdatedAt := now\<rparr>
     in if sites_seq d = max_int64 then (Inl ErrFull, d)
        else if \<exists>r \<in> set (sites d). site_Domain r = site_Domain st then (Inl ErrUnique, d)
        else (Inr st', d\<lparr>sites := sites d @ [st'], sites_seq := sites_seq d + 1\<rparr>))"

text \<open>The columns an UPDATE of a site writes.\<close>

definition set_site :: "site \<Rightarrow> go_time \<Rightarrow> site \<Rightarrow> site" where
  "set_site st now row = st\<lparr>site_ID := site_ID row, site_CreatedAt := site_CreatedAt row,
                            site_UpdatedAt := now\<rparr>"

definition UpdateSite :: "site \<Rightarrow> go_time \<Rightarrow> db \<Rightarrow> site db_result" where
  "UpdateSite st now = stmt (\<lambda>d.
     if (\<exists>r \<in> set (sites d). site_ID r = site_ID st) \<and>
        (\<exists>r \<in> set (sites d). site_ID r \<noteq> site_ID st \<and> site_Domain r = site_Domain st)
     then (Inl ErrUnique, d)
     else (Inr (st\<lparr>site_UpdatedAt := now\<rparr>),
           d\<lparr>sites := map (\<lambda>r. if site_ID r = site_ID st then set_site st now r else r) (sites d)\<rparr>))"

definition DeleteSite :: "int \<Rightarrow> db \<Rightarrow> unit db_result" where
  "DeleteSite i = stmt (\<lambda>d. (Inr (), d\<lparr>sites := filter (\<lambda>r. site_ID r \<noteq> i) (sites d)\<rparr>))"

section \<open>Custom rules\<close>

definition ListRules :: "db \<Rightarrow> custom_rule list db_result" where
  "ListRules = stmt (\<lambda>d. (Inr (sort_key rule_ID (rules d)), d))"

definition EnabledRuleDirectives :: "db \<Rightarrow> string list db_result" where
  "EnabledRuleDirectives =
     stmt (\<lambda>d. (Inr (map rule_Directive (sort_key rule_ID (filter rule_Enabled (rules d)))), d))"

definition GetRule :: "int \<Rightarrow> db \<Rightarrow> custom_rule db_result" where
  "GetRule i = stmt (\<lambda>d. ((case find (\<lambda>r. rule_ID r = i) (rules d) of
                              None \<Rightarrow> Inl ErrNoRows | Some r \<Rightarrow> Inr r), d))"

definition CreateRule :: "custom_rule \<Rightarrow> go_time \<Rightarrow> db \<Rightarrow> custom_rule db_result" where
  "CreateRule r now = stmt (\<lambda>d.
     let r' = r\<lparr>rule_ID := rules_seq d + 1, rule_CreatedAt := now, rule_UpdatedAt := now\<rparr>
     in if rules_seq d = max_int64 then (Inl ErrFull, d)
        else (Inr r', d\<lparr>rules := rules d @ [r'], rules_seq := rules_seq d + 1\<rparr>))"

definition set_rule :: "custom_rule \<Rightarrow> go_time \<Rightarrow> custom_rule \<Rightarrow> custom_rule" where
  "set_rule r now row = r\<lparr>rule_ID := rule_ID row, rule_CreatedAt := rule_CreatedAt row,
                          rule_UpdatedAt := now\<rparr>"

definition UpdateRule :: "custom_rule \<Rightarrow> go_time \<Rightarrow> db \<Rightarrow> custom_rule db_result" where
  "UpdateRule r now = stmt (\<lambda>d.
     (Inr (r\<lparr>rule_UpdatedAt := now\<rparr>),
      d\<lparr>rules := map (\<lambda>x. if rule_ID x = rule_ID r then set_rule r now x else x) (rules d)\<rparr>))"

definition DeleteRule :: "int \<Rightarrow> db \<Rightarrow> unit db_result" where
  "DeleteRule i = stmt (\<lambda>d. (Inr (), d\<lparr>rules := filter (\<lambda>r. rule_ID r \<noteq> i) (rules d)\<rparr>))"

section \<open>Events\<close>

definition InsertEvent :: "event \<Rightarrow> db \<Rightarrow> event db_result" where
  "InsertEvent e = stmt (\<lambda>d.
     let e' = e\<lparr>ev_ID := events_seq d + 1\<rparr>
     in if events_seq d = max_int64 then (Inl ErrFull, d)
        else (Inr e', d\<lparr>events := events d @ [\<lparr>er_event = e'\<lparr>ev_MatchedRules := []\<rparr>,
                                              er_matched = Marshal_ints (ev_MatchedRules e)\<rparr>],
                        events_seq := events_seq d + 1\<rparr>))"

record event_filter =
  f_Domain :: string
  f_BlockedOnly :: bool
  f_Limit :: int
  f_Offset :: int

text \<open>Scanning a row: a matched-rules text that does not decode leaves the slice nil.\<close>

definition scan_event :: "event_row \<Rightarrow> event" where
  "scan_event r = (er_event r)\<lparr>ev_MatchedRules :=
     (case Unmarshal_ints (er_matched r) of None \<Rightarrow> [] | Some xs \<Rightarrow> xs)\<rparr>"

definition event_where :: "event_filter \<Rightarrow> event_row \<Rightarrow> bool" where
  "event_where f r \<longleftrightarrow> (f_Domain f \<noteq> [] \<longrightarrow> ev_Domain (er_event r) = f_Domain f) \<and>
                       (f_BlockedOnly f \<longrightarrow> ev_Blocked (er_event r))"

definition event_limit :: "event_filter \<Rightarrow> nat" where
  "event_limit f = (if f_Limit f \<le> 0 \<or> 1000 < f_Limit f then 100 else nat (f_Limit f))"

text \<open>\<open>LIMIT\<close> and \<open>OFFSET\<close> as SQLite reads them: a negative offset is 0.\<close>

definition ListEvents ::
  "(event_row list \<Rightarrow> event_row list) \<Rightarrow> event_filter \<Rightarrow> db \<Rightarrow> event list db_result" where
  "ListEvents v f = stmt (\<lambda>d.
     (Inr (map scan_event
            (take (event_limit f)
              (drop (nat (f_Offset f))
                (sort_desc (\<lambda>r. ev_Timestamp (er_event r)) (v (filter (event_where f) (events d))))))), d))"

text \<open>\<open>GROUP BY\<close> with \<open>COUNT(*)\<close>: each key once, with the rows that have it.\<close>

definition groups :: "('a \<Rightarrow> 'k) \<Rightarrow> 'a list \<Rightarrow> ('k \<times> 'a list) list" where
  "groups k rows = map (\<lambda>x. (x, filter (\<lambda>r. k r = x) rows)) (remdups (map k rows))"

definition neg_duration :: "duration \<Rightarrow> duration" where
  "neg_duration x = (if x = min_int64 then min_int64 else - x)"

definition hour_bucket :: "go_time \<Rightarrow> go_time" where
  "hour_bucket t = t div hour * hour"

definition count_blocked :: "event_row list \<Rightarrow> nat" where
  "count_blocked rows = length (filter (\<lambda>r. ev_Blocked (er_event r)) rows)"

definition since_rows :: "go_time \<Rightarrow> db \<Rightarrow> event_row list" where
  "since_rows from d = filter (\<lambda>r. from \<le> ev_Timestamp (er_event r)) (events d)"

definition stats_totals :: "go_time \<Rightarrow> db \<Rightarrow> (nat \<times> nat) db_result" where
  "stats_totals from = stmt (\<lambda>d. (Inr (length (since_rows from d), count_blocked (since_rows from d)), d))"

definition stats_rules ::
  "(event_row list \<Rightarrow> event_row list) \<Rightarrow> go_time \<Rightarrow> db \<Rightarrow> rule_count list db_result" where
  "stats_rules v from = stmt (\<lambda>d.
     (Inr (take 10 (sort_desc rc_Count
        (map (\<lambda>(i, rs). \<lparr>rc_RuleID = i, rc_Message = ev_Message (er_event (hd rs)), rc_Count = length rs\<rparr>)
          (groups (\<lambda>r. ev_RuleID (er_event r))
            (v (filter (\<lambda>r. ev_RuleID (er_event r) \<noteq> 0) (since_rows from d))))))), d))"

definition stats_clients ::
  "(event_row list \<Rightarrow> event_row list) \<Rightarrow> go_time \<Rightarrow> db \<Rightarrow> client_count list db_result" where
  "stats_clients v from = stmt (\<lambda>d.
     (Inr (take 10 (sort_desc cc_Count
        (map (\<lambda>(ip, rs). \<lparr>cc_ClientIP = ip, cc_Count = length rs\<rparr>)
          (groups (\<lambda>r. ev_ClientIP (er_event r)) (v (since_rows from d)))))), d))"

definition stats_timeline :: "go_time \<Rightarrow> db \<Rightarrow> timeline_point list db_result" where
  "stats_timeline from = stmt (\<lambda>d.
     (Inr (sort_key tp_Bucket
        (map (\<lambda>(b, rs). \<lparr>tp_Bucket = b, tp_Total = length rs, tp_Blocked = count_blocked rs\<rparr>)
          (groups (\<lambda>r. hour_bucket (ev_Timestamp (er_event r))) (since_rows from d)))), d))"

text \<open>A loop over the rows of a query that does not ask for \<open>rows.Err()\<close>: when reading fails with the error \<open>m\<close>,
  it has seen the first \<open>got m\<close> rows and goes on as if there were no more.\<close>

definition scan_rows :: "(string \<Rightarrow> nat) \<Rightarrow> 'a list \<Rightarrow> db \<Rightarrow> 'a list \<times> db" where
  "scan_rows got rows d = (case faults d of
                             [] \<Rightarrow> (rows, d)
                           | None # fs \<Rightarrow> (rows, d\<lparr>faults := fs\<rparr>)
                           | Some m # fs \<Rightarrow> (take (got m) rows, d\<lparr>faults := fs\<rparr>))"

text \<open>\<open>Stats\<close> runs four queries without a transaction and stops at the first that fails; \<open>meanwhile i\<close> is what
  other goroutines, such as the event worker, do to the database between query \<open>i\<close> and the next.\<close>

definition Stats ::
  "(string \<Rightarrow> nat) \<Rightarrow> (event_row list \<Rightarrow> event_row list) \<Rightarrow> (event_row list \<Rightarrow> event_row list) \<Rightarrow>
   (nat \<Rightarrow> db \<Rightarrow> db) \<Rightarrow> duration \<Rightarrow> go_time \<Rightarrow> db \<Rightarrow> stats db_result" where
  "Stats got v w meanwhile since now d =
     (let from = now + neg_duration since
      in case stats_totals from d of
           (Inl e, d) \<Rightarrow> (Inl e, d)
         | (Inr (n, b), d) \<Rightarrow>
             (case stats_rules v from (meanwhile 0 d) of
                (Inl e, d) \<Rightarrow> (Inl e, d)
              | (Inr trs, d) \<Rightarrow>
                  (case scan_rows got trs d of (trs, d) \<Rightarrow>
                   case stats_clients w from (meanwhile 1 d) of
                     (Inl e, d) \<Rightarrow> (Inl e, d)
                   | (Inr tcs, d) \<Rightarrow>
                       (case scan_rows got tcs d of (tcs, d) \<Rightarrow>
                        case stats_timeline from (meanwhile 2 d) of
                          (Inl e, d) \<Rightarrow> (Inl e, d)
                        | (Inr tml, d) \<Rightarrow>
                            (case scan_rows got tml d of (tml, d) \<Rightarrow>
                               (Inr \<lparr>TotalEvents = n, BlockedEvents = b, TopRules = trs,
                                     TopClients = tcs, Timeline = tml\<rparr>, d))))))"

lemmas [store_defs] =
  GetSetting_def SetSetting_def ListSites_def GetSite_def CreateSite_def UpdateSite_def DeleteSite_def
  ListRules_def EnabledRuleDirectives_def GetRule_def CreateRule_def UpdateRule_def DeleteRule_def
  InsertEvent_def

section \<open>Running statements\<close>

lemma faults_empty_db [simp]: "faults empty_db = []"
  by (simp add: empty_db_def)

lemma runs_no_fault [simp]: "faults d = [] \<Longrightarrow> runs i d"
  by (simp add: runs_def)

lemma stmt_runs:
  "stmt f d = (if runs 0 d then f (d\<lparr>faults := drop 1 (faults d)\<rparr>)
               else (Inl (ErrDriver (the (hd (faults d)))), d\<lparr>faults := drop 1 (faults d)\<rparr>))"
proof (cases "faults d")
  case Nil
  then have eq: "d\<lparr>faults := []\<rparr> = d" by simp
  with Nil show ?thesis by (simp add: stmt_def runs_def eq)
qed (auto simp: stmt_def runs_def split: option.splits)

lemma runs_drop [simp]: "runs i (d\<lparr>faults := drop n (faults d)\<rparr>) = runs (n + i) d"
  by (auto simp: runs_def)

lemma stmt_no_fault [simp]: "faults d = [] \<Longrightarrow> stmt f d = f d"
  by (simp add: stmt_def)

text \<open>A statement either meets a driver error and changes nothing but the list of errors to come, or
  runs on the database it found.\<close>

lemma stmt_cases:
  assumes "stmt f d = (r, d')"
  obtains (fault) m fs where "faults d = Some m # fs" "r = Inl (ErrDriver m)" "d' = d\<lparr>faults := fs\<rparr>"
  | (run) fs where "fs = (case faults d of [] \<Rightarrow> [] | _ # fs \<Rightarrow> fs)" "f (d\<lparr>faults := fs\<rparr>) = (r, d')"
proof (cases "faults d")
  case Nil
  then have eq: "d\<lparr>faults := []\<rparr> = d" by simp
  from Nil assms show thesis by (intro run [of "[]"]) (simp_all add: stmt_def eq)
next
  case (Cons x fs)
  show thesis
  proof (cases x)
    case None
    with Cons assms show thesis by (intro run [of fs]) (simp_all add: stmt_def)
  next
    case (Some m)
    with Cons assms show thesis by (intro fault [of m fs]) (simp_all add: stmt_def)
  qed
qed

section \<open>The settings table as a key-value interface\<close>

text \<open>What the authenticator relies on: when no error is pending, a read returns the stored value and
  a write changes that key only; a failed operation changes no key.\<close>

locale kv_store =
  fixes get :: "'k \<Rightarrow> 's \<Rightarrow> ('e + 'v option) \<times> 's"
    and set :: "'k \<Rightarrow> 'v \<Rightarrow> 's \<Rightarrow> ('e + unit) \<times> 's"
    and view :: "'s \<Rightarrow> 'k \<rightharpoonup> 'v"
    and sound :: "'s \<Rightarrow> bool"
  assumes get_sound: "sound s \<Longrightarrow> get k s = (Inr (view s k), s)"
    and set_sound: "sound s \<Longrightarrow> \<exists>s'. set k v s = (Inr (), s') \<and> view s' = (view s)(k \<mapsto> v) \<and> sound s'"
    and get_view: "get k s = (r, s') \<Longrightarrow> view s' = view s"
    and get_value: "get k s = (Inr x, s') \<Longrightarrow> x = view s k"
    and set_view: "set k v s = (Inr u, s') \<Longrightarrow> view s' = (view s)(k \<mapsto> v)"
    and set_error: "set k v s = (Inl e, s') \<Longrightarrow> view s' = view s"
begin

lemma get_after_set:
  assumes "set k v s = (Inr u, s')" and "get k' s' = (Inr x, s'')"
  shows "x = (if k' = k then Some v else view s k')"
  using get_value [OF assms(2)] set_view [OF assms(1)] by simp

lemma set_frame: "set k v s = (r, s') \<Longrightarrow> k' \<noteq> k \<Longrightarrow> view s' k' = view s k'"
  using set_view set_error by (cases r) fastforce+

lemma set_result:
  assumes "sound s"
  shows "fst (set k v s) = Inr () \<and> view (snd (set k v s)) = (view s)(k \<mapsto> v) \<and> sound (snd (set k v s))"
  using set_sound [OF assms, of k v] by auto

end

interpretation settings_kv: kv_store GetSetting SetSetting settings "\<lambda>d. faults d = []"
  by unfold_locales (auto simp: store_defs elim!: stmt_cases)

section \<open>Tables with an AUTOINCREMENT key\<close>

text \<open>The key invariant of a table: ids are distinct, in insertion order, positive and never above the
  counter, which stays in the 64-bit range.\<close>

definition ids_ok :: "('r \<Rightarrow> int) \<Rightarrow> 'r list \<Rightarrow> int \<Rightarrow> bool" where
  "ids_ok rid rs n \<longleftrightarrow> distinct (map rid rs) \<and> sorted (map rid rs) \<and>
     (\<forall>r \<in> set rs. 1 \<le> rid r \<and> rid r \<le> n) \<and> 0 \<le> n \<and> n \<le> max_int64"

lemma ids_ok_cong:
  assumes "map rid rs = map rid rs'"
  shows "ids_ok rid rs n = ids_ok rid rs' n"
proof -
  have "(\<forall>r \<in> set rs. 1 \<le> rid r \<and> rid r \<le> n) \<longleftrightarrow> (\<forall>i \<in> set (map rid rs). 1 \<le> i \<and> i \<le> n)" for rs :: "'a list"
    by simp
  with assms show ?thesis unfolding ids_ok_def by presburger
qed

lemma ids_ok_filter: "ids_ok rid rs n \<Longrightarrow> ids_ok rid (filter P rs) n"
  by (auto simp: ids_ok_def)

locale id_table =
  fixes rows :: "'d \<Rightarrow> 'r list"
    and counter :: "'d \<Rightarrow> int"
    and rid :: "'r \<Rightarrow> int"
    and ins :: "'a \<Rightarrow> go_time \<Rightarrow> 'd \<Rightarrow> ('e + 'b) \<times> 'd"
    and out_id :: "'b \<Rightarrow> int"
  assumes ins_ok: "ins x t d = (Inr y, d') \<Longrightarrow>
      \<exists>r. rows d' = rows d @ [r] \<and> rid r = counter d + 1 \<and> out_id y = rid r \<and>
          counter d' = counter d + 1 \<and> counter d \<noteq> max_int64"
    and ins_error: "ins x t d = (Inl e, d') \<Longrightarrow> rows d' = rows d \<and> counter d' = counter d"
begin

lemma ins_ids_ok:
  assumes "ids_ok rid (rows d) (counter d)" and "ins x t d = (r, d')"
  shows "ids_ok rid (rows d') (counter d')"
proof (cases r)
  case (Inl e)
  with assms ins_error show ?thesis by fastforce
next
  case (Inr y)
  with assms(2) obtain row where "rows d' = rows d @ [row]" "rid row = counter d + 1"
      "counter d' = counter d + 1" "counter d \<noteq> max_int64"
    using ins_ok by blast
  with assms(1) show ?thesis by (force simp: ids_ok_def sorted_append)
qed

text \<open>A new id is larger than every id the table ever gave out.\<close>

lemma ins_fresh:
  assumes "ids_ok rid (rows d) (counter d)" and "ins x t d = (Inr y, d')"
  shows "\<forall>r \<in> set (rows d). rid r < out_id y"
  using assms ins_ok [OF assms(2)] by (force simp: ids_ok_def)

lemma ins_counter_mono: "ins x t d = (r, d') \<Longrightarrow> counter d \<le> counter d'"
  by (cases r) (use ins_ok ins_error in fastforce)+

end

locale crud_table = id_table rows counter rid ins out_id
  for rows :: "'d \<Rightarrow> 'r list" and counter :: "'d \<Rightarrow> int" and rid :: "'r \<Rightarrow> int"
    and ins :: "'r \<Rightarrow> go_time \<Rightarrow> 'd \<Rightarrow> ('e + 'r) \<times> 'd" and out_id :: "'r \<Rightarrow> int" +
  fixes upd :: "'r \<Rightarrow> go_time \<Rightarrow> 'd \<Rightarrow> ('e + 'r) \<times> 'd"
    and del :: "int \<Rightarrow> 'd \<Rightarrow> ('e + unit) \<times> 'd"
    and get :: "int \<Rightarrow> 'd \<Rightarrow> ('e + 'r) \<times> 'd"
    and merge :: "'r \<Rightarrow> go_time \<Rightarrow> 'r \<Rightarrow> 'r"
  assumes ins_row: "ins x t d = (Inr y, d') \<Longrightarrow> rows d' = rows d @ [y] \<and> out_id y = rid y"
    and merge_rid: "rid (merge x t r) = rid r"
    and upd_ok: "upd x t d = (Inr y, d') \<Longrightarrow>
      rows d' = map (\<lambda>r. if rid r = rid x then merge x t r else r) (rows d) \<and> counter d' = counter d"
    and upd_error: "upd x t d = (Inl e, d') \<Longrightarrow> rows d' = rows d \<and> counter d' = counter d"
    and del_ok: "del i d = (Inr u, d') \<Longrightarrow>
      rows d' = filter (\<lambda>r. rid r \<noteq> i) (rows d) \<and> counter d' = counter d"
    and del_error: "del i d = (Inl e, d') \<Longrightarrow> rows d' = rows d \<and> counter d' = counter d"
    and get_ok: "get i d = (Inr y, d') \<Longrightarrow> find (\<lambda>r. rid r = i) (rows d) = Some y"
    and get_rows: "get i d = (res, d') \<Longrightarrow> rows d' = rows d \<and> counter d' = counter d"
begin

lemma upd_ids_ok:
  assumes "ids_ok rid (rows d) (counter d)" and "upd x t d = (r, d')"
  shows "ids_ok rid (rows d') (counter d')"
proof (cases r)
  case (Inl e)
  with assms upd_error show ?thesis by fastforce
next
  case (Inr y)
  let ?f = "\<lambda>r. if rid r = rid x then merge x t r else r"
  from Inr assms(2) upd_ok have "rows d' = map ?f (rows d)" "counter d' = counter d" by blast+
  moreover have "map rid (map ?f (rows d)) = map rid (rows d)"
    using merge_rid by simp
  ultimately show ?thesis using assms(1) ids_ok_cong by metis
qed

lemma del_ids_ok:
  assumes "ids_ok rid (rows d) (counter d)" and "del i d = (r, d')"
  shows "ids_ok rid (rows d') (counter d')"
proof (cases r)
  case (Inl e)
  with assms del_error show ?thesis by fastforce
next
  case (Inr u)
  with assms(2) del_ok have "rows d' = filter (\<lambda>r. rid r \<noteq> i) (rows d)" "counter d' = counter d" by blast+
  with assms(1) ids_ok_filter show ?thesis by metis
qed

lemma get_after_ins:
  assumes "ids_ok rid (rows d) (counter d)" and "ins x t d = (Inr y, d')"
    and "get (out_id y) d' = (Inr z, d'')"
  shows "z = y"
proof -
  from ins_row [OF assms(2)] have rows: "rows d' = rows d @ [y]" and id: "out_id y = rid y" by simp_all
  from ins_fresh [OF assms(1,2)] have "find (\<lambda>r. rid r = out_id y) (rows d) = None"
    by (auto simp: find_None_iff_all)
  with rows id get_ok [OF assms(3)] show ?thesis by (simp add: find_append)
qed

lemma get_after_upd:
  assumes "upd x t d = (Inr y, d')" and "get i d' = (Inr z, d'')"
  shows "\<exists>r. find (\<lambda>r. rid r = i) (rows d) = Some r \<and> z = (if i = rid x then merge x t r else r)"
proof -
  let ?f = "\<lambda>r. if rid r = rid x then merge x t r else r"
  have "rid (?f r) = rid r" for r using merge_rid by simp
  then have "find (\<lambda>r. rid r = i) (map ?f (rows d)) = map_option ?f (find (\<lambda>r. rid r = i) (rows d))"
    by (rule find_map_same_key)
  with upd_ok [OF assms(1)] get_ok [OF assms(2)]
  obtain r where r: "find (\<lambda>r. rid r = i) (rows d) = Some r" and "z = ?f r" by auto
  moreover from r have "rid r = i" by (auto dest: find_SomeD)
  ultimately show ?thesis by auto
qed

lemma get_after_del:
  assumes "del i d = (Inr u, d')" and "get j d' = (Inr z, d'')"
  shows "j \<noteq> i \<and> find (\<lambda>r. rid r = j) (rows d) = Some z"
  using del_ok [OF assms(1)] get_ok [OF assms(2)] by (simp add: find_filter_key split: if_splits)

text \<open>Undoing an insertion by deleting the id it gave out restores the rows, not the counter.\<close>

lemma del_after_ins:
  assumes "ids_ok rid (rows d) (counter d)" and "ins x t d = (Inr y, d')"
    and "rows d1 = rows d'" and "del (out_id y) d1 = (Inr u, d'')"
  shows "rows d'' = rows d"
proof -
  from ins_row [OF assms(2)] have rows: "rows d' = rows d @ [y]" and id: "out_id y = rid y" by simp_all
  from ins_fresh [OF assms(1,2)] have "filter (\<lambda>r. rid r \<noteq> out_id y) (rows d) = rows d"
    by (auto intro!: filter_True)
  with rows id assms(3) del_ok [OF assms(4)] show ?thesis by simp
qed

end

lemmas table_rules = store_defs set_site_def set_rule_def Let_def

interpretation sites_table: crud_table sites sites_seq site_ID CreateSite site_ID
  UpdateSite DeleteSite GetSite set_site
proof (unfold_locales, goal_cases)
  case 1 then show ?case by (auto simp: table_rules elim!: stmt_cases split: if_splits)
next
  case 2 then show ?case by (auto simp: table_rules elim!: stmt_cases split: if_splits)
next
  case 3 then show ?case by (auto simp: table_rules elim!: stmt_cases split: if_splits)
next
  case 4 then show ?case by (simp add: set_site_def)
next
  case 5 then show ?case by (auto simp: UpdateSite_def elim!: stmt_cases split: if_split_asm)
next
  case 6 then show ?case by (auto simp: UpdateSite_def elim!: stmt_cases split: if_split_asm)
next
  case 7 then show ?case by (auto simp: DeleteSite_def elim!: stmt_cases)
next
  case 8 then show ?case by (auto simp: DeleteSite_def elim!: stmt_cases)
next
  case 9 then show ?case by (auto simp: GetSite_def elim!: stmt_cases split: option.splits)
next
  case 10 then show ?case by (auto simp: GetSite_def elim!: stmt_cases)
qed

interpretation rules_table: crud_table rules rules_seq rule_ID CreateRule rule_ID
  UpdateRule DeleteRule GetRule set_rule
proof (unfold_locales, goal_cases)
  case 1 then show ?case by (auto simp: table_rules elim!: stmt_cases split: if_splits)
next
  case 2 then show ?case by (auto simp: table_rules elim!: stmt_cases split: if_splits)
next
  case 3 then show ?case by (auto simp: table_rules elim!: stmt_cases split: if_splits)
next
  case 4 then show ?case by (simp add: set_rule_def)
next
  case 5 then show ?case by (auto simp: UpdateRule_def elim!: stmt_cases)
next
  case 6 then show ?case by (auto simp: UpdateRule_def elim!: stmt_cases)
next
  case 7 then show ?case by (auto simp: DeleteRule_def elim!: stmt_cases)
next
  case 8 then show ?case by (auto simp: DeleteRule_def elim!: stmt_cases)
next
  case 9 then show ?case by (auto simp: GetRule_def elim!: stmt_cases split: option.splits)
next
  case 10 then show ?case by (auto simp: GetRule_def elim!: stmt_cases)
qed

interpretation events_table: id_table events events_seq "\<lambda>r. ev_ID (er_event r)"
  "\<lambda>e _. InsertEvent e" ev_ID
proof (unfold_locales, goal_cases)
  case 1 then show ?case by (auto simp: InsertEvent_def Let_def elim!: stmt_cases split: if_splits)
next
  case 2 then show ?case by (auto simp: InsertEvent_def Let_def elim!: stmt_cases split: if_splits)
qed

end
