(* ===== verification/Store_Queries.thy ===== *)
theory Store_Queries
  imports Store
begin

text \<open>
  What the store promises beyond single tables: the database invariant (keys, the UNIQUE domain
  column) and that every statement keeps it, the event log's round trip through its TEXT column, the
  paging of \<open>ListEvents\<close> and the aggregates of \<open>Stats\<close>.
\<close>

section \<open>The database invariant\<close>

definition db_ok :: "db \<Rightarrow> bool" where
  "db_ok d \<longleftrightarrow> ids_ok site_ID (sites d) (sites_seq d) \<and> ids_ok rule_ID (rules d) (rules_seq d) \<and>
     ids_ok (\<lambda>r. ev_ID (er_event r)) (events d) (events_seq d) \<and> distinct (map site_Domain (sites d))"

text \<open>Statements on one table leave the others alone.\<close>

lemma sites_frame [store_frame]:
  "rules (snd (CreateSite st t d)) = rules d" "rules_seq (snd (CreateSite st t d)) = rules_seq d"
  "events (snd (CreateSite st t d)) = events d" "events_seq (snd (CreateSite st t d)) = events_seq d"
  "settings (snd (CreateSite st t d)) = settings d"
  "rules (snd (UpdateSite st t d)) = rules d" "rules_seq (snd (UpdateSite st t d)) = rules_seq d"
  "events (snd (UpdateSite st t d)) = events d" "events_seq (snd (UpdateSite st t d)) = events_seq d"
  "settings (snd (UpdateSite st t d)) = settings d"
  "rules (snd (DeleteSite i d)) = rules d" "rules_seq (snd (DeleteSite i d)) = rules_seq d"
  "events (snd (DeleteSite i d)) = events d" "events_seq (snd (DeleteSite i d)) = events_seq d"
  "settings (snd (DeleteSite i d)) = settings d"
  by (auto simp: CreateSite_def UpdateSite_def DeleteSite_def Let_def stmt_def split: list.splits option.splits)

lemma rules_frame [store_frame]:
  "sites (snd (CreateRule r t d)) = sites d" "sites_seq (snd (CreateRule r t d)) = sites_seq d"
  "events (snd (CreateRule r t d)) = events d" "events_seq (snd (CreateRule r t d)) = events_seq d"
  "settings (snd (CreateRule r t d)) = settings d"
  "sites (snd (UpdateRule r t d)) = sites d" "sites_seq (snd (UpdateRule r t d)) = sites_seq d"
  "events (snd (UpdateRule r t d)) = events d" "events_seq (snd (UpdateRule r t d)) = events_seq d"
  "settings (snd (UpdateRule r t d)) = settings d"
  "sites (snd (DeleteRule i d)) = sites d" "sites_seq (snd (DeleteRule i d)) = sites_seq d"
  "events (snd (DeleteRule i d)) = events d" "events_seq (snd (DeleteRule i d)) = events_seq d"
  "settings (snd (DeleteRule i d)) = settings d"
  by (auto simp: CreateRule_def UpdateRule_def DeleteRule_def Let_def stmt_def split: list.splits option.splits)

lemma events_frame [store_frame]:
  "sites (snd (InsertEvent e d)) = sites d" "sites_seq (snd (InsertEvent e d)) = sites_seq d"
  "rules (snd (InsertEvent e d)) = rules d" "rules_seq (snd (InsertEvent e d)) = rules_seq d"
  "settings (snd (InsertEvent e d)) = settings d"
  by (auto simp: InsertEvent_def Let_def stmt_def split: list.splits option.splits)

lemma settings_frame [store_frame]:
  "sites (snd (SetSetting k x d)) = sites d" "sites_seq (snd (SetSetting k x d)) = sites_seq d"
  "rules (snd (SetSetting k x d)) = rules d" "rules_seq (snd (SetSetting k x d)) = rules_seq d"
  "events (snd (SetSetting k x d)) = events d" "events_seq (snd (SetSetting k x d)) = events_seq d"
  by (auto simp: SetSetting_def stmt_def split: list.splits option.splits)

text \<open>A query changes nothing but the errors to come.\<close>

definition same_data :: "db \<Rightarrow> db \<Rightarrow> bool" where
  "same_data d d' \<longleftrightarrow> d'\<lparr>faults := []\<rparr> = d\<lparr>faults := []\<rparr>"

lemma same_dataD:
  assumes "same_data d d'"
  shows "sites d' = sites d" "sites_seq d' = sites_seq d" "rules d' = rules d" "rules_seq d' = rules_seq d"
    "events d' = events d" "events_seq d' = events_seq d" "settings d' = settings d"
  using assms by (cases d; cases d'; simp add: same_data_def)+

lemma same_data_refl [simp, intro]: "same_data d d"
  by (simp add: same_data_def)

lemma same_data_faults [simp]: "same_data d (d\<lparr>faults := fs\<rparr>)"
  by (simp add: same_data_def)

lemma same_data_trans [trans]: "same_data a b \<Longrightarrow> same_data b c \<Longrightarrow> same_data a c"
  by (simp add: same_data_def)

lemma stmt_query: "(\<And>d. snd (f d) = d) \<Longrightarrow> same_data d (snd (stmt f d))"
  by (auto simp: stmt_def split: list.splits option.splits)

lemma queries_same_data [store_frame]:
  "same_data d (snd (GetSetting k d))" "same_data d (snd (ListSites d))" "same_data d (snd (GetSite i d))"
  "same_data d (snd (ListRules d))" "same_data d (snd (EnabledRuleDirectives d))"
  "same_data d (snd (GetRule i d))" "same_data d (snd (ListEvents v f d))"
  by (simp_all add: store_defs ListEvents_def stmt_query)

lemma scan_rows_facts:
  assumes "scan_rows got rows d = (rows', d')"
  shows "\<exists>n. rows' = take n rows" and "same_data d d'" and "faults d = [] \<Longrightarrow> rows' = rows \<and> d' = d"
  using assms by (auto simp: scan_rows_def split: list.splits option.splits intro: exI [of _ "length rows"])

lemma stats_queries_same_data:
  "same_data d (snd (stats_totals x d))" "same_data d (snd (stats_rules u x d))"
  "same_data d (snd (stats_clients u x d))" "same_data d (snd (stats_timeline x d))"
  by (simp_all add: stats_totals_def stats_rules_def stats_clients_def stats_timeline_def stmt_query)

lemma Stats_same_data [store_frame]: "same_data d (snd (Stats got v w (\<lambda>_ d. d) s t d))"
  unfolding Stats_def Let_def
  by (auto split: prod.splits sum.splits)
    (metis stats_queries_same_data scan_rows_facts(2) snd_conv same_data_trans)+

lemma db_ok_same_data: "same_data d d' \<Longrightarrow> db_ok d' = db_ok d"
  by (simp add: db_ok_def same_dataD)

section \<open>Every statement keeps the invariant\<close>

lemma CreateSite_domains:
  assumes "distinct (map site_Domain (sites d))" and "CreateSite st t d = (r, d')"
  shows "distinct (map site_Domain (sites d'))"
  using assms(2)
  by (auto simp: CreateSite_def Let_def assms(1) elim!: stmt_cases split: if_splits) (use assms(1) in auto)

lemma distinct_map_replace:
  assumes "distinct (map k xs)" and "distinct (map i xs)"
    and "\<And>y. y \<in> set xs \<Longrightarrow> i y \<noteq> j \<Longrightarrow> k y \<noteq> key"
    and "\<And>y. k (f y) = key"
  shows "distinct (map k (map (\<lambda>y. if i y = j then f y else y) xs))"
  using assms(1-3)
proof (induction xs)
  case (Cons a xs)
  let ?g = "\<lambda>y. if i y = j then f y else y"
  have "k (?g a) \<noteq> k (?g y)" if "y \<in> set xs" for y
  proof (cases "i a = j")
    case True
    with Cons.prems(2) that have "i y \<noteq> j" by (metis distinct.simps(2) image_eqI list.simps(9) set_map)
    with True that Cons.prems(3) [of y] assms(4) show ?thesis by simp
  next
    case False
    with that Cons.prems(1) Cons.prems(3) [of a] assms(4) show ?thesis by auto
  qed
  then have "k (?g a) \<notin> set (map k (map ?g xs))" unfolding set_map by blast
  moreover have "distinct (map k (map ?g xs))" using Cons by simp
  ultimately show ?case by simp
qed simp

lemma UpdateSite_domains:
  assumes "db_ok d" and "UpdateSite st t d = (r, d')"
  shows "distinct (map site_Domain (sites d'))"
  using assms(2) unfolding UpdateSite_def
proof (cases rule: stmt_cases)
  case (fault m fs)
  with assms(1) show ?thesis by (simp add: db_ok_def)
next
  case (run fs)
  show ?thesis
  proof (cases "r")
    case (Inl e)
    with run assms(1) show ?thesis by (auto simp: db_ok_def split: if_splits)
  next
    case (Inr s)
    let ?f = "\<lambda>r. if site_ID r = site_ID st then set_site st t r else r"
    from run Inr have sites: "sites d' = map ?f (sites d)"
      and clash: "(\<exists>r \<in> set (sites d). site_ID r = site_ID st) \<longrightarrow>
        (\<forall>r \<in> set (sites d). site_ID r \<noteq> site_ID st \<longrightarrow> site_Domain r \<noteq> site_Domain st)"
      by (auto split: if_splits)
    show ?thesis
    proof (cases "\<exists>r \<in> set (sites d). site_ID r = site_ID st")
      case True
      with clash assms(1) show ?thesis unfolding sites
        by (intro distinct_map_replace [where key = "site_Domain st"])
           (auto simp: db_ok_def ids_ok_def set_site_def)
    next
      case False
      then have "map ?f (sites d) = sites d" by (auto intro: map_idI)
      with assms(1) sites show ?thesis by (simp add: db_ok_def)
    qed
  qed
qed

lemma db_ok_empty: "db_ok empty_db"
  by (simp add: db_ok_def empty_db_def ids_ok_def)

lemma CreateSite_db_ok: "db_ok d \<Longrightarrow> db_ok (snd (CreateSite st t d))"
  using sites_table.ins_ids_ok [of d st t] CreateSite_domains [of d st t] sites_frame(1-4) [of st t d]
  by (cases "CreateSite st t d") (simp add: db_ok_def)

lemma UpdateSite_db_ok: "db_ok d \<Longrightarrow> db_ok (snd (UpdateSite st t d))"
  using sites_table.upd_ids_ok [of d st t] UpdateSite_domains [of d st t] sites_frame(6-9) [of st t d]
  by (cases "UpdateSite st t d") (simp add: db_ok_def)

lemma DeleteSite_db_ok: "db_ok d \<Longrightarrow> db_ok (snd (DeleteSite i d))"
  using sites_table.del_ids_ok [of d i] sites_frame(11-14) [of i d]
  by (cases "DeleteSite i d") (auto simp: db_ok_def DeleteSite_def elim!: stmt_cases)

lemma CreateRule_db_ok: "db_ok d \<Longrightarrow> db_ok (snd (CreateRule r t d))"
  using rules_table.ins_ids_ok [of d r t] rules_frame(1-4) [of r t d]
  by (cases "CreateRule r t d") (simp add: db_ok_def)

lemma UpdateRule_db_ok: "db_ok d \<Longrightarrow> db_ok (snd (UpdateRule r t d))"
  using rules_table.upd_ids_ok [of d r t] rules_frame(6-9) [of r t d]
  by (cases "UpdateRule r t d") (simp add: db_ok_def)

lemma DeleteRule_db_ok: "db_ok d \<Longrightarrow> db_ok (snd (DeleteRule i d))"
  using rules_table.del_ids_ok [of d i] rules_frame(11-14) [of i d]
  by (cases "DeleteRule i d") (simp add: db_ok_def)

lemma InsertEvent_db_ok: "db_ok d \<Longrightarrow> db_ok (snd (InsertEvent e d))"
  using events_table.ins_ids_ok [of d e] events_frame(1-4) [of e d]
  by (cases "InsertEvent e d") (simp add: db_ok_def)

lemma SetSetting_db_ok: "db_ok d \<Longrightarrow> db_ok (snd (SetSetting k x d))"
  using settings_frame [of k x d] by (simp add: db_ok_def)

lemmas store_db_ok =
  CreateSite_db_ok UpdateSite_db_ok DeleteSite_db_ok CreateRule_db_ok UpdateRule_db_ok DeleteRule_db_ok
  InsertEvent_db_ok SetSetting_db_ok

section \<open>The event log\<close>

text \<open>A stored event reads back as it was inserted, with the id it got: the matched rules survive
  their JSON text.\<close>

lemma scan_inserted:
  assumes "\<forall>x \<in> set (ev_MatchedRules e). min_int64 \<le> x \<and> x \<le> max_int64"
    and "InsertEvent e d = (Inr e', d')"
  shows "map scan_event (events d') = map scan_event (events d) @ [e']"
  using assms(2) Unmarshal_Marshal_ints [OF assms(1)]
  by (auto simp: InsertEvent_def Let_def scan_event_def elim!: stmt_cases split: if_splits)

lemma event_limit_bound: "event_limit f \<le> 1000"
  by (auto simp: event_limit_def nat_le_iff)

definition event_order :: "(event_row list \<Rightarrow> event_row list) \<Rightarrow> event_filter \<Rightarrow> db \<Rightarrow> event list" where
  "event_order v f d = map scan_event (sort_desc (\<lambda>r. ev_Timestamp (er_event r)) (v (filter (event_where f) (events d))))"

lemma ListEvents_slice:
  "faults d = [] \<Longrightarrow> ListEvents v f d =
     (Inr (take (event_limit f) (drop (nat (f_Offset f)) (event_order v f d))), d)"
  by (simp add: ListEvents_def event_order_def take_map drop_map)

lemma scan_event_keeps [simp]:
  "ev_Timestamp (scan_event r) = ev_Timestamp (er_event r)" "ev_Domain (scan_event r) = ev_Domain (er_event r)"
  "ev_Blocked (scan_event r) = ev_Blocked (er_event r)" "ev_ID (scan_event r) = ev_ID (er_event r)"
  by (simp_all add: scan_event_def)

lemma event_order_sorted: "sorted_wrt (\<lambda>a b. ev_Timestamp b \<le> ev_Timestamp a) (event_order v f d)"
  unfolding event_order_def sorted_wrt_map
  using sorted_sort_desc [of "\<lambda>r. ev_Timestamp (er_event r)" "v (filter (event_where f) (events d))"]
  by simp

lemma event_order_mset:
  assumes "visits v"
  shows "mset (event_order v f d) = mset (map scan_event (filter (event_where f) (events d)))"
  using visits_mset [OF assms, of "filter (event_where f) (events d)"] by (simp add: event_order_def)

lemma concat_pages: "concat (map (\<lambda>i. take L (drop (i * L) xs)) [0..<n]) = take (n * L) xs"
  by (induction n) (simp_all add: take_add [symmetric] add.commute)

section \<open>Aggregates\<close>

lemma map_fst_groups [simp]: "map fst (groups k rs) = remdups (map k rs)"
  by (simp add: groups_def comp_def)

lemma in_groups: "(x, g) \<in> set (groups k rs) \<longleftrightarrow> x \<in> k ` set rs \<and> g = filter (\<lambda>r. k r = x) rs"
  by (auto simp: groups_def)

lemma sum_remdups_partition:
  "sum_list (map (\<lambda>x. length (filter (\<lambda>r. k r = x) (filter P rs))) (remdups (map k rs))) = length (filter P rs)"
proof -
  have "sum_list (map (\<lambda>x. length (filter (\<lambda>r. k r = x) (filter P rs))) (remdups (map k rs))) =
        (\<Sum>x \<in> k ` set rs. length (filter (\<lambda>r. k r = x) (filter P rs)))"
    by (simp add: sum_list_distinct_conv_sum_set)
  also have "\<dots> = length (filter P rs)"
  proof -
    have "(\<Sum>x \<in> K. length (filter (\<lambda>r. k r = x) qs)) = length qs"
      if "finite K" and "k ` set qs \<subseteq> K" for K qs
      using that
    proof (induction qs)
      case (Cons q qs)
      have "(\<Sum>x \<in> K. length (filter (\<lambda>r. k r = x) (q # qs))) =
            (\<Sum>x \<in> K. (if k q = x then 1 else 0) + length (filter (\<lambda>r. k r = x) qs))"
        by (rule sum.cong) auto
      with Cons show ?case by (simp add: sum.distrib)
    qed simp
    then show ?thesis by (rule) auto
  qed
  finally show ?thesis .
qed

lemma sum_groups_length: "sum_list (map (\<lambda>(x, g). length g) (groups k rs)) = length rs"
  using sum_remdups_partition [of k "\<lambda>_. True" rs] by (simp add: groups_def comp_def)

lemma sum_groups_blocked: "sum_list (map (\<lambda>(x, g). count_blocked g) (groups k rs)) = count_blocked rs"
proof -
  have "filter (\<lambda>r. ev_Blocked (er_event r)) (filter (\<lambda>r. k r = x) rs) =
        filter (\<lambda>r. k r = x) (filter (\<lambda>r. ev_Blocked (er_event r)) rs)" for x
    by (induction rs) auto
  then show ?thesis
    using sum_remdups_partition [of k "\<lambda>r. ev_Blocked (er_event r)" rs]
    by (simp add: groups_def comp_def count_blocked_def)
qed

text \<open>The \<open>n\<close> largest groups, the shape of both top lists.\<close>

definition top_groups :: "nat \<Rightarrow> ('a \<Rightarrow> 'k) \<Rightarrow> 'a list \<Rightarrow> ('k \<times> 'a list) list" where
  "top_groups n k rs = take n (sort_desc (\<lambda>(x, g). length g) (groups k rs))"

lemma insort_key_map: "insort_key f (g x) (map g xs) = map g (insort_key (\<lambda>a. f (g a)) x xs)"
  by (induction xs) auto

lemma sort_key_map: "sort_key f (map g xs) = map g (sort_key (\<lambda>a. f (g a)) xs)"
  by (induction xs) (simp_all add: insort_key_map)

lemma sort_desc_map: "sort_desc f (map g xs) = map g (sort_desc (\<lambda>a. f (g a)) xs)"
  unfolding sort_desc_def rev_map sort_key_map ..

lemma take_sort_desc_groups:
  assumes "\<And>x g. c (mk (x, g)) = length g"
  shows "take n (sort_desc c (map mk (groups k rs))) = map mk (top_groups n k rs)"
proof -
  have "(\<lambda>a. c (mk a)) = (\<lambda>(x, g). length g)" using assms by auto
  then show ?thesis by (simp add: top_groups_def sort_desc_map take_map)
qed

lemma top_groups_shape:
  "length (top_groups n k rs) \<le> n" "distinct (map fst (top_groups n k rs))"
  "sorted_wrt (\<lambda>p q. length (snd q) \<le> length (snd p)) (top_groups n k rs)"
proof -
  have "mset (map fst (sort_desc (\<lambda>(x, g). length g) (groups k rs))) = mset (map fst (groups k rs))"
    by (simp del: map_fst_groups)
  then have "distinct (map fst (sort_desc (\<lambda>(x, g). length g) (groups k rs)))"
    by (metis distinct_remdups map_fst_groups mset_eq_imp_distinct_iff)
  then show "distinct (map fst (top_groups n k rs))"
    by (simp add: top_groups_def take_map [symmetric])
  show "sorted_wrt (\<lambda>p q. length (snd q) \<le> length (snd p)) (top_groups n k rs)"
    using sorted_wrt_take [OF sorted_sort_desc [of "\<lambda>(x, g). length g" "groups k rs"], of n]
    by (simp add: top_groups_def case_prod_beta)
qed (simp add: top_groups_def)

lemma top_groups_member:
  "(x, g) \<in> set (top_groups n k rs) \<Longrightarrow> x \<in> k ` set rs \<and> g = filter (\<lambda>r. k r = x) rs \<and> g \<noteq> []"
proof -
  assume "(x, g) \<in> set (top_groups n k rs)"
  then have "(x, g) \<in> set (groups k rs)" by (auto simp: top_groups_def dest: in_set_takeD)
  then have x: "x \<in> k ` set rs" and g: "g = filter (\<lambda>r. k r = x) rs" by (auto simp: in_groups)
  from x have "filter (\<lambda>r. k r = x) rs \<noteq> []" by (force simp: filter_empty_conv)
  with x g show ?thesis by simp
qed

lemma top_groups_all:
  assumes "length (top_groups n k rs) < n" and "x \<notin> fst ` set (top_groups n k rs)"
  shows "filter (\<lambda>r. k r = x) rs = []"
proof -
  have "set (top_groups n k rs) = set (groups k rs)" using assms(1) by (simp add: top_groups_def min_def split: if_splits)
  then have "x \<notin> set (map fst (groups k rs))" using assms(2) by (simp del: map_fst_groups)
  then show ?thesis by (auto simp: filter_empty_conv)
qed

lemma top_groups_rest:
  assumes "x \<notin> fst ` set (top_groups n k rs)" and "(y, g) \<in> set (top_groups n k rs)"
  shows "length (filter (\<lambda>r. k r = x) rs) \<le> length g"
proof (cases "x \<in> k ` set rs")
  case True
  let ?full = "sort_desc (\<lambda>(x, g). length g) (groups k rs)"
  let ?m = "(x, filter (\<lambda>r. k r = x) rs)"
  have split: "sorted_wrt (\<lambda>p q. length (snd q) \<le> length (snd p)) (take n ?full @ drop n ?full)"
    using sorted_sort_desc [of "\<lambda>(x, g). length g" "groups k rs"]
    by (simp only: append_take_drop_id case_prod_beta)
  from True have "?m \<in> set ?full" by (simp add: in_groups)
  moreover have "?m \<notin> set (take n ?full)" using assms(1) by (force simp: top_groups_def)
  ultimately have "?m \<in> set (drop n ?full)" by (metis UnE append_take_drop_id set_append)
  with split assms(2) show ?thesis unfolding sorted_wrt_append top_groups_def by fastforce
next
  case False
  then have "filter (\<lambda>r. k r = x) rs = []" by (auto simp: filter_empty_conv)
  then show ?thesis by simp
qed

text \<open>Without pending errors, and when nobody else runs into one, no query and no loop fails.\<close>

definition no_faults :: "(nat \<Rightarrow> db \<Rightarrow> db) \<Rightarrow> db \<Rightarrow> bool" where
  "no_faults meanwhile d \<longleftrightarrow> faults d = [] \<and> (\<forall>i x. faults x = [] \<longrightarrow> faults (meanwhile i x) = [])"

lemma query_no_faults:
  assumes "faults d = []"
  shows "faults (snd (stats_totals x d)) = []" "faults (snd (stats_rules v x d)) = []"
    "faults (snd (stats_clients v x d)) = []" "faults (snd (stats_timeline x d)) = []"
  using assms by (simp_all add: stats_totals_def stats_rules_def stats_clients_def stats_timeline_def)

text \<open>A successful call of \<open>Stats\<close>, query by query.\<close>

lemma Stats_steps:
  assumes "Stats got v w meanwhile since now d = (Inr st, d')"
  obtains trs tcs tml d1 d2 d3 d4 d5 d6 where
    "stats_totals (now + neg_duration since) d = (Inr (TotalEvents st, BlockedEvents st), d1)"
    "stats_rules v (now + neg_duration since) (meanwhile 0 d1) = (Inr trs, d2)" "scan_rows got trs d2 = (TopRules st, d3)"
    "stats_clients w (now + neg_duration since) (meanwhile 1 d3) = (Inr tcs, d4)" "scan_rows got tcs d4 = (TopClients st, d5)"
    "stats_timeline (now + neg_duration since) (meanwhile 2 d5) = (Inr tml, d6)" "scan_rows got tml d6 = (Timeline st, d')"
    "no_faults meanwhile d \<Longrightarrow> TopRules st = trs" "no_faults meanwhile d \<Longrightarrow> Timeline st = tml"
proof -
  let ?from = "now + neg_duration since"
  from assms obtain trs tcs tml d1 d2 d3 d4 d5 d6 where
    s: "stats_totals ?from d = (Inr (TotalEvents st, BlockedEvents st), d1)"
      "stats_rules v ?from (meanwhile 0 d1) = (Inr trs, d2)" "scan_rows got trs d2 = (TopRules st, d3)"
      "stats_clients w ?from (meanwhile 1 d3) = (Inr tcs, d4)" "scan_rows got tcs d4 = (TopClients st, d5)"
      "stats_timeline ?from (meanwhile 2 d5) = (Inr tml, d6)" "scan_rows got tml d6 = (Timeline st, d')"
    by (auto simp: Stats_def Let_def split: prod.splits sum.splits)
  have "TopRules st = trs \<and> Timeline st = tml" if "no_faults meanwhile d"
  proof -
    from that have m: "faults x = [] \<Longrightarrow> faults (meanwhile i x) = []" and "faults d = []" for i x by (simp_all add: no_faults_def)
    then have f1: "faults d1 = []" using query_no_faults(1) [of d ?from] s(1) by simp
    then have "faults d2 = []" using query_no_faults(2) [OF m [OF f1, of 0], of v ?from] s(2) by simp
    then have trs: "TopRules st = trs" and f3: "faults d3 = []" using scan_rows_facts(3) [OF s(3)] by simp_all
    then have "faults d4 = []" using query_no_faults(3) [OF m [OF f3, of 1], of w ?from] s(4) by simp
    then have f5: "faults d5 = []" using scan_rows_facts(3) [OF s(5)] by simp
    then have "faults d6 = []" using query_no_faults(4) [OF m [OF f5, of 2], of ?from] s(6) by simp
    then show ?thesis using trs scan_rows_facts(3) [OF s(7)] by simp
  qed
  with s that show thesis by blast
qed

text \<open>What a query that ran returns, in terms of the rows of the window.\<close>

lemma stats_query_results:
  "stats_totals x d = (Inr (n, b), d1) \<Longrightarrow> n = length (since_rows x d) \<and> b = count_blocked (since_rows x d)"
  "stats_rules v x d = (Inr trs, d1) \<Longrightarrow> trs = take 10 (sort_desc rc_Count
     (map (\<lambda>(i, rs). \<lparr>rc_RuleID = i, rc_Message = ev_Message (er_event (hd rs)), rc_Count = length rs\<rparr>)
       (groups (\<lambda>r. ev_RuleID (er_event r)) (v (filter (\<lambda>r. ev_RuleID (er_event r) \<noteq> 0) (since_rows x d))))))"
  "stats_timeline x d = (Inr tml, d1) \<Longrightarrow> tml = sort_key tp_Bucket
     (map (\<lambda>(b, rs). \<lparr>tp_Bucket = b, tp_Total = length rs, tp_Blocked = count_blocked rs\<rparr>)
       (groups (\<lambda>r. hour_bucket (ev_Timestamp (er_event r))) (since_rows x d)))"
  by (auto simp: stats_totals_def stats_rules_def stats_timeline_def since_rows_def elim!: stmt_cases)

lemma sum_list_sort_key: "sum_list (map f (sort_key k xs)) = sum_list (map f xs)" for f :: "'a \<Rightarrow> nat"
proof -
  have "sum_mset (mset (map f (sort_key k xs))) = sum_mset (mset (map f xs))" by simp
  then show ?thesis by (simp only: sum_mset_sum_list)
qed

section \<open>Sequences of statements\<close>

text \<open>The statements that change a row, as data, so that a history of the database is a list.\<close>

datatype store_call =
  CallSetSetting string string | CallCreateSite site go_time | CallUpdateSite site go_time
| CallDeleteSite int | CallCreateRule custom_rule go_time | CallUpdateRule custom_rule go_time
| CallDeleteRule int | CallInsertEvent event

fun run_call :: "store_call \<Rightarrow> db \<Rightarrow> db" where
  "run_call (CallSetSetting k x) d = snd (SetSetting k x d)"
| "run_call (CallCreateSite st t) d = snd (CreateSite st t d)"
| "run_call (CallUpdateSite st t) d = snd (UpdateSite st t d)"
| "run_call (CallDeleteSite i) d = snd (DeleteSite i d)"
| "run_call (CallCreateRule r t) d = snd (CreateRule r t d)"
| "run_call (CallUpdateRule r t) d = snd (UpdateRule r t d)"
| "run_call (CallDeleteRule i) d = snd (DeleteRule i d)"
| "run_call (CallInsertEvent e) d = snd (InsertEvent e d)"

lemma run_call_db_ok: "db_ok d \<Longrightarrow> db_ok (run_call c d)"
  by (cases c) (simp_all add: store_db_ok)

lemma fold_run_call_db_ok: "db_ok d \<Longrightarrow> db_ok (fold run_call cs d)"
  by (induction cs arbitrary: d) (auto simp: run_call_db_ok)

section \<open>Properties of the store\<close>

text \<open>C21: Whatever sequence of statements runs on a new database, and whichever of them the driver
  fails, the ids of every table stay distinct, in insertion order, positive and at most the table's
  counter, the counters stay in the 64-bit range, and no two sites share a domain.\<close>

theorem store_history_invariant:
  "db_ok (fold run_call cs (empty_db\<lparr>faults := fs\<rparr>))"
  by (rule fold_run_call_db_ok) (simp add: db_ok_def empty_db_def ids_ok_def)

text \<open>An inserted event reads back from the table exactly as it was submitted, with the id the
  database gave it, and the events already there read back unchanged: the JSON text of the matched
  rules is decoded to the list it was made from.\<close>

lemma InsertEvent_roundtrip:
  assumes "\<forall>x \<in> set (ev_MatchedRules e). min_int64 \<le> x \<and> x \<le> max_int64"
    and "InsertEvent e d = (Inr e', d')"
  shows "map scan_event (events d') = map scan_event (events d) @ [e\<lparr>ev_ID := events_seq d + 1\<rparr>]"
proof -
  from assms(2) have "e' = e\<lparr>ev_ID := events_seq d + 1\<rparr>"
    by (auto simp: InsertEvent_def Let_def elim!: stmt_cases split: if_splits)
  with scan_inserted [OF assms] show ?thesis by simp
qed

definition sample_event :: event where
  "sample_event = \<lparr>ev_ID = 0, ev_Timestamp = 1000, ev_TxID = ''tx1'', ev_Domain = ''example.com'',
     ev_ClientIP = ''10.0.0.1'', ev_Method = ''GET'', ev_URI = ''/?q=1'', ev_Blocked = True,
     ev_StatusCode = 403, ev_RuleID = 942100, ev_Message = ''SQLi'', ev_Severity = 2,
     ev_AnomalyScore = 5, ev_MatchedRules = [942100, 942190]\<rparr>"

definition db_one_event :: db where
  "db_one_event = snd (InsertEvent sample_event empty_db)"

lemma InsertEvent_empty: "InsertEvent sample_event empty_db = (Inr (sample_event\<lparr>ev_ID := 1\<rparr>), db_one_event)"
  by (simp add: db_one_event_def InsertEvent_def empty_db_def Let_def)

lemma InsertEvent_roundtrip_witness:
  "map scan_event (events db_one_event) = [sample_event\<lparr>ev_ID := 1\<rparr>]"
  using InsertEvent_roundtrip [OF _ InsertEvent_empty] by (simp add: sample_event_def empty_db_def)

text \<open>When no two of the listed events have the same timestamp, the order of the log does not depend on how the
  database breaks ties.\<close>

lemma event_order_unique:
  assumes "visits v" and "visits w" and "distinct (map (\<lambda>r. ev_Timestamp (er_event r)) (filter (event_where f) (events d)))"
  shows "event_order v f d = event_order w f d"
proof -
  let ?k = "\<lambda>r. ev_Timestamp (er_event r)" and ?rs = "filter (event_where f) (events d)"
  have "sort_key ?k (rev (v ?rs)) = sort_key ?k (rev (w ?rs))"
  proof (rule sort_key_inj_key_eq)
    show "mset (rev (v ?rs)) = mset (sort_key ?k (rev (w ?rs)))"
      using visits_mset [OF assms(1), of ?rs] visits_mset [OF assms(2), of ?rs] by simp
    show "inj_on ?k (set (rev (v ?rs)))"
      using assms(3) visits_set [OF assms(1), of ?rs] by (simp add: distinct_map)
  qed simp
  then show ?thesis by (simp add: event_order_def sort_desc_def)
qed

text \<open>C23: Paging through the event log of a fixed database, without driver failures, with a page size L of 1 to
  1000: every page has at most L events, and when no two of the events that match the filter have the
  same timestamp, the pages at offsets 0, L, 2L, ... put together are exactly these events, newest
  first, none skipped and none shown twice, however the database orders ties in each of the queries.\<close>

theorem ListEvents_pages:
  assumes "\<And>i. visits (v i)" and "faults d = []" and "1 \<le> f_Limit f" and "f_Limit f \<le> 1000"
    and "distinct (map (\<lambda>r. ev_Timestamp (er_event r)) (filter (event_where f) (events d)))"
    and "length (filter (event_where f) (events d)) \<le> n * nat (f_Limit f)"
  shows "\<exists>page. (\<forall>i. ListEvents (v i) (f\<lparr>f_Offset := int (i * nat (f_Limit f))\<rparr>) d = (Inr (page i), d)) \<and>
    (\<forall>i. length (page i) \<le> nat (f_Limit f)) \<and>
    sorted_wrt (\<lambda>a b. ev_Timestamp b < ev_Timestamp a) (concat (map page [0..<n])) \<and>
    mset (concat (map page [0..<n])) = mset (map scan_event (filter (event_where f) (events d)))"
proof -
  define L where "L = nat (f_Limit f)"
  define ord where "ord = event_order (v 0) f d"
  define page where "page i = take L (drop (i * L) ord)" for i
  have lim: "event_limit (f\<lparr>f_Offset := j\<rparr>) = L" for j
    using assms(3,4) by (simp add: event_limit_def L_def)
  have "event_order (v i) (f\<lparr>f_Offset := j\<rparr>) d = ord" for i j
    using event_order_unique [OF assms(1) assms(1) assms(5), of i 0]
    by (simp add: ord_def event_order_def event_where_def [abs_def])
  then have list: "ListEvents (v i) (f\<lparr>f_Offset := int (i * L)\<rparr>) d = (Inr (page i), d)" for i
    using assms(2) by (simp add: ListEvents_slice lim page_def del: of_nat_mult)
  have m: "mset ord = mset (map scan_event (filter (event_where f) (events d)))"
    unfolding ord_def by (rule event_order_mset [OF assms(1)])
  then have "length ord \<le> n * L" using assms(6) by (metis L_def length_map size_mset)
  then have all: "concat (map page [0..<n]) = ord" by (simp add: page_def [abs_def] concat_pages)
  have "mset (map ev_Timestamp ord) = mset (map (\<lambda>r. ev_Timestamp (er_event r)) (filter (event_where f) (events d)))"
    using arg_cong [OF m, of "image_mset ev_Timestamp"] by (simp add: multiset.map_comp comp_def)
  then have "distinct (map ev_Timestamp ord)" using assms(5) by (metis mset_eq_imp_distinct_iff)
  moreover have "sorted_wrt (\<lambda>a b. ev_Timestamp b \<le> ev_Timestamp a) ord" unfolding ord_def by (rule event_order_sorted)
  ultimately have "sorted_wrt (\<lambda>a b. ev_Timestamp b < ev_Timestamp a) ord"
    by (induction ord) (auto simp: less_le image_iff)
  with list m all show ?thesis
    unfolding L_def [symmetric] by (intro exI [of _ page]) (simp add: page_def)
qed

theorem ListEvents_pages_witness:
  "\<exists>page. ListEvents rev \<lparr>f_Domain = [], f_BlockedOnly = True, f_Limit = 2, f_Offset = 0\<rparr> db_one_event =
      (Inr (page 0), db_one_event) \<and>
    mset (concat (map page [0..<1])) =
      mset (map scan_event (filter (event_where \<lparr>f_Domain = [], f_BlockedOnly = True, f_Limit = 2, f_Offset = 7\<rparr>)
        (events db_one_event)))"
proof -
  let ?f = "\<lparr>f_Domain = [], f_BlockedOnly = True, f_Limit = 2, f_Offset = 7\<rparr>"
  have "\<exists>page. (\<forall>i. ListEvents rev (?f\<lparr>f_Offset := int (i * nat (f_Limit ?f))\<rparr>) db_one_event =
        (Inr (page i), db_one_event)) \<and>
    (\<forall>i. length (page i) \<le> nat (f_Limit ?f)) \<and>
    sorted_wrt (\<lambda>a b. ev_Timestamp b < ev_Timestamp a) (concat (map page [0..<1])) \<and>
    mset (concat (map page [0..<1])) = mset (map scan_event (filter (event_where ?f) (events db_one_event)))"
    by (rule ListEvents_pages) (simp_all add: db_one_event_def InsertEvent_def empty_db_def Let_def)
  then obtain page where p: "\<forall>i. ListEvents rev (?f\<lparr>f_Offset := int (i * nat (f_Limit ?f))\<rparr>) db_one_event =
        (Inr (page i), db_one_event)"
    and m: "mset (concat (map page [0..<1])) = mset (map scan_event (filter (event_where ?f) (events db_one_event)))"
    by blast
  from p [rule_format, of 0] have "ListEvents rev (?f\<lparr>f_Offset := 0\<rparr>) db_one_event = (Inr (page 0), db_one_event)"
    by simp
  with m show ?thesis by (intro exI [of _ page]) simp
qed

text \<open>With equal timestamps the statement is false: the query has no second sort key, so that the database may
  break the tie differently for each page, show one event twice and the other never.\<close>

definition db_tie :: db where
  "db_tie = snd (InsertEvent (sample_event\<lparr>ev_TxID := ''tx2''\<rparr>) db_one_event)"

lemma tied_events_can_be_skipped:
  "\<exists>e. fst (ListEvents rev \<lparr>f_Domain = [], f_BlockedOnly = False, f_Limit = 1, f_Offset = 0\<rparr> db_tie) = Inr [e] \<and>
     fst (ListEvents (\<lambda>rs. rs) \<lparr>f_Domain = [], f_BlockedOnly = False, f_Limit = 1, f_Offset = 1\<rparr> db_tie) = Inr [e] \<and>
     length (events db_tie) = 2"
  by (simp add: ListEvents_def event_limit_def event_where_def sort_desc_def db_tie_def db_one_event_def InsertEvent_def empty_db_def
      sample_event_def Let_def)

lemma hour_bucket_iff: "hour_bucket t = b \<longleftrightarrow> b mod hour = 0 \<and> b \<le> t \<and> t < b + hour"
proof
  assume "b mod hour = 0 \<and> b \<le> t \<and> t < b + hour"
  then obtain q where b: "b = hour * q" and "hour * q \<le> t" "t < hour * q + hour" by (metis mod_0_imp_dvd dvdE)
  then have "t div hour = q" by (intro int_div_pos_eq [of t hour q "t - hour * q"]) auto
  then show "hour_bucket t = b" by (simp add: hour_bucket_def b)
qed (auto simp: hour_bucket_def)

text \<open>The timeline of a list of rows: its buckets are in order, aligned and without repetition, each counts the
  rows and the blocked rows of its hour, and together they count all.\<close>

lemma timeline_spec:
  assumes "tml = sort_key tp_Bucket (map (\<lambda>(b, rs). \<lparr>tp_Bucket = b, tp_Total = length rs, tp_Blocked = count_blocked rs\<rparr>)
       (groups (\<lambda>r. hour_bucket (ev_Timestamp (er_event r))) rs))"
  shows "sorted (map tp_Bucket tml)" and "distinct (map tp_Bucket tml)"
    and "p \<in> set tml \<Longrightarrow> tp_Bucket p mod hour = 0 \<and>
      tp_Total p = length (filter (\<lambda>r. hour_bucket (ev_Timestamp (er_event r)) = tp_Bucket p) rs) \<and>
      tp_Blocked p = count_blocked (filter (\<lambda>r. hour_bucket (ev_Timestamp (er_event r)) = tp_Bucket p) rs)"
    and "sum_list (map tp_Total tml) = length rs" and "sum_list (map tp_Blocked tml) = count_blocked rs"
proof -
  define pt where "pt = (\<lambda>(b, g). \<lparr>tp_Bucket = b, tp_Total = length g, tp_Blocked = count_blocked g\<rparr>)"
  define gs where "gs = groups (\<lambda>r. hour_bucket (ev_Timestamp (er_event r))) rs"
  have tml: "tml = sort_key tp_Bucket (map pt gs)" using assms by (simp add: pt_def gs_def)
  have proj: "tp_Total (pt x) = (case x of (b, g) \<Rightarrow> length g)"
    "tp_Blocked (pt x) = (case x of (b, g) \<Rightarrow> count_blocked g)" "tp_Bucket (pt x) = fst x" for x
    by (simp_all add: pt_def split: prod.splits)
  show "sorted (map tp_Bucket tml)" by (simp add: tml)
  have "map tp_Bucket (map pt gs) = map fst gs" by (simp add: proj)
  then have "distinct (map tp_Bucket (map pt gs))" by (simp only: gs_def map_fst_groups) simp
  moreover have "mset (map tp_Bucket tml) = mset (map tp_Bucket (map pt gs))" by (simp add: tml multiset.map_comp)
  ultimately show "distinct (map tp_Bucket tml)" by (metis mset_eq_imp_distinct_iff)
  show "sum_list (map tp_Total tml) = length rs" "sum_list (map tp_Blocked tml) = count_blocked rs"
    using sum_groups_length [of "\<lambda>r. hour_bucket (ev_Timestamp (er_event r))" rs]
      sum_groups_blocked [of "\<lambda>r. hour_bucket (ev_Timestamp (er_event r))" rs]
    by (simp_all add: tml sum_list_sort_key comp_def proj gs_def)
  show "tp_Bucket p mod hour = 0 \<and>
      tp_Total p = length (filter (\<lambda>r. hour_bucket (ev_Timestamp (er_event r)) = tp_Bucket p) rs) \<and>
      tp_Blocked p = count_blocked (filter (\<lambda>r. hour_bucket (ev_Timestamp (er_event r)) = tp_Bucket p) rs)" if "p \<in> set tml"
    using that by (auto simp: tml gs_def proj in_groups) (simp add: hour_bucket_def)
qed

text \<open>C24: The dashboard's numbers are those of the log. Whenever Stats succeeds, whatever the driver and other
  goroutines do meanwhile, the totals are the number of events, and of blocked events, that the log has
  in the window at the first query; the hourly buckets are in order, aligned and without repetition, and
  each has the number of events and of blocked events of the window in its hour at the last query. When
  no driver error occurs, the buckets together account for all events of the window at the last query,
  so that they sum up to the totals unless events were logged in between.\<close>

theorem Stats_consistent:
  assumes "Stats got v w meanwhile since now d = (Inr st, d')"
  defines "window \<equiv> \<lambda>x. filter (\<lambda>e. now + neg_duration since \<le> ev_Timestamp e) (map er_event (events x))"
  shows "TotalEvents st = length (window d) \<and> BlockedEvents st = length (filter ev_Blocked (window d)) \<and>
    sorted (map tp_Bucket (Timeline st)) \<and> distinct (map tp_Bucket (Timeline st)) \<and>
    (\<forall>p \<in> set (Timeline st). tp_Bucket p mod hour = 0 \<and>
       tp_Total p = length (filter (\<lambda>e. tp_Bucket p \<le> ev_Timestamp e \<and> ev_Timestamp e < tp_Bucket p + hour) (window d')) \<and>
       tp_Blocked p = length (filter (\<lambda>e. ev_Blocked e \<and> tp_Bucket p \<le> ev_Timestamp e \<and> ev_Timestamp e < tp_Bucket p + hour) (window d'))) \<and>
    (no_faults meanwhile d \<longrightarrow> sum_list (map tp_Total (Timeline st)) = length (window d') \<and>
       sum_list (map tp_Blocked (Timeline st)) = length (filter ev_Blocked (window d')))"
proof (rule Stats_steps [OF assms(1)], goal_cases)
  case (1 trs tcs tml d1 d2 d3 d4 d5 d6)
  let ?from = "now + neg_duration since"
  have win: "window x = map er_event (since_rows ?from x)" for x
    by (simp add: window_def since_rows_def filter_map comp_def)
  have blocked: "length (filter ev_Blocked (window x)) = count_blocked (since_rows ?from x)" for x
    by (simp add: win count_blocked_def filter_map comp_def)
  have "events d' = events (meanwhile 2 d5)"
    using same_dataD(5) [OF stats_queries_same_data(4) [of "meanwhile 2 d5" ?from]] 1(6)
      same_dataD(5) [OF scan_rows_facts(2) [OF 1(7)]] by simp
  then have rows: "since_rows ?from d' = since_rows ?from (meanwhile 2 d5)" by (simp add: since_rows_def)
  note tml = timeline_spec [OF stats_query_results(3) [OF 1(6)], folded rows]
  obtain n where n: "Timeline st = take n tml" using scan_rows_facts(1) [OF 1(7)] by blast
  have "set (Timeline st) \<subseteq> set tml" by (simp add: n set_take_subset)
  moreover have "length (filter (\<lambda>e. tp_Bucket p \<le> ev_Timestamp e \<and> ev_Timestamp e < tp_Bucket p + hour) (window d')) = tp_Total p"
    "length (filter (\<lambda>e. ev_Blocked e \<and> tp_Bucket p \<le> ev_Timestamp e \<and> ev_Timestamp e < tp_Bucket p + hour) (window d')) = tp_Blocked p"
    if "p \<in> set tml" for p
    using tml(3) [OF that] by (simp_all add: win hour_bucket_iff count_blocked_def filter_map comp_def conj_commute)
  ultimately have "\<forall>p \<in> set (Timeline st). tp_Bucket p mod hour = 0 \<and>
       tp_Total p = length (filter (\<lambda>e. tp_Bucket p \<le> ev_Timestamp e \<and> ev_Timestamp e < tp_Bucket p + hour) (window d')) \<and>
       tp_Blocked p = length (filter (\<lambda>e. ev_Blocked e \<and> tp_Bucket p \<le> ev_Timestamp e \<and> ev_Timestamp e < tp_Bucket p + hour) (window d'))"
    using tml(3) by (simp add: subset_iff)
  moreover have "Timeline st = tml" if "no_faults meanwhile d" using 1(9) [OF that] by simp
  moreover have "sorted (map tp_Bucket (Timeline st))" "distinct (map tp_Bucket (Timeline st))"
    using tml(1,2) by (simp_all add: n sorted_wrt_take flip: take_map)
  ultimately show ?case
    using stats_query_results(1) [OF 1(1)] tml(4,5) blocked by (auto simp: win)
qed

definition stats_one_event :: stats where
  "stats_one_event = \<lparr>TotalEvents = 1, BlockedEvents = 1,
     TopRules = [\<lparr>rc_RuleID = 942100, rc_Message = ''SQLi'', rc_Count = 1\<rparr>],
     TopClients = [\<lparr>cc_ClientIP = ''10.0.0.1'', cc_Count = 1\<rparr>],
     Timeline = [\<lparr>tp_Bucket = 0, tp_Total = 1, tp_Blocked = 1\<rparr>]\<rparr>"

lemma Stats_one_event:
  "Stats (\<lambda>_. 0) rev rev (\<lambda>_ d. d) hour 2000 db_one_event = (Inr stats_one_event, db_one_event)"
  by (simp add: Stats_def Let_def stats_totals_def stats_rules_def stats_clients_def stats_timeline_def
      since_rows_def db_one_event_def InsertEvent_def empty_db_def neg_duration_def sample_event_def
      groups_def sort_desc_def count_blocked_def hour_bucket_def stats_one_event_def scan_rows_def)

lemma faults_db_one_event [simp]: "faults db_one_event = []"
  by (simp add: db_one_event_def InsertEvent_def empty_db_def Let_def)

theorem Stats_consistent_witness:
  "TotalEvents stats_one_event = 1 \<and> BlockedEvents stats_one_event = 1 \<and> sum_list (map tp_Total (Timeline stats_one_event)) = 1"
proof -
  have "no_faults (\<lambda>_ d. d) db_one_event" by (simp add: no_faults_def)
  with Stats_consistent [OF Stats_one_event] show ?thesis
    by (simp add: db_one_event_def InsertEvent_def empty_db_def sample_event_def neg_duration_def)
qed

text \<open>C25: The top rules of the dashboard are the rules with the most events. Whenever Stats succeeds, the list has
  at most ten entries, in descending order of their counts, each for a different rule id other than 0,
  with the exact number of events of that rule in the window at the time of the query and the message of
  one of them. When no driver error occurs, a rule that is left out has at most as many events as any
  that is listed, and the list is shorter than ten only when it is complete.\<close>

theorem Stats_top_rules:
  assumes "visits v" and "Stats got v w meanwhile since now d = (Inr st, d')"
    and "hits = (\<lambda>i. filter (\<lambda>e. ev_RuleID e = i \<and> now + neg_duration since \<le> ev_Timestamp e)
       (map er_event (events (meanwhile 0 (snd (stats_totals (now + neg_duration since) d))))))"
  shows "length (TopRules st) \<le> 10 \<and> distinct (map rc_RuleID (TopRules st)) \<and>
    sorted_wrt (\<lambda>a b. rc_Count b \<le> rc_Count a) (TopRules st) \<and>
    (\<forall>c \<in> set (TopRules st). rc_RuleID c \<noteq> 0 \<and> rc_Count c = length (hits (rc_RuleID c)) \<and>
       rc_Message c \<in> ev_Message ` set (hits (rc_RuleID c))) \<and>
    (no_faults meanwhile d \<longrightarrow> (\<forall>i. i \<noteq> 0 \<and> i \<notin> rc_RuleID ` set (TopRules st) \<longrightarrow>
       (\<forall>c \<in> set (TopRules st). length (hits i) \<le> rc_Count c) \<and> (length (TopRules st) < 10 \<longrightarrow> hits i = [])))"
proof (rule Stats_steps [OF assms(2)], goal_cases)
  case (1 trs tcs tml d1 d2 d3 d4 d5 d6)
  let ?k = "\<lambda>r. ev_RuleID (er_event r)" and ?from = "now + neg_duration since"
  define window where "window = since_rows ?from (meanwhile 0 d1)"
  define rs where "rs = v (filter (\<lambda>r. ?k r \<noteq> 0) window)"
  define mk where "mk = (\<lambda>(i, g :: event_row list).
    \<lparr>rc_RuleID = i, rc_Message = ev_Message (er_event (hd g)), rc_Count = length g\<rparr>)"
  define top where "top = top_groups 10 ?k rs"
  have trs: "trs = map mk top"
    using stats_query_results(2) [OF 1(2)] take_sort_desc_groups [of rc_Count mk 10 ?k rs]
    by (simp add: mk_def top_def rs_def window_def)
  obtain n where n: "TopRules st = map mk (take n top)" using scan_rows_facts(1) [OF 1(3)] by (auto simp: trs take_map)
  have proj: "rc_RuleID (mk p) = fst p" "rc_Count (mk p) = length (snd p)"
    "rc_Message (mk p) = ev_Message (er_event (hd (snd p)))" for p
    by (simp_all add: mk_def split: prod.splits)
  have hits_map: "hits i = map er_event (filter (\<lambda>r. ?k r = i) window)" for i
    using 1(1) by (simp add: assms(3) window_def since_rows_def filter_map comp_def conj_commute)
  have "mset rs = mset (filter (\<lambda>r. ?k r \<noteq> 0) window)"
    using visits_mset [OF assms(1)] by (simp add: rs_def)
  then have hits: "mset (filter (\<lambda>r. ?k r = i) rs) = mset (filter (\<lambda>r. ?k r = i) window)" if "i \<noteq> 0" for i
    using that by (simp add: filter_filter_mset) (metis (mono_tags, lifting) filter_mset_cong0)
  have rs_set: "set rs = {r \<in> set window. ?k r \<noteq> 0}"
    using visits_set [OF assms(1)] by (auto simp: rs_def)
  have entry: "fst p \<noteq> 0 \<and> length (snd p) = length (hits (fst p)) \<and> er_event (hd (snd p)) \<in> set (hits (fst p))"
    if "p \<in> set top" for p
  proof -
    from that top_groups_member [of "fst p" "snd p" 10 ?k rs]
    have p: "fst p \<in> ?k ` set rs" "snd p = filter (\<lambda>r. ?k r = fst p) rs" "snd p \<noteq> []"
      unfolding top_def prod.collapse by blast+
    from p(1) have nz: "fst p \<noteq> 0" by (auto simp: rs_set)
    from p(3) have "hd (snd p) \<in> set (snd p)" by (rule hd_in_set)
    with nz p(2) mset_eq_setD [OF hits [OF nz]] mset_eq_length [OF hits [OF nz]] show ?thesis by (auto simp: hits_map)
  qed
  have rest: "length (hits i) \<le> length (hits (fst p))" if "i \<noteq> 0" "i \<notin> fst ` set top" "p \<in> set top" for i p
    using top_groups_rest [of i 10 ?k rs "fst p" "snd p"] that mset_eq_length [OF hits [OF that(1)]] entry [OF that(3)]
    by (simp add: top_def hits_map)
  have none: "hits i = []" if "i \<noteq> 0" "i \<notin> fst ` set top" "length top < 10" for i
    using top_groups_all [of 10 ?k rs i] that hits [OF that(1)] by (simp add: top_def hits_map)
  have shape: "length (take n top) \<le> 10" "distinct (map fst (take n top))"
      "sorted_wrt (\<lambda>p q. length (snd q) \<le> length (snd p)) (take n top)"
    using top_groups_shape [of 10 ?k rs] by (simp_all add: top_def sorted_wrt_take min.coboundedI2 flip: take_map)
  have "p \<in> set top" if "p \<in> set (take n top)" for p using that by (rule in_set_takeD)
  with shape entry have "length (TopRules st) \<le> 10 \<and> distinct (map rc_RuleID (TopRules st)) \<and>
    sorted_wrt (\<lambda>a b. rc_Count b \<le> rc_Count a) (TopRules st) \<and>
    (\<forall>c \<in> set (TopRules st). rc_RuleID c \<noteq> 0 \<and> rc_Count c = length (hits (rc_RuleID c)) \<and>
       rc_Message c \<in> ev_Message ` set (hits (rc_RuleID c)))"
    by (simp add: n proj sorted_wrt_map comp_def)
  moreover have "TopRules st = map mk top" if "no_faults meanwhile d" using 1(8) [OF that] trs by simp
  ultimately show ?case using rest none by (auto simp: proj image_image)
qed

theorem Stats_top_rules_witness:
  "rc_Count (hd (TopRules stats_one_event)) =
     length (filter (\<lambda>e. ev_RuleID e = 942100 \<and> 2000 - hour \<le> ev_Timestamp e) (map er_event (events db_one_event)))"
proof -
  have "events (snd (stats_totals (2000 + neg_duration hour) db_one_event)) = events db_one_event"
    by (simp add: stats_totals_def)
  with Stats_top_rules [OF visits_rev Stats_one_event refl] show ?thesis
    by (simp add: stats_one_event_def neg_duration_def)
qed

text \<open>An error while the rows are read is not noticed: the call succeeds with a part of the list.\<close>

lemma Stats_hides_row_errors:
  "\<exists>st. fst (Stats (\<lambda>_. 0) rev rev (\<lambda>_ d. d) hour 2000 (db_one_event\<lparr>faults := [None, None, None, None, None, None, Some ''disk'']\<rparr>)) = Inr st \<and>
     TotalEvents st = 1 \<and> Timeline st = []"
  by (simp add: Stats_def Let_def stats_totals_def stats_rules_def stats_clients_def stats_timeline_def stmt_def scan_rows_def
      since_rows_def db_one_event_def InsertEvent_def empty_db_def neg_duration_def sample_event_def)

end
