(* ===== verification/Store_Open.thy ===== *)
theory Store_Open
  imports Store_Queries
begin

text \<open>
  Opening and closing the database (\<open>Open\<close>, \<open>migrate\<close> and \<open>Close\<close> of \<^verbatim>\<open>internal/store/store.go\<close>). A database
  file may have any of the four tables; the schema text is executed statement by statement, each of
  which the driver may fail, so that a failed migration leaves the tables it has created so far.
\<close>

section \<open>Database files\<close>

text \<open>The tables of a file, each with its rows and its AUTOINCREMENT counter; \<open>None\<close> for a table that was
  never created.\<close>

record db_file =
  file_sites :: "(site list \<times> int) option"
  file_rules :: "(custom_rule list \<times> int) option"
  file_events :: "(event_row list \<times> int) option"
  file_settings :: "(string \<rightharpoonup> string) option"

definition new_file :: db_file where
  "new_file = \<lparr>file_sites = None, file_rules = None, file_events = None, file_settings = None\<rparr>"

definition create_if_missing :: "'a \<Rightarrow> 'a option \<Rightarrow> 'a option" where
  "create_if_missing e x = (case x of None \<Rightarrow> Some e | Some y \<Rightarrow> Some y)"

text \<open>The statements of the schema in their order. An index changes no row.\<close>

definition schema :: "(db_file \<Rightarrow> db_file) list" where
  "schema =
     [\<lambda>f. f\<lparr>file_sites := create_if_missing ([], 0) (file_sites f)\<rparr>,
      \<lambda>f. f\<lparr>file_rules := create_if_missing ([], 0) (file_rules f)\<rparr>,
      \<lambda>f. f\<lparr>file_events := create_if_missing ([], 0) (file_events f)\<rparr>,
      \<lambda>f. f, \<lambda>f. f, \<lambda>f. f,
      \<lambda>f. f\<lparr>file_settings := create_if_missing Map.empty (file_settings f)\<rparr>]"

fun exec_schema ::
  "(db_file \<Rightarrow> db_file) list \<Rightarrow> string option list \<Rightarrow> db_file \<Rightarrow> (db_error + unit) \<times> string option list \<times> db_file" where
  "exec_schema [] fs f = (Inr (), fs, f)"
| "exec_schema (c # cs) [] f = exec_schema cs [] (c f)"
| "exec_schema (c # cs) (None # fs) f = exec_schema cs fs (c f)"
| "exec_schema (c # cs) (Some m # fs) f = (Inl (ErrDriver m), fs, f)"

definition migrate :: "string option list \<Rightarrow> db_file \<Rightarrow> (db_error + unit) \<times> string option list \<times> db_file" where
  "migrate fs f = exec_schema schema fs f"

datatype open_error = OpenDb string | OpenMigrate db_error

text \<open>The tables as the statements see them; a missing table is never read after a migration.\<close>

definition table :: "'a \<Rightarrow> 'a option \<Rightarrow> 'a" where
  "table e x = (case x of None \<Rightarrow> e | Some y \<Rightarrow> y)"

definition connect :: "string option list \<Rightarrow> db_file \<Rightarrow> db" where
  "connect fs f =
     \<lparr>sites = fst (table ([], 0) (file_sites f)), sites_seq = snd (table ([], 0) (file_sites f)),
      rules = fst (table ([], 0) (file_rules f)), rules_seq = snd (table ([], 0) (file_rules f)),
      events = fst (table ([], 0) (file_events f)), events_seq = snd (table ([], 0) (file_events f)),
      settings = table Map.empty (file_settings f), faults = fs\<rparr>"

text \<open>\<open>failed\<close> is the error of \<open>sql.Open\<close> itself, if any; \<open>fs\<close> the driver errors to come.\<close>

definition Open :: "string option \<Rightarrow> string option list \<Rightarrow> db_file \<Rightarrow> (open_error + db) \<times> db_file" where
  "Open failed fs f =
     (case failed of
        Some e \<Rightarrow> (Inl (OpenDb e), f)
      | None \<Rightarrow>
          (case migrate fs f of
             (Inl e, _, f) \<Rightarrow> (Inl (OpenMigrate e), f)
           | (Inr _, fs, f) \<Rightarrow> (Inr (connect fs f), f)))"

text \<open>What a closed database leaves in its file.\<close>

definition Close :: "db \<Rightarrow> db_file" where
  "Close d = \<lparr>file_sites = Some (sites d, sites_seq d), file_rules = Some (rules d, rules_seq d),
              file_events = Some (events d, events_seq d), file_settings = Some (settings d)\<rparr>"

section \<open>Facts\<close>

lemma table_create [simp]: "table e (create_if_missing e x) = table e x"
  by (simp add: table_def create_if_missing_def split: option.splits)

lemma create_Some [simp]: "create_if_missing e (Some y) = Some y"
  by (simp add: create_if_missing_def)

text \<open>No statement of the schema changes what a connection reads.\<close>

lemma schema_connect: "c \<in> set schema \<Longrightarrow> connect fs (c f) = connect fs f"
  by (auto simp: schema_def connect_def)

lemma exec_schema_connect:
  "exec_schema cs fs f = (res, fs', f') \<Longrightarrow> set cs \<subseteq> set schema \<Longrightarrow> connect x f' = connect x f"
  by (induction cs fs f rule: exec_schema.induct) (auto simp: schema_connect)

lemma exec_schema_all:
  "exec_schema cs fs f = (Inr u, fs', f') \<Longrightarrow> f' = fold (\<lambda>c. c) cs f \<and> fs' = drop (length cs) fs"
  by (induction cs fs f rule: exec_schema.induct) auto

lemma exec_schema_sound: "list_all (\<lambda>x. x = None) (take (length cs) fs) \<Longrightarrow> fst (exec_schema cs fs f) = Inr ()"
  by (induction cs fs f rule: exec_schema.induct) auto

lemma Open_connect: "Open failed fs f = (res, f') \<Longrightarrow> connect x f' = connect x f"
  unfolding Open_def migrate_def
  by (auto split: option.splits prod.splits sum.splits dest: exec_schema_connect)

lemma length_schema [simp]: "length schema = 7"
  by (simp add: schema_def)

lemma migrate_ok:
  assumes "migrate fs f = (Inr u, fs', f')"
  shows "connect fs' f' = connect (drop 7 fs) f"
  using assms exec_schema_all [of schema fs f u fs' f'] exec_schema_connect [of schema fs f "Inr u" fs' f']
  by (simp add: migrate_def)

lemma Open_db: "Open failed fs f = (Inr d, f') \<Longrightarrow> d = connect (drop 7 fs) f"
  by (auto simp: Open_def migrate_ok split: option.splits prod.splits sum.splits)

lemma connect_Close [simp]: "connect fs (Close d) = d\<lparr>faults := fs\<rparr>"
  by (simp add: connect_def Close_def table_def)

lemma connect_new [simp]: "connect fs new_file = empty_db\<lparr>faults := fs\<rparr>"
  by (simp add: connect_def new_file_def empty_db_def table_def)

lemma Open_sound:
  assumes "list_all (\<lambda>x. x = None) (take 7 fs)"
  shows "fst (Open None fs f) = Inr (connect (drop 7 fs) f)"
proof -
  have "fst (migrate fs f) = Inr ()" using exec_schema_sound [of schema fs f] assms by (simp add: migrate_def)
  then obtain fs' f' where m: "migrate fs f = (Inr (), fs', f')" by (metis prod.collapse)
  with migrate_ok [OF m] show ?thesis by (simp add: Open_def)
qed

lemma Open_Close [simp]: "faults d = [] \<Longrightarrow> fst (Open None [] (Close d)) = Inr d"
  using Open_sound [of "[]" "Close d"] by simp

text \<open>Opening the same file again and again, as a supervised service does.\<close>

fun open_attempts :: "(string option \<times> string option list) list \<Rightarrow> db_file \<Rightarrow> db_file" where
  "open_attempts [] f = f"
| "open_attempts ((failed, fs) # rest) f = open_attempts rest (snd (Open failed fs f))"

lemma open_attempts_connect: "connect x (open_attempts as f) = connect x f"
proof (induction as arbitrary: f)
  case (Cons a as)
  obtain failed fs where a: "a = (failed, fs)" by fastforce
  obtain res f' where o: "Open failed fs f = (res, f')" by fastforce
  with Cons a Open_connect [OF o] show ?case by simp
qed simp

text \<open>C22: A restart loses nothing. When a database is closed and opened again, whatever attempts to open it
  failed in between and however far their migrations got, the first attempt whose statements the driver
  does not fail gives back every site, rule, event and setting and every identifier counter; on a file
  that never had a table it gives the empty database.\<close>

theorem reopen_restores:
  assumes "list_all (\<lambda>x. x = None) (take 7 fs)"
  shows "fst (Open None fs (open_attempts attempts (Close d))) = Inr (d\<lparr>faults := drop 7 fs\<rparr>) \<and>
    fst (Open None fs (open_attempts attempts new_file)) = Inr (empty_db\<lparr>faults := drop 7 fs\<rparr>)"
  using Open_sound [OF assms] by (simp add: open_attempts_connect)

theorem reopen_restores_witness:
  "fst (Open None [] (open_attempts [(None, [None, Some ''disk I/O error'']), (Some ''no such file'', [])] (Close db_one_event))) =
     Inr (db_one_event\<lparr>faults := []\<rparr>)"
  using reopen_restores [of "[]" "[(None, [None, Some ''disk I/O error'']), (Some ''no such file'', [])]" db_one_event] by simp

end
