(* ===== verification/Config.thy ===== *)
theory Config
  imports Prelude "HOL-Library.Word"
begin

text \<open>
  \<^verbatim>\<open>internal/config\<close>: the static settings. Reading the file is an input (\<open>file_read\<close>), and the YAML
  decoder is the parameter \<open>unmarshal\<close>, which writes into the configuration it is given and reports
  an error.
\<close>

record rate_limit_config =
  cfg_Enabled :: bool
  cfg_RequestsPerSecond :: "64 word"
  cfg_Burst :: int
  cfg_TrustForwardedHeader :: bool
  cfg_ForwardedHeader :: string

record proxy_config =
  cfg_HTTPAddr :: string
  cfg_HTTPSAddr :: string

record admin_config =
  cfg_Addr :: string
  cfg_Username :: string
  cfg_Password :: string

record tls_settings =
  cfg_Email :: string
  cfg_CacheDir :: string

record database_config =
  cfg_Path :: string

record config =
  cfg_Proxy :: proxy_config
  cfg_Admin :: admin_config
  cfg_TLS :: tls_settings
  cfg_Database :: database_config
  cfg_RateLimit :: rate_limit_config

text \<open>The bit pattern of the \<open>float64\<close> 20.\<close>

definition float_twenty :: "64 word" where
  "float_twenty = 0x4034000000000000"

definition Default :: config where
  "Default =
     \<lparr>cfg_Proxy = \<lparr>cfg_HTTPAddr = '':80'', cfg_HTTPSAddr = '':443''\<rparr>,
      cfg_Admin = \<lparr>cfg_Addr = ''127.0.0.1:9090'', cfg_Username = [], cfg_Password = []\<rparr>,
      cfg_TLS = \<lparr>cfg_Email = [], cfg_CacheDir = ''./certs''\<rparr>,
      cfg_Database = \<lparr>cfg_Path = ''./wafportal.db''\<rparr>,
      cfg_RateLimit = \<lparr>cfg_Enabled = True, cfg_RequestsPerSecond = float_twenty, cfg_Burst = 40,
                       cfg_TrustForwardedHeader = False, cfg_ForwardedHeader = ''X-Forwarded-For''\<rparr>\<rparr>"

datatype file_read = FileMissing | FileError string | FileData string
datatype config_error = ConfigRead string | ConfigParse string

definition Load :: "(string \<Rightarrow> config \<Rightarrow> config \<times> string option) \<Rightarrow> file_read \<Rightarrow> config \<times> config_error option" where
  "Load unmarshal rd =
     (let cfg = Default
      in case rd of
           FileMissing \<Rightarrow> (cfg, None)
         | FileError e \<Rightarrow> (cfg, Some (ConfigRead e))
         | FileData content \<Rightarrow>
             (case unmarshal content cfg of
                (cfg, Some e) \<Rightarrow> (cfg, Some (ConfigParse e))
              | (cfg, None) \<Rightarrow> (cfg, None)))"

section \<open>Properties\<close>

text \<open>What YAML promises of decoding into a value: a setting the document does not mention stays as it
  was. A setting is read by a selector \<open>get\<close>.\<close>

definition leaves_alone ::
  "(string \<Rightarrow> config \<Rightarrow> config \<times> string option) \<Rightarrow> string \<Rightarrow> (config \<Rightarrow> 'a) \<Rightarrow> bool" where
  "leaves_alone unmarshal content get \<longleftrightarrow> (\<forall>cfg. get (fst (unmarshal content cfg)) = get cfg)"

text \<open>Every setting the file does not mention has its default, and the portal runs without any file:
  a missing file gives the defaults and no error, a file that cannot be read or decoded gives an error,
  and after a successful load each setting left alone by the document is the default one. By default
  the admin interface listens on the loopback address only, requests are limited, and no forwarded
  header is trusted.\<close>

lemma Load_falls_back:
  assumes "leaves_alone unmarshal content get"
  shows "Load unmarshal FileMissing = (Default, None) \<and>
    snd (Load unmarshal (FileError e)) = Some (ConfigRead e) \<and>
    get (fst (Load unmarshal (FileData content))) = get Default \<and>
    snd (Load unmarshal (FileData content)) = map_option ConfigParse (snd (unmarshal content Default)) \<and>
    cfg_Addr (cfg_Admin Default) = ''127.0.0.1:9090'' \<and> cfg_Enabled (cfg_RateLimit Default) \<and>
    \<not> cfg_TrustForwardedHeader (cfg_RateLimit Default)"
proof -
  have "get (fst (unmarshal content Default)) = get Default" using assms by (simp add: leaves_alone_def)
  moreover have "cfg_Addr (cfg_Admin Default) = ''127.0.0.1:9090'' \<and> cfg_Enabled (cfg_RateLimit Default) \<and>
    \<not> cfg_TrustForwardedHeader (cfg_RateLimit Default)" by (simp add: Default_def)
  ultimately show ?thesis by (auto simp: Load_def Let_def split: prod.splits option.splits)
qed

text \<open>A decoder that takes the whole document for the burst size.\<close>

definition burst_yaml :: "string \<Rightarrow> config \<Rightarrow> config \<times> string option" where
  "burst_yaml content cfg = (cfg\<lparr>cfg_RateLimit := (cfg_RateLimit cfg)\<lparr>cfg_Burst := int (length content)\<rparr>\<rparr>, None)"

lemma Load_falls_back_witness:
  "cfg_Proxy (fst (Load burst_yaml (FileData ''xyz''))) = cfg_Proxy Default"
  using Load_falls_back [of burst_yaml "''xyz''" cfg_Proxy] by (simp add: leaves_alone_def burst_yaml_def)

end
