(* ===== verification/Rate_Limit.thy ===== *)
theory Rate_Limit
  imports Prelude "HOL-Library.AList" "HOL-Library.Word"
begin

text \<open>
  \<^verbatim>\<open>internal/ratelimit\<close>: a token bucket per client key, and the goroutine that evicts idle ones. The
  bucket itself (\<^verbatim>\<open>golang.org/x/time/rate\<close>) is a parameter: \<open>new\<close> for \<open>rate.NewLimiter\<close> and \<open>allow\<close> for
  \<open>Limiter.Allow\<close> at an instant. Buckets live at addresses, because \<open>Allow\<close> leaves the critical
  section with a pointer and takes the token outside it. The clock readings are arguments, and so is
  the order \<open>v\<close> in which Go ranges over a map.
\<close>

section \<open>State\<close>

record client =
  client_limiter :: nat
  lastSeen :: go_time

record 'lim limiter =
  rps :: "64 word"
  burst :: int
  ttl :: duration
  clients :: "(string \<times> client) list"
  buckets :: "'lim list"

definition New_Limiter :: "64 word \<Rightarrow> int \<Rightarrow> 'lim limiter" where
  "New_Limiter r b = \<lparr>rps = r, burst = b, ttl = 10 * minute, clients = [], buckets = []\<rparr>"

section \<open>Operations\<close>

text \<open>The critical section of \<open>Allow\<close>: find or create the client, note when it was seen, and keep the
  pointer to its bucket.\<close>

definition Allow_enter ::
  "(64 word \<Rightarrow> int \<Rightarrow> 'lim) \<Rightarrow> string \<Rightarrow> go_time \<Rightarrow> 'lim limiter \<Rightarrow> nat \<times> 'lim limiter" where
  "Allow_enter new key now l =
     (case map_of (clients l) key of
        Some c \<Rightarrow> (client_limiter c, l\<lparr>clients := AList.update key (c\<lparr>lastSeen := now\<rparr>) (clients l)\<rparr>)
      | None \<Rightarrow>
          (let p = length (buckets l)
           in (p, l\<lparr>clients := AList.update key \<lparr>client_limiter = p, lastSeen = now\<rparr> (clients l),
                    buckets := buckets l @ [new (rps l) (burst l)]\<rparr>)))"

text \<open>After the critical section: \<open>lim.Allow()\<close> on the pointer.\<close>

definition Allow_take ::
  "('lim \<Rightarrow> go_time \<Rightarrow> bool \<times> 'lim) \<Rightarrow> nat \<Rightarrow> go_time \<Rightarrow> 'lim limiter \<Rightarrow> bool \<times> 'lim limiter" where
  "Allow_take allow p now l =
     (case allow (buckets l ! p) now of (ok, b) \<Rightarrow> (ok, l\<lparr>buckets := (buckets l)[p := b]\<rparr>))"

definition Allow ::
  "(64 word \<Rightarrow> int \<Rightarrow> 'lim) \<Rightarrow> ('lim \<Rightarrow> go_time \<Rightarrow> bool \<times> 'lim) \<Rightarrow> string \<Rightarrow> go_time \<Rightarrow> go_time
   \<Rightarrow> 'lim limiter \<Rightarrow> bool \<times> 'lim limiter" where
  "Allow new allow key seen taken l =
     (case Allow_enter new key seen l of (p, l) \<Rightarrow> Allow_take allow p taken l)"

text \<open>One tick of \<open>cleanupLoop\<close>: the range over the map with its deletions.\<close>

definition cleanup_tick ::
  "((string \<times> client) list \<Rightarrow> (string \<times> client) list) \<Rightarrow> go_time \<Rightarrow> 'lim limiter \<Rightarrow> 'lim limiter" where
  "cleanup_tick v now l =
     (let cutoff = now - ttl l
      in l\<lparr>clients := fold (\<lambda>(key, c) m. if lastSeen c < cutoff then AList.delete key m else m)
                        (v (clients l)) (clients l)\<rparr>)"

text \<open>The limiter as a machine: a request with the two clock readings of \<open>Allow\<close>, or a tick.\<close>

datatype limiter_event = Request string go_time go_time | Tick go_time

fun limiter_step ::
  "(64 word \<Rightarrow> int \<Rightarrow> 'lim) \<Rightarrow> ('lim \<Rightarrow> go_time \<Rightarrow> bool \<times> 'lim) \<Rightarrow> ((string \<times> client) list \<Rightarrow> (string \<times> client) list)
   \<Rightarrow> limiter_event \<Rightarrow> 'lim limiter \<Rightarrow> (string \<times> bool) list \<times> 'lim limiter" where
  "limiter_step new allow v (Request key seen taken) l =
     (case Allow new allow key seen taken l of (ok, l) \<Rightarrow> ([(key, ok)], l))"
| "limiter_step new allow v (Tick now) l = ([], cleanup_tick v now l)"

text \<open>Requests of several goroutines interleave between the two parts of \<open>Allow\<close>; \<open>pend\<close> holds the
  pointers taken out of the critical section and not used yet.\<close>

inductive limiter_conc ::
  "(64 word \<Rightarrow> int \<Rightarrow> 'lim) \<Rightarrow> ('lim \<Rightarrow> go_time \<Rightarrow> bool \<times> 'lim) \<Rightarrow> ((string \<times> client) list \<Rightarrow> (string \<times> client) list)
   \<Rightarrow> 'lim limiter \<times> (string \<times> nat) list \<Rightarrow> 'lim limiter \<times> (string \<times> nat) list \<Rightarrow> bool"
  for new allow v where
  enter: "Allow_enter new key now l = (p, l') \<Longrightarrow> limiter_conc new allow v (l, pend) (l', (key, p) # pend)"
| take_token: "(key, p) \<in> set pend \<Longrightarrow> Allow_take allow p now l = (ok, l') \<Longrightarrow>
    limiter_conc new allow v (l, pend) (l', remove1 (key, p) pend)"
| tick: "limiter_conc new allow v (l, pend) (cleanup_tick v now l, pend)"

section \<open>Well-formed limiters\<close>

definition limiter_ok :: "'lim limiter \<Rightarrow> bool" where
  "limiter_ok l \<longleftrightarrow> distinct (map fst (clients l)) \<and>
     (\<forall>kc \<in> set (clients l). client_limiter (snd kc) < length (buckets l)) \<and>
     inj_on (\<lambda>kc. client_limiter (snd kc)) (set (clients l))"

lemma limiter_ok_New [simp]: "limiter_ok (New_Limiter r b)"
  by (simp add: limiter_ok_def New_Limiter_def)

lemma limiter_ok_client:
  "limiter_ok l \<Longrightarrow> map_of (clients l) key = Some c \<Longrightarrow> client_limiter c < length (buckets l)"
  by (auto simp: limiter_ok_def dest: map_of_SomeD)

lemma limiter_ok_own:
  assumes "limiter_ok l" "map_of (clients l) k = Some c" "map_of (clients l) k' = Some c'"
    and "client_limiter c = client_limiter c'"
  shows "k = k'"
proof -
  have "(k, c) \<in> set (clients l)" "(k', c') \<in> set (clients l)" using assms(2,3) by (auto dest: map_of_SomeD)
  moreover have inj: "inj_on (\<lambda>kc. client_limiter (snd kc)) (set (clients l))" using assms(1) by (simp add: limiter_ok_def)
  ultimately have "(k, c) = (k', c')" using assms(4) inj_onD [OF inj, of "(k, c)" "(k', c')"] by simp
  then show ?thesis by simp
qed

lemma limiter_okI:
  assumes "distinct (map fst (clients l))"
    and "\<And>k c. map_of (clients l) k = Some c \<Longrightarrow> client_limiter c < length (buckets l)"
    and "\<And>k c k' c'. map_of (clients l) k = Some c \<Longrightarrow> map_of (clients l) k' = Some c' \<Longrightarrow>
          client_limiter c = client_limiter c' \<Longrightarrow> k = k'"
  shows "limiter_ok l"
proof -
  have of: "map_of (clients l) k = Some c" if "(k, c) \<in> set (clients l)" for k c
    using that assms(1) by simp
  have "inj_on (\<lambda>kc. client_limiter (snd kc)) (set (clients l))"
  proof (rule inj_onI, clarify)
    fix k c k' c' assume in1: "(k, c) \<in> set (clients l)" and in2: "(k', c') \<in> set (clients l)"
      and "client_limiter (snd (k, c)) = client_limiter (snd (k', c'))"
    then have "k = k'" using assms(3) [OF of [OF in1] of [OF in2]] by simp
    with of [OF in1] of [OF in2] show "k = k' \<and> c = c'" by simp
  qed
  with assms(1,2) of show ?thesis by (auto simp: limiter_ok_def)
qed

lemma limiter_ok_enter:
  assumes "limiter_ok l"
  shows "limiter_ok (snd (Allow_enter new key now l))"
proof (cases "map_of (clients l) key")
  case None
  then show ?thesis using assms limiter_ok_client [OF assms] limiter_ok_own [OF assms]
    by (intro limiter_okI) (auto simp: Allow_enter_def Let_def update_conv' limiter_ok_def distinct_update
        less_Suc_eq split: if_splits)
next
  case (Some c)
  then show ?thesis using assms limiter_ok_client [OF assms] limiter_ok_own [OF assms]
    by (intro limiter_okI) (auto simp: Allow_enter_def update_conv' limiter_ok_def distinct_update split: if_splits)
qed

lemma limiter_ok_take [simp]: "limiter_ok (snd (Allow_take allow p now l)) = limiter_ok l"
  by (simp add: Allow_take_def limiter_ok_def split: prod.splits)

section \<open>Eviction\<close>

lemma fold_delete:
  "fold (\<lambda>(key, c) m. if old c then AList.delete key m else m) xs m =
     filter (\<lambda>kc. fst kc \<notin> fst ` set (filter (\<lambda>kc. old (snd kc)) xs)) m"
proof (induction xs arbitrary: m)
  case (Cons x xs)
  show ?case
    by (cases x) (auto simp: Cons.IH AList.delete_eq intro!: filter_cong)
qed simp

lemma cleanup_clients:
  assumes "limiter_ok l" and "visits v"
  shows "clients (cleanup_tick v now l) = filter (\<lambda>kc. now - ttl l \<le> lastSeen (snd kc)) (clients l)"
proof -
  have dist: "distinct (map fst (clients l))" using assms(1) by (simp add: limiter_ok_def)
  have old: "fst kc \<in> fst ` set (filter (\<lambda>kc. lastSeen (snd kc) < now - ttl l) (v (clients l))) \<longleftrightarrow>
        lastSeen (snd kc) < now - ttl l" (is "?L \<longleftrightarrow> ?R") if kc: "kc \<in> set (clients l)" for kc
  proof
    assume ?L
    then obtain x where x: "x \<in> set (clients l)" "lastSeen (snd x) < now - ttl l" "fst x = fst kc"
      by (auto simp: visits_set [OF assms(2)])
    then have "snd x = snd kc" using kc eq_key_imp_eq_value [OF dist] by (metis prod.collapse)
    with x show ?R by simp
  next
    assume ?R
    with kc show ?L by (auto simp: visits_set [OF assms(2)])
  qed
  show ?thesis
    unfolding cleanup_tick_def Let_def fold_delete
    by (simp, rule filter_cong [OF refl]) (use old in fastforce)
qed

lemma cleanup_other [simp]:
  "buckets (cleanup_tick v now l) = buckets l" "ttl (cleanup_tick v now l) = ttl l"
  "rps (cleanup_tick v now l) = rps l" "burst (cleanup_tick v now l) = burst l"
  by (simp_all add: cleanup_tick_def Let_def)

lemma limiter_ok_cleanup:
  assumes "limiter_ok l" and "visits v"
  shows "limiter_ok (cleanup_tick v now l)"
  using assms unfolding limiter_ok_def cleanup_clients [OF assms]
  by (auto intro: inj_on_subset)

lemma map_of_cleanup:
  assumes "limiter_ok l" and "visits v"
  shows "map_of (clients (cleanup_tick v now l)) k =
    (case map_of (clients l) k of
       Some c \<Rightarrow> if lastSeen c < now - ttl l then None else Some c | None \<Rightarrow> None)"
proof -
  have "map_of (filter (\<lambda>kc. P (snd kc)) xs) k =
      (case map_of xs k of Some c \<Rightarrow> if P c then Some c else None | None \<Rightarrow> None)"
    if "distinct (map fst xs)" for P :: "client \<Rightarrow> bool" and xs
    using that
  proof (induction xs)
    case (Cons x xs)
    then show ?case by (cases x) (auto split: option.splits dest: map_of_SomeD simp: rev_image_eqI map_of_eq_None_iff)
  qed simp
  from this [of "clients l" "\<lambda>c. now - ttl l \<le> lastSeen c"] assms(1)
  show ?thesis by (auto simp: cleanup_clients [OF assms] limiter_ok_def split: option.splits)
qed

section \<open>One client at a time\<close>

text \<open>What the limiter keeps for one key: its bucket and when it was last seen.\<close>

definition client_view :: "string \<Rightarrow> 'lim limiter \<Rightarrow> ('lim \<times> go_time) option" where
  "client_view key l =
     map_option (\<lambda>c. (buckets l ! client_limiter c, lastSeen c)) (map_of (clients l) key)"

text \<open>The same machine for a single client: a bucket that is made on the first request and dropped by a
  tick when it has been idle for longer than the time to live.\<close>

fun client_step ::
  "'lim \<Rightarrow> ('lim \<Rightarrow> go_time \<Rightarrow> bool \<times> 'lim) \<Rightarrow> duration \<Rightarrow> string \<Rightarrow> limiter_event \<Rightarrow> ('lim \<times> go_time) option
   \<Rightarrow> bool list \<times> ('lim \<times> go_time) option" where
  "client_step fresh allow age key (Request k seen taken) st =
     (if k \<noteq> key then ([], st)
      else case allow (case st of None \<Rightarrow> fresh | Some (b, _) \<Rightarrow> b) taken of (ok, b) \<Rightarrow> ([ok], Some (b, seen)))"
| "client_step fresh allow age key (Tick now) st =
     ([], case st of None \<Rightarrow> None | Some (b, seen) \<Rightarrow> if seen < now - age then None else Some (b, seen))"

definition limiter_inv ::
  "((string \<times> client) list \<Rightarrow> (string \<times> client) list) \<Rightarrow> 64 word \<Rightarrow> int \<Rightarrow> 'lim limiter \<Rightarrow> bool" where
  "limiter_inv v r b l \<longleftrightarrow> visits v \<and> limiter_ok l \<and> rps l = r \<and> burst l = b \<and> ttl l = 10 * minute"

lemma Allow_enter_view:
  assumes "limiter_ok l" and "Allow_enter new key now l = (p, l')"
  shows "map_of (clients l') key = Some \<lparr>client_limiter = p, lastSeen = now\<rparr>" and "p < length (buckets l')"
    and "buckets l' ! p = (case client_view key l of None \<Rightarrow> new (rps l) (burst l) | Some (b, _) \<Rightarrow> b)"
    and "k \<noteq> key \<Longrightarrow> client_view k l' = client_view k l"
    and "rps l' = rps l" and "burst l' = burst l" and "ttl l' = ttl l"
  using assms limiter_ok_client [OF assms(1)]
  by (auto simp: Allow_enter_def client_view_def Let_def update_conv' nth_append split: option.splits
      intro!: option.map_cong)

lemma Allow_take_view:
  assumes "limiter_ok l" and "Allow_take allow p now l = (ok, l')"
    and "map_of (clients l) key = Some c" and "p = client_limiter c"
  shows "(ok, fst (the (client_view key l'))) = allow (buckets l ! p) now"
    and "client_view key l' = Some (fst (the (client_view key l')), lastSeen c)"
    and "k \<noteq> key \<Longrightarrow> client_view k l' = client_view k l"
    and "rps l' = rps l" and "burst l' = burst l" and "ttl l' = ttl l"
proof -
  have other: "client_limiter c' \<noteq> p" if "map_of (clients l) k = Some c'" "k \<noteq> key" for k c'
    using limiter_ok_own [OF assms(1) that(1) assms(3)] assms(4) that(2) by auto
  show "k \<noteq> key \<Longrightarrow> client_view k l' = client_view k l"
    using assms(2) other
    by (auto simp: Allow_take_def client_view_def split: prod.splits intro!: option.map_cong)
      (metis nth_list_update_neq)
qed (use assms limiter_ok_client [OF assms(1,3)] in
    \<open>auto simp: Allow_take_def client_view_def split: prod.splits\<close>)

lemma Allow_view:
  assumes "limiter_ok l" and "Allow new allow key seen taken l = (ok, l')"
  shows "allow (case client_view key l of None \<Rightarrow> new (rps l) (burst l) | Some (b, _) \<Rightarrow> b) taken =
      (ok, fst (the (client_view key l')))"
    and "client_view key l' = Some (fst (the (client_view key l')), seen)"
    and "k \<noteq> key \<Longrightarrow> client_view k l' = client_view k l"
    and "rps l' = rps l" and "burst l' = burst l" and "ttl l' = ttl l" and "limiter_ok l'"
proof -
  obtain p m where enter: "Allow_enter new key seen l = (p, m)" by fastforce
  with assms(2) have taken: "Allow_take allow p taken m = (ok, l')" by (simp add: Allow_def)
  have m: "limiter_ok m" using limiter_ok_enter [OF assms(1), of new key seen] enter by simp
  note e = Allow_enter_view [OF assms(1) enter]
  note t = Allow_take_view [OF m taken e(1)]
  show "allow (case client_view key l of None \<Rightarrow> new (rps l) (burst l) | Some (b, _) \<Rightarrow> b) taken =
      (ok, fst (the (client_view key l')))" using t(1) e(3) by simp
  show "client_view key l' = Some (fst (the (client_view key l')), seen)" using t(2) by simp
  show "k \<noteq> key \<Longrightarrow> client_view k l' = client_view k l" using t(3) e(4) by simp
  show "rps l' = rps l" "burst l' = burst l" "ttl l' = ttl l" using t(4-6) e(5-7) by simp_all
  show "limiter_ok l'" using limiter_ok_take [of allow p taken m] m taken by simp
qed

interpretation per_client: keyed_machine
  "limiter_step new allow v" "limiter_inv v r b" client_view "client_step (new r b) allow (10 * minute)"
proof (unfold_locales, goal_cases)
  case (1 l e)
  then show ?case using Allow_view(4-7) [of l new allow] limiter_ok_cleanup [of l v]
    by (cases e) (auto simp: limiter_inv_def split: prod.splits)
next
  case (2 l key e)
  show ?case
  proof (cases e)
    case (Request k seen taken)
    obtain ok l' where step: "Allow new allow k seen taken l = (ok, l')" by fastforce
    have "limiter_ok l" and l: "rps l = r" "burst l = b" using 2 by (simp_all add: limiter_inv_def)
    note a = Allow_view [OF this(1) step]
    show ?thesis
    proof (cases "k = key")
      case True
      from a(2) obtain bb where "client_view k l' = Some (bb, seen)" by blast
      then show ?thesis using a(1) [unfolded l] True by (simp add: Request step [unfolded True])
    next
      case False
      then show ?thesis using a(3) [of key] by (simp add: Request step)
    qed
  next
    case (Tick now)
    with 2 show ?thesis
      by (simp add: client_view_def map_of_cleanup limiter_inv_def split: option.splits)
  qed
qed

section \<open>Properties\<close>

lemma limiter_inv_New [simp]: "visits v \<Longrightarrow> limiter_inv v r b (New_Limiter r b)"
  by (simp add: limiter_inv_def New_Limiter_def limiter_ok_def)

lemma client_view_New [simp]: "client_view key (New_Limiter r b) = None"
  by (simp add: client_view_def New_Limiter_def)

lemmas limiter_run = per_client.run_view [OF limiter_inv_New, unfolded client_view_New]

fun concerns :: "string \<Rightarrow> limiter_event \<Rightarrow> bool" where
  "concerns key (Request k _ _) \<longleftrightarrow> k = key"
| "concerns key (Tick _) \<longleftrightarrow> True"

lemma client_run_filter:
  "run_steps (client_step fresh allow age key) (filter (concerns key) es) st =
   run_steps (client_step fresh allow age key) es st"
proof (induction es arbitrary: st)
  case (Cons e es)
  then show ?case by (cases e) (auto split: prod.splits)
qed simp

text \<open>Clients do not disturb each other: the answers a client gets are the answers it would get if
  every request of every other client were left out, whatever they are and however they interleave.\<close>

lemma limiter_isolation:
  assumes "visits v"
  shows "outputs_for key (fst (run_steps (limiter_step new allow v) es (New_Limiter r b))) =
    outputs_for key (fst (run_steps (limiter_step new allow v) (filter (concerns key) es) (New_Limiter r b)))"
proof -
  from client_run_filter [of "new r b" allow "10 * minute" key es None] limiter_run [OF assms]
  show ?thesis by (metis fst_conv)
qed

text \<open>A bucket that hands out a token every so many nanoseconds and holds at most a given number.\<close>

fun toy_allow :: "duration \<Rightarrow> int \<Rightarrow> int \<times> go_time \<Rightarrow> go_time \<Rightarrow> bool \<times> (int \<times> go_time)" where
  "toy_allow per cap (credit, prev) now =
     (let c = min (cap * per) (credit + (now - prev))
      in if per \<le> c then (True, (c - per, now)) else (False, (c, now)))"

definition toy_new :: "64 word \<Rightarrow> int \<Rightarrow> int \<times> go_time" where
  "toy_new r b = (2 * second, 0)"

lemma limiter_isolation_witness:
  "outputs_for ''a'' (fst (run_steps (limiter_step toy_new (toy_allow second 2) rev)
      [Request ''a'' 0 0, Request ''b'' 1 1, Request ''a'' 1 1, Request ''a'' 2 2] (New_Limiter 1 2))) =
    [True, True, False]"
  using limiter_isolation [OF visits_rev, of "''a''" toy_new "toy_allow second 2"
      "[Request ''a'' 0 0, Request ''b'' 1 1, Request ''a'' 1 1, Request ''a'' 2 2]" 1 2]
  by (simp add: New_Limiter_def Allow_def Allow_enter_def Allow_take_def Let_def toy_new_def)

text \<open>A cleanup tick evicts exactly the clients that were last seen more than ten minutes before it:
  after any history the others stay, with their buckets, in whatever order the map is visited.\<close>

lemma cleanup_exact:
  assumes "visits v" and "l = snd (run_steps (limiter_step new allow v) es (New_Limiter r b))"
  shows "clients (cleanup_tick v now l) = filter (\<lambda>kc. now - 10 * minute \<le> lastSeen (snd kc)) (clients l) \<and>
    buckets (cleanup_tick v now l) = buckets l"
proof -
  have "limiter_inv v r b l" unfolding assms(2) by (rule per_client.run_inv) (simp add: assms(1))
  then show ?thesis by (simp add: limiter_inv_def cleanup_clients)
qed

definition two_clients :: "(int \<times> go_time) limiter" where
  "two_clients = snd (run_steps (limiter_step toy_new (toy_allow second 2) rev)
     [Request ''a'' 0 0, Request ''b'' (5 * minute) (5 * minute)] (New_Limiter 1 2))"

lemma cleanup_exact_witness:
  "map fst (clients (cleanup_tick rev (12 * minute) two_clients)) = [''b'']"
  using cleanup_exact [OF visits_rev two_clients_def, of "12 * minute"]
  by (simp add: two_clients_def New_Limiter_def Allow_def Allow_enter_def Allow_take_def Let_def toy_new_def)

section \<open>Eviction cannot be seen\<close>

text \<open>The bucket of a client that is never evicted, and the answers it gives.\<close>

definition bucket_after :: "('lim \<Rightarrow> go_time \<Rightarrow> bool \<times> 'lim) \<Rightarrow> 'lim \<Rightarrow> go_time list \<Rightarrow> 'lim" where
  "bucket_after allow b ts = foldl (\<lambda>b t. snd (allow b t)) b ts"

fun bucket_run :: "('lim \<Rightarrow> go_time \<Rightarrow> bool \<times> 'lim) \<Rightarrow> 'lim \<Rightarrow> go_time list \<Rightarrow> bool list" where
  "bucket_run allow b [] = []"
| "bucket_run allow b (t # ts) = (case allow b t of (ok, b') \<Rightarrow> ok # bucket_run allow b' ts)"

text \<open>What the package documents of a token bucket: once it has been left alone for the time it takes
  to fill up, it is as good as new.\<close>

definition refills :: "('lim \<Rightarrow> go_time \<Rightarrow> bool \<times> 'lim) \<Rightarrow> 'lim \<Rightarrow> duration \<Rightarrow> bool" where
  "refills allow fresh full \<longleftrightarrow>
     (\<forall>ts u t. sorted (ts @ [u]) \<and> 0 \<le> hd (ts @ [u]) \<and> u + full \<le> t \<longrightarrow>
        allow (bucket_after allow fresh (ts @ [u])) t = allow fresh t)"

text \<open>Events in the order of the clock, with at most \<open>skew\<close> between the two readings of a request.\<close>

fun timed :: "duration \<Rightarrow> go_time \<Rightarrow> limiter_event list \<Rightarrow> bool" where
  "timed skew t [] \<longleftrightarrow> True"
| "timed skew t (Request k seen taken # es) \<longleftrightarrow>
     t \<le> seen \<and> seen \<le> taken \<and> taken \<le> seen + skew \<and> timed skew taken es"
| "timed skew t (Tick now # es) \<longleftrightarrow> t \<le> now \<and> timed skew now es"

fun taken_by :: "string \<Rightarrow> limiter_event list \<Rightarrow> go_time list" where
  "taken_by key [] = []"
| "taken_by key (Request k seen taken # es) = (if k = key then [taken] else []) @ taken_by key es"
| "taken_by key (Tick now # es) = taken_by key es"

text \<open>The client's entry against the history of its bucket: present, it is the bucket; absent, the
  bucket is new or has had the time to fill up.\<close>

definition entry_ok ::
  "('lim \<Rightarrow> go_time \<Rightarrow> bool \<times> 'lim) \<Rightarrow> 'lim \<Rightarrow> duration \<Rightarrow> duration \<Rightarrow> go_time list \<Rightarrow> go_time
   \<Rightarrow> ('lim \<times> go_time) option \<Rightarrow> bool" where
  "entry_ok allow fresh full skew ts now st \<longleftrightarrow> sorted ts \<and> (\<forall>t \<in> set ts. 0 \<le> t \<and> t \<le> now) \<and> 0 \<le> now \<and>
     (case st of
        None \<Rightarrow> ts = [] \<or> last ts + full \<le> now
      | Some (b, seen) \<Rightarrow> ts \<noteq> [] \<and> b = bucket_after allow fresh ts \<and> last ts \<le> seen + skew)"

lemma bucket_after_snoc: "bucket_after allow b (ts @ [t]) = snd (allow (bucket_after allow b ts) t)"
  by (simp add: bucket_after_def)

lemma entry_allow:
  assumes "refills allow fresh full" and "entry_ok allow fresh full skew ts now st" and "now \<le> t"
  shows "allow (case st of None \<Rightarrow> fresh | Some (b, _) \<Rightarrow> b) t = allow (bucket_after allow fresh ts) t"
proof (cases "st = None \<and> ts \<noteq> []")
  case True
  then obtain us u where ts: "ts = us @ [u]" by (metis append_butlast_last_id)
  moreover have "0 \<le> hd (us @ [u])" using assms(2) by (cases us) (auto simp: entry_ok_def ts)
  ultimately have "allow (bucket_after allow fresh (us @ [u])) t = allow fresh t"
    using assms True by (auto simp: refills_def entry_ok_def)
  with True ts show ?thesis by simp
next
  case False
  with assms(2) show ?thesis by (auto simp: entry_ok_def bucket_after_def split: option.splits prod.splits)
qed

lemma entry_request:
  assumes "refills allow fresh full" and "entry_ok allow fresh full skew ts now st"
    and "now \<le> seen" "seen \<le> taken" "taken \<le> seen + skew"
  shows "entry_ok allow fresh full skew (ts @ [taken]) taken
     (Some (snd (allow (case st of None \<Rightarrow> fresh | Some (b, _) \<Rightarrow> b) taken), seen))"
  using entry_allow [OF assms(1,2), of taken] assms(2-5)
  by (force simp: entry_ok_def bucket_after_snoc sorted_append)

lemma entry_later:
  assumes "entry_ok allow fresh full skew ts now st" and "now \<le> now'"
  shows "entry_ok allow fresh full skew ts now' st"
  using assms by (auto simp: entry_ok_def split: option.splits)

lemma entry_tick:
  assumes "entry_ok allow fresh full skew ts now st" and "now \<le> now'" and "full + skew \<le> age"
  shows "entry_ok allow fresh full skew ts now'
     (case st of None \<Rightarrow> None | Some (b, seen) \<Rightarrow> if seen < now' - age then None else Some (b, seen))"
  using assms by (auto simp: entry_ok_def split: option.splits prod.splits)

lemma client_run_bucket:
  assumes "refills allow fresh full" and "full + skew \<le> age"
    and "entry_ok allow fresh full skew ts now st" and "timed skew now es"
  shows "fst (run_steps (client_step fresh allow age key) es st) =
    bucket_run allow (bucket_after allow fresh ts) (taken_by key es)"
  using assms(3,4)
proof (induction es arbitrary: ts now st)
  case (Cons e es)
  show ?case
  proof (cases e)
    case (Request k seen taken)
    then have t: "now \<le> seen" "seen \<le> taken" "taken \<le> seen + skew" "timed skew taken es"
      using Cons.prems(2) by simp_all
    show ?thesis
    proof (cases "k = key")
      case True
      obtain ok b where a: "allow (bucket_after allow fresh ts) taken = (ok, b)" by fastforce
      moreover have same: "allow (case st of None \<Rightarrow> fresh | Some (b, _) \<Rightarrow> b) taken = (ok, b)"
        using entry_allow [OF assms(1) Cons.prems(1)] a t by simp
      moreover note Cons.IH [OF entry_request [OF assms(1) Cons.prems(1) t(1-3)] t(4), unfolded same]
      ultimately show ?thesis by (auto simp: Request True bucket_after_snoc split: prod.splits)
    next
      case False
      then show ?thesis using Cons.IH [OF entry_later [OF Cons.prems(1)] t(4)] t
        by (simp add: Request split: prod.splits)
    qed
  next
    case (Tick now')
    then show ?thesis
      using Cons.IH [OF entry_tick [OF Cons.prems(1) _ assms(2)], of now'] Cons.prems(2)
      by (simp split: prod.splits)
  qed
qed simp

text \<open>Eviction is invisible. When a bucket that has been idle for its filling time is as good as a
  new one, and that time fits into the ten minutes of the cleanup, every client gets exactly the
  answers of one private bucket that is never evicted.\<close>

lemma eviction_invisible:
  assumes "visits v" and "refills allow (new r b) full" and "full + skew \<le> 10 * minute" and "timed skew 0 es"
  shows "outputs_for key (fst (run_steps (limiter_step new allow v) es (New_Limiter r b))) =
    bucket_run allow (new r b) (taken_by key es)"
proof -
  have "entry_ok allow (new r b) full skew [] 0 None" by (simp add: entry_ok_def)
  from client_run_bucket [OF assms(2,3) this assms(4), of key] limiter_run [OF assms(1), of new r b allow key es]
  show ?thesis by (simp add: bucket_after_def)
qed

lemma toy_after:
  assumes "sorted (ts @ [u])" and "0 \<le> hd (ts @ [u])"
  shows "\<exists>c. bucket_after (toy_allow second 2) (toy_new r b) (ts @ [u]) = (c, u) \<and> 0 \<le> c"
  using assms
proof (induction ts arbitrary: u rule: rev_induct)
  case Nil
  then show ?case by (simp add: bucket_after_def toy_new_def Let_def)
next
  case (snoc t ts)
  have "sorted (ts @ [t])" "0 \<le> hd (ts @ [t])" "t \<le> u"
    using snoc.prems by (auto simp: sorted_append hd_append split: if_splits)
  from snoc.IH [OF this(1,2)] obtain c
    where "bucket_after (toy_allow second 2) (toy_new r b) (ts @ [t]) = (c, t)" "0 \<le> c" by blast
  with \<open>t \<le> u\<close> show ?case
    unfolding bucket_after_snoc [of _ _ "ts @ [t]" u] by (auto simp: Let_def)
qed

lemma sorted_hd_le_last: "sorted (ts @ [u]) \<Longrightarrow> 0 \<le> hd (ts @ [u]) \<Longrightarrow> 0 \<le> (u :: int)"
  by (cases ts) auto

lemma toy_refills: "refills (toy_allow second 2) (toy_new r b) (2 * second)"
  unfolding refills_def
proof (intro allI impI, elim conjE)
  fix ts u t assume ts: "sorted (ts @ [u])" "0 \<le> hd (ts @ [u])" and t: "u + 2 * second \<le> t"
  from toy_after [OF ts] obtain c
    where "bucket_after (toy_allow second 2) (toy_new r b) (ts @ [u]) = (c, u)" "0 \<le> c" by blast
  with t sorted_hd_le_last [OF ts] show "toy_allow second 2 (bucket_after (toy_allow second 2) (toy_new r b) (ts @ [u])) t =
      toy_allow second 2 (toy_new r b) t"
    by (simp add: toy_new_def Let_def min_def)
qed

lemma eviction_invisible_witness:
  "outputs_for ''a'' (fst (run_steps (limiter_step toy_new (toy_allow second 2) rev)
      [Request ''a'' 0 1, Tick (10 * minute), Tick (20 * minute), Request ''a'' (21 * minute) (21 * minute)]
      (New_Limiter 1 2))) = [True, True]"
  by (subst eviction_invisible [OF visits_rev toy_refills, where skew = 1]) (simp_all add: toy_new_def Let_def)

section \<open>Interleaved requests\<close>

definition bucket_refs :: "'lim limiter \<times> (string \<times> nat) list \<Rightarrow> (string \<times> nat) set" where
  "bucket_refs s = set (snd s) \<union> (\<lambda>kc. (fst kc, client_limiter (snd kc))) ` set (clients (fst s))"

definition owned :: "nat \<Rightarrow> (string \<times> nat) set \<Rightarrow> bool" where
  "owned n R \<longleftrightarrow> (\<forall>k p. (k, p) \<in> R \<longrightarrow> p < n \<and> (\<forall>k'. (k', p) \<in> R \<longrightarrow> k = k'))"

definition conc_ok :: "'lim limiter \<times> (string \<times> nat) list \<Rightarrow> bool" where
  "conc_ok s \<longleftrightarrow> limiter_ok (fst s) \<and> owned (length (buckets (fst s))) (bucket_refs s)"

lemma owned_mono: "owned n S \<Longrightarrow> R \<subseteq> S \<Longrightarrow> n = m \<Longrightarrow> owned m R"
  unfolding owned_def by blast

lemma owned_insert_fresh: "owned n S \<Longrightarrow> owned (Suc n) (insert (k, n) S)"
  unfolding owned_def by (auto simp: less_Suc_eq)

lemma bucket_refs_map_of:
  "limiter_ok l \<Longrightarrow> bucket_refs (l, pend) = set pend \<union> {(k, client_limiter c) | k c. map_of (clients l) k = Some c}"
  by (force simp: bucket_refs_def limiter_ok_def)

lemma bucket_refs_enter:
  assumes "limiter_ok l" and "Allow_enter new key now l = (p, l')"
  shows "bucket_refs (l', (key, p) # pend) \<subseteq> insert (key, p) (bucket_refs (l, pend))"
    and "map_of (clients l) key = None \<Longrightarrow> p = length (buckets l) \<and> length (buckets l') = Suc p"
    and "map_of (clients l) key = Some c \<Longrightarrow> (key, p) \<in> bucket_refs (l, pend) \<and> length (buckets l') = length (buckets l)"
proof -
  have "limiter_ok l'" using limiter_ok_enter [OF assms(1), of new key now] assms(2) by simp
  then show "bucket_refs (l', (key, p) # pend) \<subseteq> insert (key, p) (bucket_refs (l, pend))"
    using assms
    by (auto simp: bucket_refs_map_of Allow_enter_def update_conv' Let_def split: option.splits if_splits)
qed (use assms in \<open>auto simp: bucket_refs_map_of Allow_enter_def Let_def split: option.splits\<close>)

lemma conc_ok_step:
  assumes "limiter_conc new allow v s s'" and "visits v" and "conc_ok s"
  shows "conc_ok s'"
  using assms
proof (induction rule: limiter_conc.induct)
  case (enter key now l p l' pend)
  have ok: "limiter_ok l" using enter.prems by (simp add: conc_ok_def)
  have own: "owned (length (buckets l)) (bucket_refs (l, pend))" using enter.prems by (simp add: conc_ok_def)
  have "owned (length (buckets l')) (bucket_refs (l', (key, p) # pend))"
  proof (cases "map_of (clients l) key")
    case None
    from bucket_refs_enter(2) [OF ok enter.hyps None] owned_insert_fresh [OF own, of key]
    show ?thesis using owned_mono [OF _ bucket_refs_enter(1) [OF ok enter.hyps]] by simp
  next
    case (Some c)
    note old = bucket_refs_enter(3) [OF ok enter.hyps Some, of pend]
    then have "bucket_refs (l', (key, p) # pend) \<subseteq> bucket_refs (l, pend)"
      using bucket_refs_enter(1) [OF ok enter.hyps, of pend] by blast
    with old show ?thesis by (intro owned_mono [OF own]) simp_all
  qed
  moreover have "limiter_ok l'" using limiter_ok_enter [OF ok, of new key now] enter.hyps by simp
  ultimately show ?case by (simp add: conc_ok_def)
next
  case (take_token key p pend now l ok l')
  then have "bucket_refs (l', remove1 (key, p) pend) \<subseteq> bucket_refs (l, pend)"
    by (auto simp: bucket_refs_def Allow_take_def split: prod.splits dest: notin_set_remove1)
  moreover have "limiter_ok l' \<longleftrightarrow> limiter_ok l" "length (buckets l') = length (buckets l)"
    using take_token.hyps(2) limiter_ok_take [of allow p now l]
    by (auto simp: Allow_take_def split: prod.splits)
  ultimately show ?case using take_token.prems by (auto simp: conc_ok_def intro: owned_mono)
next
  case (tick l pend now)
  then have ok: "limiter_ok l" "visits v" by (simp_all add: conc_ok_def)
  then have "bucket_refs (cleanup_tick v now l, pend) \<subseteq> bucket_refs (l, pend)"
    by (auto simp: bucket_refs_def cleanup_clients)
  with limiter_ok_cleanup [OF ok] tick.prems show ?case by (auto simp: conc_ok_def intro: owned_mono)
qed

text \<open>C16: No interleaving mixes up buckets. However the critical sections, the token requests that
  follow them and the cleanup of several goroutines interleave, every pointer that is held, by the
  table or by a request in flight, points to an existing bucket, and two holders of the same bucket
  serve the same client.\<close>

theorem interleaving_safe:
  assumes "(limiter_conc new allow v)\<^sup>*\<^sup>* (New_Limiter r b, []) (l, pend)" and "visits v"
    and "(k, p) \<in> bucket_refs (l, pend)" and "(k', p) \<in> bucket_refs (l, pend)"
  shows "k = k' \<and> p < length (buckets l)"
proof -
  have "conc_ok (l, pend)" using assms(1)
  proof (induction rule: rtranclp_induct)
    case base
    show ?case by (simp add: conc_ok_def bucket_refs_def New_Limiter_def limiter_ok_def owned_def)
  next
    case (step s s')
    then show ?case using conc_ok_step assms(2) by blast
  qed
  with assms(3,4) show ?thesis unfolding conc_ok_def owned_def by auto
qed

text \<open>A request holds its pointer across a cleanup that evicts its client, while the next request of the
  same client gets a new bucket.\<close>

abbreviation evicted_in_flight :: "(int \<times> go_time) limiter" where
  "evicted_in_flight \<equiv> cleanup_tick rev (20 * minute) (snd (Allow_enter toy_new ''a'' 0 (New_Limiter 1 2)))"

theorem interleaving_safe_witness:
  "1 < length (buckets (snd (Allow_enter toy_new ''a'' (20 * minute) evicted_in_flight)))"
proof -
  let ?step = "limiter_conc toy_new (toy_allow second 2) rev" and ?l0 = "New_Limiter 1 2 :: (int \<times> go_time) limiter"
  let ?l1 = "snd (Allow_enter toy_new ''a'' 0 ?l0)" and ?l3 = "snd (Allow_enter toy_new ''a'' (20 * minute) evicted_in_flight)"
  have "?step (?l0, []) (?l1, [(''a'', 0)])"
    by (rule limiter_conc.enter [where now = 0]) (simp add: Allow_enter_def New_Limiter_def Let_def)
  moreover have "?step (?l1, [(''a'', 0)]) (evicted_in_flight, [(''a'', 0)])" by (rule limiter_conc.tick)
  moreover have "?step (evicted_in_flight, [(''a'', 0)]) (?l3, [(''a'', 1), (''a'', 0)])"
    by (rule limiter_conc.enter [where now = "20 * minute"])
      (simp add: Allow_enter_def New_Limiter_def cleanup_tick_def Let_def)
  ultimately have "?step\<^sup>*\<^sup>* (?l0, []) (?l3, [(''a'', 1), (''a'', 0)])" by simp
  from interleaving_safe [OF this, of "''a''" 1 "''a''"] show ?thesis by (simp add: bucket_refs_def)
qed

end
