(* ===== verification/Waf_Manager.thy ===== *)
theory Waf_Manager
  imports Store
begin

text \<open>
  \<^verbatim>\<open>internal/waf/manager.go\<close>: the compiled engines and their rebuilding. Coraza's compiler
  (\<open>coraza.NewWAF\<close> over the embedded rule set) is the parameter \<open>newWAF\<close>, from the text of the
  directives to an engine or an error message.
\<close>

definition newline :: string where
  "newline = [CHR 0x0A]"

definition baseDirectives :: string where
  "baseDirectives = newline @ ''Include @coraza.conf-recommended'' @ newline @
     ''Include @crs-setup.conf.example'' @ newline @ ''Include @owasp_crs/*.conf'' @ newline"

record 'waf manager =
  engines :: "WAFMode \<rightharpoonup> 'waf"

datatype reload_error = BuildBlocking string | BuildDetection string

definition NewManager :: "'waf manager" where
  "NewManager = \<lparr>engines = Map.empty\<rparr>"

definition directives_of :: "string \<Rightarrow> string \<Rightarrow> string" where
  "directives_of custom engineMode =
     baseDirectives @ (if TrimSpace custom \<noteq> [] then newline @ custom else []) @
     newline @ ''SecRuleEngine '' @ engineMode @ newline"

definition build :: "(string \<Rightarrow> string + 'waf) \<Rightarrow> string \<Rightarrow> string \<Rightarrow> string + 'waf" where
  "build newWAF custom engineMode = newWAF (directives_of custom engineMode)"

definition Manager_Reload ::
  "(string \<Rightarrow> string + 'waf) \<Rightarrow> string list \<Rightarrow> 'waf manager \<Rightarrow> (reload_error + unit) \<times> 'waf manager" where
  "Manager_Reload newWAF customDirectives m =
     (let custom = Join customDirectives newline
      in case build newWAF custom ''On'' of
           Inl e \<Rightarrow> (Inl (BuildBlocking e), m)
         | Inr on \<Rightarrow>
             (case build newWAF custom ''DetectionOnly'' of
                Inl e \<Rightarrow> (Inl (BuildDetection e), m)
              | Inr detect \<Rightarrow> (Inr (), m\<lparr>engines := [WAFModeOn \<mapsto> on, WAFModeDetection \<mapsto> detect]\<rparr>)))"

definition Engine :: "WAFMode \<Rightarrow> 'waf manager \<Rightarrow> 'waf option" where
  "Engine mode m = engines m mode"

lemmas [reload_defs] = directives_of_def build_def Manager_Reload_def Engine_def

section \<open>Facts\<close>

lemma waf_modes_distinct [simp]:
  "WAFModeOn \<noteq> WAFModeDetection" "WAFModeDetection \<noteq> WAFModeOn" "WAFModeOff \<noteq> WAFModeOn"
  "WAFModeOff \<noteq> WAFModeDetection" "WAFModeOn \<noteq> WAFModeOff" "WAFModeDetection \<noteq> WAFModeOff"
  by (simp_all add: waf_modes)

interpretation waf_reload: atomic_reload "Manager_Reload newWAF"
proof (unfold_locales, goal_cases)
  case (1 c s)
  then show ?case by (auto simp: Manager_Reload_def Let_def split: sum.splits)
next
  case (2 c s t)
  show ?case by (auto simp: Manager_Reload_def Let_def split: sum.splits)
next
  case (3 c s t)
  then show ?case by (auto simp: Manager_Reload_def Let_def split: sum.splits)
qed

lemma Manager_Reload_ok_iff:
  "fst (Manager_Reload newWAF ds m) = Inr () \<longleftrightarrow>
     (\<exists>on det. build newWAF (Join ds newline) ''On'' = Inr on \<and>
               build newWAF (Join ds newline) ''DetectionOnly'' = Inr det)"
  by (auto simp: Manager_Reload_def Let_def split: sum.splits)

text \<open>The text of a mode in the directives, and the engines a compilation gives.\<close>

definition engine_word :: "WAFMode \<Rightarrow> string" where
  "engine_word mode = (if mode = WAFModeOn then ''On'' else ''DetectionOnly'')"

definition compiled :: "(string \<Rightarrow> string + 'waf) \<Rightarrow> string list \<Rightarrow> 'waf manager \<Rightarrow> bool" where
  "compiled newWAF ds mgr \<longleftrightarrow> dom (engines mgr) = {WAFModeOn, WAFModeDetection} \<and>
     (\<forall>mode e. Engine mode mgr = Some e \<longrightarrow> newWAF (directives_of (Join ds newline) (engine_word mode)) = Inr e)"

lemma Manager_Reload_compiled: "Manager_Reload newWAF ds m = (Inr u, m') \<Longrightarrow> compiled newWAF ds m'"
  by (auto simp: Manager_Reload_def compiled_def engine_word_def build_def Engine_def Let_def split: sum.splits if_splits)

text \<open>The state of a manager that has been reloaded any number of times: nothing before the first
  success, both engines and no other after it.\<close>

definition manager_ok :: "'waf manager \<Rightarrow> bool" where
  "manager_ok m \<longleftrightarrow> engines m = Map.empty \<or> dom (engines m) = {WAFModeOn, WAFModeDetection}"

lemma manager_ok_New [simp]: "manager_ok NewManager"
  by (simp add: manager_ok_def NewManager_def)

lemma manager_ok_Reload: "manager_ok m \<Longrightarrow> manager_ok (snd (Manager_Reload newWAF ds m))"
  by (auto simp: manager_ok_def Manager_Reload_def Let_def split: sum.splits)

lemma Engine_off: "manager_ok m \<Longrightarrow> Engine WAFModeOff m = None"
  by (auto simp: manager_ok_def Engine_def) (metis domIff insert_iff singletonD waf_modes_distinct(3,4))

section \<open>Properties\<close>

text \<open>C18: A bad custom rule never takes the engines down. A reload either compiles both engines from the
  recommended configuration, the rule set and the same custom text, differing only in the engine mode
  that is set last, and installs exactly these two; or it reports which of the two failed first and
  leaves the manager as it was. Mode "off" has no engine either way.\<close>

theorem Reload_all_or_nothing:
  assumes "Manager_Reload newWAF ds m = (res, m')" and "manager_ok m"
  shows "(case res of
      Inr _ \<Rightarrow> newWAF (directives_of (Join ds newline) ''On'') = Inr (the (Engine WAFModeOn m')) \<and>
               newWAF (directives_of (Join ds newline) ''DetectionOnly'') = Inr (the (Engine WAFModeDetection m')) \<and>
               dom (engines m') = {WAFModeOn, WAFModeDetection}
    | Inl (BuildBlocking e) \<Rightarrow> newWAF (directives_of (Join ds newline) ''On'') = Inl e \<and> m' = m
    | Inl (BuildDetection e) \<Rightarrow> (\<exists>on. newWAF (directives_of (Join ds newline) ''On'') = Inr on) \<and>
               newWAF (directives_of (Join ds newline) ''DetectionOnly'') = Inl e \<and> m' = m) \<and>
    Engine WAFModeOff m' = None"
proof -
  have "Engine WAFModeOff m' = None"
    using Engine_off [OF manager_ok_Reload [OF assms(2), of newWAF ds]] assms(1) by simp
  then show ?thesis
    using assms(1) by (auto simp: Manager_Reload_def build_def Engine_def Let_def split: sum.splits if_splits)
qed

text \<open>An engine is its text; a text with the word "bad" in it does not compile.\<close>

fun has_prefix_somewhere :: "string \<Rightarrow> string \<Rightarrow> bool" where
  "has_prefix_somewhere p [] \<longleftrightarrow> p = []"
| "has_prefix_somewhere p (c # cs) \<longleftrightarrow> take (length p) (c # cs) = p \<or> has_prefix_somewhere p cs"

definition text_waf :: "string \<Rightarrow> string + string" where
  "text_waf s = (if has_prefix_somewhere ''bad'' s then Inl ''syntax'' else Inr s)"

lemma TrimSpace_bad: "TrimSpace ''bad'' = ''bad''"
  by (rule TrimSpace_graphic) (simp_all add: graphic_def)

lemma text_waf_bad: "text_waf (directives_of (Join [''bad''] newline) ''On'') = Inl ''syntax''"
  by (simp add: text_waf_def directives_of_def Join_def TrimSpace_bad baseDirectives_def newline_def)

theorem Reload_all_or_nothing_witness:
  "snd (Manager_Reload text_waf [''bad''] NewManager) = NewManager"
  using Reload_all_or_nothing [OF prod.collapse [symmetric] manager_ok_New, of text_waf "[''bad'']"] text_waf_bad
  by (auto split: sum.splits reload_error.splits)

text \<open>After any sequence of reloads the engines in force are those of the last list of custom
  directives that compiled, whatever was tried before or after it.\<close>

lemma engines_after_reloads:
  "fold (\<lambda>ds m. snd (Manager_Reload newWAF ds m)) history m =
     (case find (\<lambda>ds. fst (Manager_Reload newWAF ds m) = Inr ()) (rev history) of
        None \<Rightarrow> m | Some ds \<Rightarrow> snd (Manager_Reload newWAF ds m))"
  by (rule waf_reload.after_reloads)

end
