(* ===== verification/Waf_Inspect.thy ===== *)
theory Waf_Inspect
  imports Store Http
begin

text \<open>
  \<^verbatim>\<open>internal/waf/middleware.go\<close>: the inspection of one request. The Coraza engine is the parameter
  \<open>cz\<close>, a record with the operations of its transactions on an abstract transaction state. The
  handler behind the middleware is a function from the request it gets to what it does with its
  response writer, and whether it then panics (as a reverse proxy does when the client is gone).
\<close>

section \<open>Coraza's interface\<close>

record interruption =
  it_RuleID :: int
  it_Status :: int

record matched_rule =
  mr_Message :: string
  mr_Severity :: int
  mr_ID :: int

record ('waf, 'tx) coraza =
  NewTransaction :: "'waf \<Rightarrow> 'tx"
  ProcessConnection :: "string \<Rightarrow> int \<Rightarrow> string \<Rightarrow> int \<Rightarrow> 'tx \<Rightarrow> 'tx"
  ProcessURI :: "string \<Rightarrow> string \<Rightarrow> string \<Rightarrow> 'tx \<Rightarrow> 'tx"
  AddRequestHeader :: "string \<Rightarrow> string \<Rightarrow> 'tx \<Rightarrow> 'tx"
  SetServerName :: "string \<Rightarrow> 'tx \<Rightarrow> 'tx"
  ProcessRequestHeaders :: "'tx \<Rightarrow> interruption option \<times> 'tx"
  IsRequestBodyAccessible :: "'tx \<Rightarrow> bool"
  ReadRequestBodyFrom :: "string \<Rightarrow> 'tx \<Rightarrow> (interruption option \<times> string option \<times> string) \<times> 'tx"
  RequestBodyReader :: "'tx \<Rightarrow> string + string"
  ProcessRequestBody :: "'tx \<Rightarrow> (interruption option \<times> string option) \<times> 'tx"
  ProcessResponseHeaders :: "int \<Rightarrow> string \<Rightarrow> 'tx \<Rightarrow> 'tx"
  ProcessLogging :: "'tx \<Rightarrow> 'tx"
  MatchedRules :: "'tx \<Rightarrow> matched_rule list"
  TxID :: "'tx \<Rightarrow> string"
  Interruption :: "'tx \<Rightarrow> interruption option"
  TxClose :: "'tx \<Rightarrow> 'tx"

text \<open>\<open>ReadRequestBodyFrom\<close> gives the interruption, the error, and what is left of the body after it has
  read what it wants.\<close>

section \<open>Addresses\<close>

definition splitHostPort :: "string \<Rightarrow> string \<times> int" where
  "splitHostPort addr =
     (case LastIndexByte addr CHR '':'' of
        None \<Rightarrow> (addr, 0)
      | Some idx \<Rightarrow> (take idx addr, fst (Atoi (drop (Suc idx) addr))))"

definition splitHost :: "string \<Rightarrow> string" where
  "splitHost addr = fst (splitHostPort addr)"

section \<open>The request phases\<close>

type_synonym header_order = "(string \<times> string list) list \<Rightarrow> (string \<times> string list) list"

text \<open>Everything Coraza is told before the header phase: the connection, the URI, the headers in the
  order \<open>v\<close> in which Go ranges over the header map, the host and the transfer encodings.\<close>

definition feed_request :: "('waf, 'tx) coraza \<Rightarrow> header_order \<Rightarrow> http_request \<Rightarrow> 'tx \<Rightarrow> 'tx" where
  "feed_request cz v r tx =
     (let (cl, port) = splitHostPort (r_RemoteAddr r);
          tx = ProcessConnection cz cl port [] 0 tx;
          tx = ProcessURI cz (r_URLString r) (r_Method r) (r_Proto r) tx;
          tx = fold (\<lambda>(k, vs). fold (AddRequestHeader cz k) vs) (v (r_Header r)) tx;
          tx = (if r_Host r \<noteq> [] then SetServerName cz (r_Host r) (AddRequestHeader cz ''Host'' (r_Host r) tx) else tx)
      in fold (AddRequestHeader cz ''Transfer-Encoding'') (r_TransferEncoding r) tx)"

text \<open>The result: an interruption, an error, the request with its body handed back, the transaction.\<close>

definition processRequestPhase ::
  "('waf, 'tx) coraza \<Rightarrow> header_order \<Rightarrow> http_request \<Rightarrow> 'tx
   \<Rightarrow> interruption option \<times> string option \<times> http_request \<times> 'tx" where
  "processRequestPhase cz v r tx =
     (case ProcessRequestHeaders cz (feed_request cz v r tx) of
        (Some it, tx) \<Rightarrow> (Some it, None, r, tx)
      | (None, tx) \<Rightarrow>
          (case (if IsRequestBodyAccessible cz tx then r_Body r else None) of
             None \<Rightarrow> (case ProcessRequestBody cz tx of ((it, err), tx) \<Rightarrow> (it, err, r, tx))
           | Some body \<Rightarrow>
               (case ReadRequestBodyFrom cz body tx of
                  ((_, Some e, _), tx) \<Rightarrow> (None, Some e, r, tx)
                | ((Some it, None, _), tx) \<Rightarrow> (Some it, None, r, tx)
                | ((None, None, rest), tx) \<Rightarrow>
                    (case RequestBodyReader cz tx of
                       Inl e \<Rightarrow> (None, Some e, r, tx)
                     | Inr buffered \<Rightarrow>
                         (case ProcessRequestBody cz tx of
                            ((it, err), tx) \<Rightarrow> (it, err, r\<lparr>r_Body := Some (buffered @ rest)\<rparr>, tx))))))"

section \<open>Events\<close>

text \<open>\<^verbatim>\<open>Total Score:\s*(\d+)\<close>: the first place where the text matches, and the digits found there. White
  space and digits have no byte in common, so the greedy match never backtracks.\<close>

definition re_space :: "char \<Rightarrow> bool" where
  "re_space c \<longleftrightarrow> c \<in> {CHR 0x09, CHR 0x0A, CHR 0x0C, CHR 0x0D, CHR 0x20}"

definition score_here :: "string \<Rightarrow> string option" where
  "score_here s =
     (if take 12 s \<noteq> ''Total Score:'' then None
      else let ds = takeWhile is_digit (dropWhile re_space (drop 12 s)) in if ds = [] then None else Some ds)"

fun anomalyScoreRE :: "string \<Rightarrow> string option" where
  "anomalyScoreRE [] = None"
| "anomalyScoreRE (c # cs) = (case score_here (c # cs) of None \<Rightarrow> anomalyScoreRE cs | Some ds \<Rightarrow> Some ds)"

definition unset :: int where "unset = 99"

record summary =
  matched :: "int list"
  bestSev :: int
  bestMsg :: string
  bestID :: int
  anomaly :: int

definition no_summary :: summary where
  "no_summary = \<lparr>matched = [], bestSev = unset, bestMsg = [], bestID = 0, anomaly = 0\<rparr>"

definition note_anomaly :: "matched_rule \<Rightarrow> summary \<Rightarrow> summary" where
  "note_anomaly mr s =
     (if anomaly s = 0
      then case anomalyScoreRE (mr_Message mr) of None \<Rightarrow> s | Some ds \<Rightarrow> s\<lparr>anomaly := fst (Atoi ds)\<rparr>
      else s)"

definition note_detection :: "matched_rule \<Rightarrow> summary \<Rightarrow> summary" where
  "note_detection mr s =
     (if mr_Severity mr < 0 then s
      else let s = (if mr_ID mr \<noteq> 0 then s\<lparr>matched := matched s @ [mr_ID mr]\<rparr> else s)
           in if mr_Severity mr < bestSev s
              then s\<lparr>bestSev := mr_Severity mr, bestMsg := mr_Message mr, bestID := mr_ID mr\<rparr> else s)"

definition summarize :: "matched_rule list \<Rightarrow> summary" where
  "summarize mrs = fold (\<lambda>mr s. note_detection mr (note_anomaly mr s)) mrs no_summary"

definition buildEvent ::
  "('waf, 'tx) coraza \<Rightarrow> 'tx \<Rightarrow> http_request \<Rightarrow> string \<Rightarrow> bool \<Rightarrow> int \<Rightarrow> go_time \<Rightarrow> event option" where
  "buildEvent cz tx r domain blocked status now =
     (let s = summarize (MatchedRules cz tx)
      in if \<not> blocked \<and> matched s = [] then None
         else Some \<lparr>ev_ID = 0, ev_Timestamp = now, ev_TxID = TxID cz tx, ev_Domain = domain,
                ev_ClientIP = splitHost (r_RemoteAddr r), ev_Method = r_Method r, ev_URI = r_RequestURI r,
                ev_Blocked = blocked, ev_StatusCode = status,
                ev_RuleID = (if bestID s = 0
                             then case Interruption cz tx of None \<Rightarrow> 0 | Some it \<Rightarrow> it_RuleID it
                             else bestID s),
                ev_Message = bestMsg s, ev_Severity = (if bestSev s \<noteq> unset then bestSev s else 0),
                ev_AnomalyScore = anomaly s, ev_MatchedRules = matched s\<rparr>)"

definition statusFromInterruption :: "interruption \<Rightarrow> int" where
  "statusFromInterruption it = (if 0 < it_Status it then it_Status it else StatusForbidden)"

section \<open>The status recorder\<close>

record statusRecorder =
  rec_w :: writer
  rec_status :: int
  rec_wroteHeader :: bool

definition rec_WriteHeader :: "int \<Rightarrow> statusRecorder \<Rightarrow> statusRecorder" where
  "rec_WriteHeader code s =
     (let s = (if \<not> rec_wroteHeader s then s\<lparr>rec_status := code, rec_wroteHeader := True\<rparr> else s)
      in s\<lparr>rec_w := WriteHeader code (rec_w s)\<rparr>)"

definition rec_Write :: "string \<Rightarrow> statusRecorder \<Rightarrow> statusRecorder" where
  "rec_Write b s =
     (let s = (if \<not> rec_wroteHeader s then s\<lparr>rec_wroteHeader := True\<rparr> else s)
      in s\<lparr>rec_w := Write b (rec_w s)\<rparr>)"

definition rec_Flush :: "statusRecorder \<Rightarrow> statusRecorder" where
  "rec_Flush s = s\<lparr>rec_w := Flush (rec_w s)\<rparr>"

fun rec_op :: "wop \<Rightarrow> statusRecorder \<Rightarrow> statusRecorder" where
  "rec_op (SetHeaderOp k v) s = s\<lparr>rec_w := Header_Set k v (rec_w s)\<rparr>"
| "rec_op (WriteHeaderOp c) s = rec_WriteHeader c s"
| "rec_op (WriteOp b) s = rec_Write b s"
| "rec_op FlushOp s = rec_Flush s"

text \<open>A handler's writes up to the first one that panics.\<close>

fun rec_run :: "wop list \<Rightarrow> statusRecorder \<Rightarrow> statusRecorder" where
  "rec_run [] s = s"
| "rec_run (x # xs) s = (if w_panicked (rec_w s) then s else rec_run xs (rec_op x s))"

section \<open>The middleware\<close>

type_synonym upstream = "http_request \<Rightarrow> wop list \<times> bool"

record 'tx outcome =
  o_writer :: writer
  o_upstream :: "http_request option"
  o_events :: "event list"
  o_panicked :: bool
  o_tx :: 'tx

text \<open>The deferred function: it runs on every way out of the handler, a panic included.\<close>

definition finish_request ::
  "('waf, 'tx) coraza \<Rightarrow> 'tx \<Rightarrow> http_request \<Rightarrow> string \<Rightarrow> bool \<Rightarrow> int \<Rightarrow> go_time \<Rightarrow> event list \<times> 'tx" where
  "finish_request cz tx r domain blocked status now =
     (let tx = ProcessLogging cz tx
      in (case buildEvent cz tx r domain blocked status now of None \<Rightarrow> [] | Some e \<Rightarrow> [e], TxClose cz tx))"

definition WAF_Middleware ::
  "('waf, 'tx) coraza \<Rightarrow> header_order \<Rightarrow> 'waf \<Rightarrow> upstream \<Rightarrow> string \<Rightarrow> go_time \<Rightarrow> http_request \<Rightarrow> writer
   \<Rightarrow> 'tx outcome" where
  "WAF_Middleware cz v engine upstream domain now r w =
     (let finish = (\<lambda>tx r blocked status w called panicked.
            case finish_request cz tx r domain blocked status now of (evs, tx) \<Rightarrow>
              \<lparr>o_writer = w, o_upstream = called, o_events = evs, o_panicked = panicked \<or> w_panicked w, o_tx = tx\<rparr>)
      in case processRequestPhase cz v r (NewTransaction cz engine) of
           (_, Some _, r, tx) \<Rightarrow>
             finish tx r False StatusBadGateway (Http_Error ''request processing error'' StatusBadGateway w) None False
         | (Some it, None, r, tx) \<Rightarrow>
             (let status = statusFromInterruption it in finish tx r True status (WriteHeader status w) None False)
         | (None, None, r, tx) \<Rightarrow>
             (case upstream r of (ops, panics) \<Rightarrow>
                let rec = rec_run ops \<lparr>rec_w = w, rec_status = StatusOK, rec_wroteHeader = False\<rparr>
                in if panics \<or> w_panicked (rec_w rec)
                   then finish tx r False StatusOK (rec_w rec) (Some r) True
                   else finish (ProcessResponseHeaders cz (rec_status rec) (r_Proto r) tx) r False (rec_status rec)
                          (rec_w rec) (Some r) False))"

section \<open>What an event reports\<close>

definition is_detection :: "matched_rule \<Rightarrow> bool" where
  "is_detection mr \<longleftrightarrow> 0 \<le> mr_Severity mr"

definition scores :: "matched_rule list \<Rightarrow> int list" where
  "scores mrs = map (\<lambda>ds. fst (Atoi ds)) (List.map_filter (\<lambda>mr. anomalyScoreRE (mr_Message mr)) mrs)"

lemma summarize_Nil [simp]: "summarize [] = no_summary"
  by (simp add: summarize_def)

lemma summarize_snoc [simp]: "summarize (mrs @ [mr]) = note_detection mr (note_anomaly mr (summarize mrs))"
  by (simp add: summarize_def)

lemma note_anomaly_simps [simp]:
  "matched (note_anomaly mr s) = matched s" "bestSev (note_anomaly mr s) = bestSev s"
  "bestMsg (note_anomaly mr s) = bestMsg s" "bestID (note_anomaly mr s) = bestID s"
  by (simp_all add: note_anomaly_def split: option.splits)

lemma anomaly_note_detection [simp]: "anomaly (note_detection mr s) = anomaly s"
  by (simp add: note_detection_def Let_def)

lemma matched_summarize:
  "matched (summarize mrs) = filter (\<lambda>i. i \<noteq> 0) (map mr_ID (filter is_detection mrs))"
  by (induction mrs rule: rev_induct) (auto simp: no_summary_def note_detection_def is_detection_def Let_def)

lemma anomaly_summarize:
  "anomaly (summarize mrs) = (case find (\<lambda>n. n \<noteq> 0) (scores mrs) of None \<Rightarrow> 0 | Some n \<Rightarrow> n)"
proof (induction mrs rule: rev_induct)
  case Nil
  show ?case by (simp add: no_summary_def scores_def map_filter_simps)
next
  case (snoc mr mrs)
  have snoc_scores: "scores (mrs @ [mr]) = scores mrs @
      (case anomalyScoreRE (mr_Message mr) of None \<Rightarrow> [] | Some ds \<Rightarrow> [fst (Atoi ds)])"
    by (simp add: scores_def map_filter_def split: option.splits)
  show ?case
    using snoc.IH find_SomeD [of "\<lambda>n. n \<noteq> 0" "scores mrs"]
    by (auto simp: snoc_scores find_append note_anomaly_def split: option.splits)
qed

text \<open>The rule an event names is the first of the most severe detections (a lower number is more
  severe).\<close>

definition worst_first :: "matched_rule list \<Rightarrow> matched_rule \<Rightarrow> bool" where
  "worst_first mrs mr \<longleftrightarrow> (\<exists>before after. mrs = before @ mr # after \<and>
     (\<forall>x \<in> set before. mr_Severity mr < mr_Severity x) \<and> (\<forall>x \<in> set after. mr_Severity mr \<le> mr_Severity x))"

lemma worst_first_snoc_keep:
  assumes "worst_first mrs mr" and "mr_Severity mr \<le> mr_Severity x"
  shows "worst_first (mrs @ [x]) mr"
proof -
  from assms(1) obtain before after where "mrs = before @ mr # after"
    "\<forall>y \<in> set before. mr_Severity mr < mr_Severity y" "\<forall>y \<in> set after. mr_Severity mr \<le> mr_Severity y"
    unfolding worst_first_def by blast
  with assms(2) show ?thesis
    unfolding worst_first_def by (intro exI [of _ before] exI [of _ "after @ [x]"]) simp
qed

lemma worst_first_snoc_new: "\<forall>y \<in> set mrs. mr_Severity x < mr_Severity y \<Longrightarrow> worst_first (mrs @ [x]) x"
  unfolding worst_first_def by (intro exI [of _ mrs] exI [of _ "[]"]) simp

lemma worst_first_le: "worst_first mrs mr \<Longrightarrow> x \<in> set mrs \<Longrightarrow> mr_Severity mr \<le> mr_Severity x"
  unfolding worst_first_def by force

definition graded :: "matched_rule list \<Rightarrow> matched_rule list" where
  "graded mrs = filter (\<lambda>mr. is_detection mr \<and> mr_Severity mr < unset) mrs"

lemma bestSev_le: "bestSev (summarize mrs) \<le> unset"
  by (induction mrs rule: rev_induct) (auto simp: no_summary_def note_detection_def Let_def)

lemma best_summarize:
  "(graded mrs = [] \<longrightarrow> bestSev (summarize mrs) = unset \<and> bestMsg (summarize mrs) = [] \<and> bestID (summarize mrs) = 0) \<and>
   (graded mrs \<noteq> [] \<longrightarrow> (\<exists>mr. worst_first (graded mrs) mr \<and> bestSev (summarize mrs) = mr_Severity mr \<and>
      bestMsg (summarize mrs) = mr_Message mr \<and> bestID (summarize mrs) = mr_ID mr))"
proof (induction mrs rule: rev_induct)
  case Nil
  show ?case by (simp add: no_summary_def graded_def)
next
  case (snoc x mrs)
  define s where "s = summarize mrs"
  show ?case
  proof (cases "is_detection x \<and> mr_Severity x < bestSev s")
    case True
    have worse: "mr_Severity x < mr_Severity y" if "y \<in> set (graded mrs)" for y
      using snoc.IH that True worst_first_le by (fastforce simp: s_def)
    have "mr_Severity x < unset" using True bestSev_le [of mrs] by (simp add: s_def)
    then have "graded (mrs @ [x]) = graded mrs @ [x]" using True by (simp add: graded_def)
    then show ?thesis
      using True worst_first_snoc_new [of "graded mrs" x] worse
      by (auto simp: note_detection_def Let_def is_detection_def simp flip: s_def)
  next
    case False
    then have same: "bestSev (summarize (mrs @ [x])) = bestSev s" "bestMsg (summarize (mrs @ [x])) = bestMsg s"
      "bestID (summarize (mrs @ [x])) = bestID s"
      by (auto simp: note_detection_def Let_def is_detection_def simp flip: s_def)
    show ?thesis
    proof (cases "graded mrs = []")
      case True
      then have "graded (mrs @ [x]) = []" using False snoc.IH by (simp add: s_def graded_def)
      with True snoc.IH same show ?thesis by (simp add: s_def)
    next
      case graded: False
      with snoc.IH obtain mr where mr: "worst_first (graded mrs) mr" "bestSev s = mr_Severity mr"
        "bestMsg s = mr_Message mr" "bestID s = mr_ID mr" by (auto simp: s_def)
      have "worst_first (graded (mrs @ [x])) mr"
        using mr(1,2) False worst_first_snoc_keep [OF mr(1), of x] by (auto simp: graded_def)
      moreover have "graded (mrs @ [x]) \<noteq> []" using graded by (simp add: graded_def)
      ultimately show ?thesis using mr same by auto
    qed
  qed
qed

text \<open>C14: An event says what the engine found. A request is reported exactly when it was blocked or a
  detection rule with an identifier matched; the event lists these identifiers in order, carries the
  first score other than zero that a message states, and names the first of the most severe
  detections with its message and severity, or, when no detection has a severity of its own, the rule
  that interrupted the transaction, no message, and severity 0. (The comment on the field in models.go
  calls it the rule that caused the interruption; that holds in the second case only.)\<close>

theorem buildEvent_spec:
  "case buildEvent cz tx r domain blocked status now of
     None \<Rightarrow> \<not> blocked \<and> filter (\<lambda>mr. is_detection mr \<and> mr_ID mr \<noteq> 0) (MatchedRules cz tx) = []
   | Some e \<Rightarrow>
       (blocked \<or> filter (\<lambda>mr. is_detection mr \<and> mr_ID mr \<noteq> 0) (MatchedRules cz tx) \<noteq> []) \<and>
       ev_Blocked e = blocked \<and> ev_StatusCode e = status \<and> ev_Domain e = domain \<and>
       ev_ClientIP e = splitHost (r_RemoteAddr r) \<and>
       ev_MatchedRules e = map mr_ID (filter (\<lambda>mr. is_detection mr \<and> mr_ID mr \<noteq> 0) (MatchedRules cz tx)) \<and>
       ev_AnomalyScore e = (case find (\<lambda>n. n \<noteq> 0) (scores (MatchedRules cz tx)) of None \<Rightarrow> 0 | Some n \<Rightarrow> n) \<and>
       (if graded (MatchedRules cz tx) = []
        then ev_Severity e = 0 \<and> ev_Message e = [] \<and>
          ev_RuleID e = (case Interruption cz tx of None \<Rightarrow> 0 | Some it \<Rightarrow> it_RuleID it)
        else \<exists>mr. worst_first (graded (MatchedRules cz tx)) mr \<and> ev_Severity e = mr_Severity mr \<and>
          ev_Message e = mr_Message mr \<and>
          ev_RuleID e = (if mr_ID mr = 0 then (case Interruption cz tx of None \<Rightarrow> 0 | Some it \<Rightarrow> it_RuleID it)
                         else mr_ID mr))"
proof -
  have ids: "matched (summarize mrs) = map mr_ID (filter (\<lambda>mr. is_detection mr \<and> mr_ID mr \<noteq> 0) mrs)" for mrs
    by (simp add: matched_summarize filter_map comp_def conj_commute)
  have sev: "mr_Severity mr \<noteq> unset" if "worst_first (graded mrs) mr" for mr mrs
  proof -
    from that have "mr \<in> set (graded mrs)" unfolding worst_first_def by force
    then show ?thesis by (simp add: graded_def)
  qed
  show ?thesis
  proof (cases "graded (MatchedRules cz tx) = []")
    case True
    with best_summarize [of "MatchedRules cz tx"] show ?thesis
      by (auto simp: buildEvent_def Let_def ids anomaly_summarize)
  next
    case False
    with best_summarize [of "MatchedRules cz tx"] obtain mr where mr: "worst_first (graded (MatchedRules cz tx)) mr"
      and best: "bestSev (summarize (MatchedRules cz tx)) = mr_Severity mr"
        "bestMsg (summarize (MatchedRules cz tx)) = mr_Message mr" "bestID (summarize (MatchedRules cz tx)) = mr_ID mr"
      by blast
    show ?thesis
      using False sev [OF mr] mr
      by (auto simp: buildEvent_def Let_def ids anomaly_summarize best intro!: exI [of _ mr])
  qed
qed

section \<open>What reaches the upstream\<close>

lemma finish_events:
  "fst (finish_request cz tx r domain blocked status now) =
     (case buildEvent cz (ProcessLogging cz tx) r domain blocked status now of None \<Rightarrow> [] | Some e \<Rightarrow> [e])"
  by (simp add: finish_request_def Let_def)

lemma finish_event_fields:
  "e \<in> set (fst (finish_request cz tx r domain blocked status now)) \<Longrightarrow>
     ev_Blocked e = blocked \<and> ev_StatusCode e = status"
  by (auto simp: finish_events buildEvent_def Let_def split: option.splits if_splits)

lemma finish_blocked: "\<exists>e. fst (finish_request cz tx r domain True status now) = [e]"
  by (simp add: finish_events buildEvent_def Let_def)

lemma middleware_blocked:
  assumes "processRequestPhase cz v r (NewTransaction cz engine) = (Some it, None, r', tx)"
  shows "o_upstream (WAF_Middleware cz v engine upstream domain now r w) = None"
    and "o_writer (WAF_Middleware cz v engine upstream domain now r w) = WriteHeader (statusFromInterruption it) w"
    and "o_events (WAF_Middleware cz v engine upstream domain now r w) =
      fst (finish_request cz tx r' domain True (statusFromInterruption it) now)"
  using assms by (simp_all add: WAF_Middleware_def Let_def split: prod.splits)

lemma middleware_failed:
  assumes "processRequestPhase cz v r (NewTransaction cz engine) = (it, Some e, r', tx)"
  shows "o_upstream (WAF_Middleware cz v engine upstream domain now r w) = None"
    and "o_writer (WAF_Middleware cz v engine upstream domain now r w) =
      Http_Error ''request processing error'' StatusBadGateway w"
    and "o_events (WAF_Middleware cz v engine upstream domain now r w) =
      fst (finish_request cz tx r' domain False StatusBadGateway now)"
  using assms by (cases it; simp add: WAF_Middleware_def Let_def split: prod.splits)+

definition recorder_start :: "writer \<Rightarrow> statusRecorder" where
  "recorder_start w = \<lparr>rec_w = w, rec_status = StatusOK, rec_wroteHeader = False\<rparr>"

definition recorded :: "upstream \<Rightarrow> http_request \<Rightarrow> writer \<Rightarrow> statusRecorder" where
  "recorded upstream r w = rec_run (fst (upstream r)) (recorder_start w)"

lemma middleware_passed:
  assumes "processRequestPhase cz v r (NewTransaction cz engine) = (None, None, r', tx)"
  shows "o_upstream (WAF_Middleware cz v engine upstream domain now r w) = Some r'"
    and "o_writer (WAF_Middleware cz v engine upstream domain now r w) = rec_w (recorded upstream r' w)"
    and "o_panicked (WAF_Middleware cz v engine upstream domain now r w) \<longleftrightarrow>
      snd (upstream r') \<or> w_panicked (rec_w (recorded upstream r' w))"
    and "o_events (WAF_Middleware cz v engine upstream domain now r w) =
      fst (finish_request cz
        (if snd (upstream r') \<or> w_panicked (rec_w (recorded upstream r' w)) then tx
         else ProcessResponseHeaders cz (rec_status (recorded upstream r' w)) (r_Proto r') tx) r' domain False
        (if snd (upstream r') \<or> w_panicked (rec_w (recorded upstream r' w)) then StatusOK
         else rec_status (recorded upstream r' w)) now)"
  using assms by (simp_all add: WAF_Middleware_def recorded_def recorder_start_def Let_def split: prod.splits)

lemma upstream_called:
  assumes "processRequestPhase cz v r (NewTransaction cz engine) = (it, err, r', tx)"
  shows "o_upstream (WAF_Middleware cz v engine upstream domain now r w) =
    (if it = None \<and> err = None then Some r' else None)"
  using assms middleware_blocked(1) middleware_failed(1) middleware_passed(1) by (cases it; cases err) auto

text \<open>C2: A blocked request never reaches the upstream. When the engine interrupts a request, the handler
  behind the middleware is not called and nothing is written but the status of the interruption (403
  if it has none), and exactly one event is submitted, marked as blocked and with that status. When
  the inspection fails, the handler is not called either and the client gets 502.\<close>

theorem blocked_never_reaches_upstream:
  assumes "processRequestPhase cz v r (NewTransaction cz engine) = (it, err, r', tx)"
    and "it \<noteq> None \<or> err \<noteq> None"
    and "out = WAF_Middleware cz v engine upstream domain now r w"
    and "w_status w = None" and "\<not> w_panicked w"
  shows "o_upstream out = None \<and>
    (if err = None
     then (\<exists>e. o_events out = [e] \<and> ev_Blocked e \<and> ev_StatusCode e = statusFromInterruption (the it)) \<and>
       w_body (o_writer out) = w_body w \<and>
       (200 \<le> statusFromInterruption (the it) \<and> statusFromInterruption (the it) \<le> 999 \<longrightarrow>
          final_status (o_writer out) = statusFromInterruption (the it))
     else final_status (o_writer out) = StatusBadGateway \<and> (\<forall>e \<in> set (o_events out). \<not> ev_Blocked e))"
proof (cases err)
  case None
  with assms(2) obtain i where it: "it = Some i" by auto
  note b = middleware_blocked [OF assms(1) [unfolded None it], of upstream domain now w]
  obtain e where "o_events out = [e]" using finish_blocked b(3) assms(3) by metis
  moreover from this have "e \<in> set (fst (finish_request cz tx r' domain True (statusFromInterruption i) now))"
    using b(3) assms(3) by simp
  then have "ev_Blocked e = True \<and> ev_StatusCode e = statusFromInterruption i" by (rule finish_event_fields)
  ultimately show ?thesis
    using b(1,2) assms(3-5) by (auto simp: None it http_defs)
next
  case (Some m)
  note f = middleware_failed [OF assms(1) [unfolded Some], of upstream domain now w]
  show ?thesis
    using f(1,2) assms(3-5) finish_event_fields f(3) by (fastforce simp: Some http_defs)
qed

text \<open>An engine that denies one path and, in any body, looks at the first four bytes.\<close>

record toy_tx =
  t_uri :: string
  t_buffer :: string
  t_hit :: "interruption option"

definition toy_deny :: interruption where
  "toy_deny = \<lparr>it_RuleID = 100001, it_Status = 0\<rparr>"

definition toy_coraza :: "(string, toy_tx) coraza" where
  "toy_coraza = \<lparr>NewTransaction = (\<lambda>_. \<lparr>t_uri = [], t_buffer = [], t_hit = None\<rparr>),
     ProcessConnection = (\<lambda>_ _ _ _ tx. tx), ProcessURI = (\<lambda>u _ _ tx. tx\<lparr>t_uri := u\<rparr>),
     AddRequestHeader = (\<lambda>_ _ tx. tx), SetServerName = (\<lambda>_ tx. tx),
     ProcessRequestHeaders = (\<lambda>tx. if t_uri tx = ''/admin'' then (Some toy_deny, tx\<lparr>t_hit := Some toy_deny\<rparr>) else (None, tx)),
     IsRequestBodyAccessible = (\<lambda>_. True),
     ReadRequestBodyFrom = (\<lambda>b tx. ((None, None, drop 4 b), tx\<lparr>t_buffer := take 4 b\<rparr>)),
     RequestBodyReader = (\<lambda>tx. Inr (t_buffer tx)), ProcessRequestBody = (\<lambda>tx. ((None, None), tx)),
     ProcessResponseHeaders = (\<lambda>_ _ tx. tx), ProcessLogging = (\<lambda>tx. tx),
     MatchedRules = (\<lambda>tx. [\<lparr>mr_Message = ''Scanner'', mr_Severity = 4, mr_ID = 913100\<rparr>]),
     TxID = (\<lambda>_. ''tx1''), Interruption = t_hit, TxClose = (\<lambda>tx. tx)\<rparr>"

definition sample_request :: "string \<Rightarrow> string option \<Rightarrow> http_request" where
  "sample_request uri body = \<lparr>r_Method = ''POST'', r_Path = uri, r_URLString = uri, r_RequestURI = uri,
     r_Proto = ''HTTP/1.1'', r_Host = ''example.com'', r_RemoteAddr = ''10.0.0.1:5000'', r_Header = [],
     r_TransferEncoding = [], r_Cookies = [], r_Query = [], r_TLS = False, r_Body = body\<rparr>"

lemma toy_blocks:
  "processRequestPhase toy_coraza rev (sample_request ''/admin'' None) (NewTransaction toy_coraza e) =
     (Some toy_deny, None, sample_request ''/admin'' None,
      \<lparr>t_uri = ''/admin'', t_buffer = [], t_hit = Some toy_deny\<rparr>)"
  by (simp add: processRequestPhase_def feed_request_def toy_coraza_def sample_request_def Let_def
      split: prod.splits)

lemma toy_passes:
  "processRequestPhase toy_coraza rev (sample_request ''/x'' (Some ''hello world'')) (NewTransaction toy_coraza e) =
     (None, None, sample_request ''/x'' (Some ''hello world''),
      \<lparr>t_uri = ''/x'', t_buffer = ''hell'', t_hit = None\<rparr>)"
  by (simp add: processRequestPhase_def feed_request_def toy_coraza_def sample_request_def Let_def
      split: prod.splits)

theorem buildEvent_spec_witness:
  "map_option (\<lambda>e. (ev_Severity e, ev_Message e, ev_RuleID e, ev_MatchedRules e))
     (buildEvent toy_coraza (NewTransaction toy_coraza ''e'') (sample_request ''/x'' None) ''example.com'' False 200 0) =
   Some (4, ''Scanner'', 913100, [913100])"
proof -
  let ?tx = "NewTransaction toy_coraza ''e''"
  have m: "MatchedRules toy_coraza ?tx = [\<lparr>mr_Message = ''Scanner'', mr_Severity = 4, mr_ID = 913100\<rparr>]"
    by (simp add: toy_coraza_def)
  have g: "graded (MatchedRules toy_coraza ?tx) = MatchedRules toy_coraza ?tx"
    unfolding m by (simp add: graded_def is_detection_def unset_def)
  have w: "worst_first [x] mr \<Longrightarrow> mr = x" for x mr
    unfolding worst_first_def by (auto simp: Cons_eq_append_conv)
  show ?thesis
    using buildEvent_spec [where cz = toy_coraza and tx = ?tx and r = "sample_request ''/x'' None" and domain = "''example.com''"
        and blocked = False and status = 200 and now = 0]
    unfolding g by (auto simp: m is_detection_def split: option.splits dest!: w)
qed

theorem blocked_never_reaches_upstream_witness:
  "o_upstream (WAF_Middleware toy_coraza rev ''e'' (\<lambda>r. ([WriteOp ''hello''], False)) ''example.com'' 0
     (sample_request ''/admin'' None) new_writer) = None"
  using blocked_never_reaches_upstream [OF toy_blocks _ refl, of new_writer] by (simp add: new_writer_def)

text \<open>What Coraza promises about bodies: what it has read off the body is what its reader gives back.\<close>

definition buffers :: "('waf, 'tx) coraza \<Rightarrow> bool" where
  "buffers cz \<longleftrightarrow> (\<forall>body tx rest tx'. ReadRequestBodyFrom cz body tx = ((None, None, rest), tx') \<longrightarrow>
     (\<exists>p. body = p @ rest \<and> (\<forall>buf. RequestBodyReader cz tx' = Inr buf \<longrightarrow> buf = p)))"

lemma processRequestPhase_request:
  assumes "buffers cz" and "processRequestPhase cz v r tx = (it, err, r', tx')"
  shows "r' = r"
proof -
  obtain i0 tx0 where p0: "ProcessRequestHeaders cz (feed_request cz v r tx) = (i0, tx0)" by fastforce
  show ?thesis
  proof (cases "i0 = None \<and> IsRequestBodyAccessible cz tx0 \<and> r_Body r \<noteq> None")
    case False
    with assms(2) p0 show ?thesis
      by (auto simp: processRequestPhase_def split: option.splits prod.splits if_splits)
  next
    case True
    then obtain body where body: "r_Body r = Some body" by auto
    obtain i1 e1 rest tx1 where p1: "ReadRequestBodyFrom cz body tx0 = ((i1, e1, rest), tx1)"
      by (metis prod.collapse)
    show ?thesis
    proof (cases "i1 = None \<and> e1 = None")
      case False
      with assms(2) p0 p1 True body show ?thesis
        by (auto simp: processRequestPhase_def split: option.splits)
    next
      case None: True
      with assms(1) p1 have "buf @ rest = body" if "RequestBodyReader cz tx1 = Inr buf" for buf
        using that unfolding buffers_def by metis
      with assms(2) p0 p1 True None body show ?thesis
        by (auto simp: processRequestPhase_def split: sum.splits prod.splits)
    qed
  qed
qed

text \<open>C17: A request that passes reaches the upstream unchanged. The handler behind the middleware is
  called exactly when the engine neither interrupts nor fails, and then it gets the very request the
  client sent, its body intact although Coraza has read some of it.\<close>

theorem passed_request_intact:
  assumes "buffers cz" and "processRequestPhase cz v r (NewTransaction cz engine) = (it, err, r', tx)"
  shows "o_upstream (WAF_Middleware cz v engine upstream domain now r w) =
    (if it = None \<and> err = None then Some r else None)"
  using upstream_called [OF assms(2)] processRequestPhase_request [OF assms] by simp

lemma toy_buffers: "buffers toy_coraza"
  by (simp add: buffers_def toy_coraza_def)

theorem passed_request_intact_witness:
  "o_upstream (WAF_Middleware toy_coraza rev ''e'' (\<lambda>r. ([WriteOp ''hello''], False)) ''example.com'' 0
      (sample_request ''/x'' (Some ''hello world'')) new_writer) = Some (sample_request ''/x'' (Some ''hello world''))"
  using passed_request_intact [OF toy_buffers toy_passes] by simp

section \<open>What the status recorder records\<close>

lemma rec_op_w: "rec_w (rec_op x s) = writer_op x (rec_w s)"
  by (cases x) (simp_all add: rec_WriteHeader_def rec_Write_def rec_Flush_def Let_def)

lemma rec_run_w: "rec_w (rec_run xs s) = fold writer_op xs (rec_w s)"
  by (induction xs arbitrary: s) (auto simp: rec_op_w fold_writer_panicked writer_op_panicked)

lemma rec_op_wrote: "rec_wroteHeader s \<Longrightarrow> rec_status (rec_op x s) = rec_status s \<and> rec_wroteHeader (rec_op x s)"
  by (cases x) (simp_all add: rec_WriteHeader_def rec_Write_def rec_Flush_def Let_def)

lemma rec_run_wrote: "rec_wroteHeader s \<Longrightarrow> rec_status (rec_run xs s) = rec_status s"
  by (induction xs arbitrary: s) (auto simp: rec_op_wrote)

text \<open>A handler that starts with a final status or with the body, or does nothing.\<close>

fun starts_final :: "wop list \<Rightarrow> bool" where
  "starts_final [] \<longleftrightarrow> True"
| "starts_final (WriteHeaderOp c # _) \<longleftrightarrow> 100 \<le> c \<and> c \<le> 999 \<and> \<not> informational c"
| "starts_final (WriteOp _ # _) \<longleftrightarrow> True"
| "starts_final (FlushOp # _) \<longleftrightarrow> False"
| "starts_final (SetHeaderOp _ _ # ops) \<longleftrightarrow> starts_final ops"

definition recorder_fresh :: "statusRecorder \<Rightarrow> bool" where
  "recorder_fresh s \<longleftrightarrow> rec_status s = StatusOK \<and> w_status (rec_w s) = None \<and> \<not> w_panicked (rec_w s) \<and> \<not> rec_wroteHeader s"

lemma recorder_first_write:
  assumes "recorder_fresh s" and "starts_final (x # xs)"
  shows "recorder_fresh (rec_op x s) \<or>
    rec_wroteHeader (rec_op x s) \<and> w_status (rec_w (rec_op x s)) = Some (rec_status (rec_op x s))"
  using assms by (cases x) (simp_all add: recorder_fresh_def rec_WriteHeader_def rec_Write_def http_defs)

lemma recorder_exact:
  assumes "starts_final ops" and "recorder_fresh s"
  shows "rec_status (rec_run ops s) = final_status (rec_w (rec_run ops s))"
  using assms
proof (induction ops arbitrary: s)
  case Nil
  then show ?case by (simp add: recorder_fresh_def final_status_def)
next
  case (Cons x xs)
  have run: "rec_run (x # xs) s = rec_run xs (rec_op x s)" using Cons.prems(2) by (simp add: recorder_fresh_def)
  show ?case
  proof (cases "recorder_fresh (rec_op x s)")
    case True
    with Cons.prems have "starts_final xs"
      by (cases x) (auto simp: recorder_fresh_def rec_WriteHeader_def rec_Write_def http_defs)
    with Cons.IH [OF _ True] run show ?thesis by simp
  next
    case False
    then have wrote: "rec_wroteHeader (rec_op x s)" "w_status (rec_w (rec_op x s)) = Some (rec_status (rec_op x s))"
      using recorder_first_write Cons.prems by blast+
    show ?thesis unfolding run
      using rec_run_wrote [OF wrote(1)] fold_writer_status_stable [OF wrote(2)] by (simp add: rec_run_w final_status_def)
  qed
qed

text \<open>C34: The recorded status is the one the client got, for blocked, failed and passed requests alike,
  when interruptions ask for a final status and the handler behind the middleware returns and begins
  its response with a final status or with the body.\<close>

theorem recorded_status_is_sent:
  assumes "out = WAF_Middleware cz v engine upstream domain now r w" and "e \<in> set (o_events out)"
    and "w_status w = None" and "\<not> w_panicked w"
    and "processRequestPhase cz v r (NewTransaction cz engine) = (it, err, r', tx)"
    and "\<forall>i. it = Some i \<longrightarrow> 200 \<le> statusFromInterruption i \<and> statusFromInterruption i \<le> 999"
    and "starts_final (fst (upstream r'))" and "\<not> snd (upstream r')" and "\<not> o_panicked out"
  shows "ev_StatusCode e = final_status (o_writer out)"
proof (cases err)
  case (Some m)
  note f = middleware_failed [OF assms(5) [unfolded Some], of upstream domain now w]
  from assms(2) have "ev_StatusCode e = StatusBadGateway"
    unfolding assms(1) f(3) by (rule finish_event_fields [THEN conjunct2])
  with f(2) assms(1,3,4) show ?thesis by (simp add: http_defs)
next
  case None
  show ?thesis
  proof (cases it)
    case (Some i)
    note b = middleware_blocked [OF assms(5) [unfolded None Some], of upstream domain now w]
    from assms(2) have "ev_StatusCode e = statusFromInterruption i"
      unfolding assms(1) b(3) by (rule finish_event_fields [THEN conjunct2])
    with b(2) assms(1,3,4,6) Some show ?thesis by (simp add: http_defs)
  next
    case pass: None
    note p = middleware_passed [OF assms(5) [unfolded None pass], of upstream domain now w]
    have "\<not> w_panicked (rec_w (recorded upstream r' w))" using assms(1,9) p(3) by simp
    then have "e \<in> set (fst (finish_request cz (ProcessResponseHeaders cz (rec_status (recorded upstream r' w))
        (r_Proto r') tx) r' domain False (rec_status (recorded upstream r' w)) now))"
      using assms(2,8) unfolding assms(1) p(4) by simp
    then have "ev_StatusCode e = rec_status (recorded upstream r' w)"
      by (rule finish_event_fields [THEN conjunct2])
    moreover have "recorder_fresh (recorder_start w)"
      using assms(3,4) by (simp add: recorder_fresh_def recorder_start_def)
    ultimately show ?thesis using p(2) recorder_exact [OF assms(7)] assms(1) by (simp add: recorded_def)
  qed
qed

lemma toy_event: "\<exists>e. fst (finish_request toy_coraza tx r domain blocked status now) = [e]"
  by (simp add: finish_events buildEvent_def Let_def matched_summarize toy_coraza_def is_detection_def)

definition ok_upstream :: upstream where
  "ok_upstream r = ([WriteHeaderOp 404, WriteOp ''gone''], False)"

theorem recorded_status_is_sent_witness:
  "\<exists>e. o_events (WAF_Middleware toy_coraza rev ''e'' ok_upstream ''example.com'' 0
      (sample_request ''/x'' (Some ''hello world'')) new_writer) = [e] \<and> ev_StatusCode e = 404"
proof -
  let ?out = "WAF_Middleware toy_coraza rev ''e'' ok_upstream ''example.com'' 0
      (sample_request ''/x'' (Some ''hello world'')) new_writer"
  note p = middleware_passed [OF toy_passes, where upstream = ok_upstream and engine = "''e''"]
  obtain e where e: "o_events ?out = [e]"
    unfolding p(4) using toy_event by blast
  have w: "final_status (o_writer ?out) = 404"
    by (simp add: p(2) recorded_def ok_upstream_def rec_run_w recorder_start_def http_defs new_writer_def del: rec_run.simps)
  have np: "\<not> o_panicked ?out"
    by (simp add: p(3) recorded_def ok_upstream_def rec_run_w recorder_start_def http_defs new_writer_def del: rec_run.simps)
  have "ev_StatusCode e = final_status (o_writer ?out)"
    by (rule recorded_status_is_sent [OF refl _ _ _ toy_passes])
      (use e np in \<open>simp_all add: new_writer_def ok_upstream_def informational_def\<close>)
  with e w show ?thesis by simp
qed

text \<open>An informational status is recorded as if it were the answer. When the upstream sends, say, 103
  Early Hints before its final status, the event carries 103, although the client gets the final
  status.\<close>

lemma informational_recorded_as_final:
  assumes "processRequestPhase cz v r (NewTransaction cz engine) = (None, None, r', tx)"
    and "upstream r' = (WriteHeaderOp c # WriteHeaderOp d # ops, False)"
    and "informational c" and "200 \<le> d" and "d \<le> 999" and "w_status w = None" and "\<not> w_panicked w"
    and "out = WAF_Middleware cz v engine upstream domain now r w" and "\<not> w_panicked (o_writer out)"
    and "e \<in> set (o_events out)"
  shows "ev_StatusCode e = c \<and> final_status (o_writer out) = d"
proof -
  note p = middleware_passed [OF assms(1), of upstream domain now w]
  define s where "s = rec_op (WriteHeaderOp c) (recorder_start w)"
  have "rec_wroteHeader s" "rec_status s = c" by (simp_all add: s_def recorder_start_def rec_WriteHeader_def)
  moreover have "recorded upstream r' w = rec_run (WriteHeaderOp d # ops) s"
    using assms(2,7) by (simp add: recorded_def s_def recorder_start_def)
  ultimately have status: "rec_status (recorded upstream r' w) = c" using rec_run_wrote [of s] by (simp del: rec_run.simps)
  have "\<not> w_panicked (rec_w (recorded upstream r' w))" using assms(8,9) p(2) by simp
  then have "e \<in> set (fst (finish_request cz (ProcessResponseHeaders cz c (r_Proto r') tx) r' domain False c now))"
    using assms(2,10) unfolding assms(8) p(4) status by simp
  then have "ev_StatusCode e = c" by (rule finish_event_fields [THEN conjunct2])
  moreover have "w_status (WriteHeader d (WriteHeader c w)) = Some d"
    using assms(3-7) by (auto simp: http_defs)
  then have "final_status (rec_w (recorded upstream r' w)) = d"
    using fold_writer_status_stable [of _ d ops] assms(2)
    by (simp add: recorded_def rec_run_w recorder_start_def final_status_def del: rec_run.simps)
  ultimately show ?thesis using p(2) assms(8) by simp
qed

definition hint_upstream :: upstream where
  "hint_upstream r = ([WriteHeaderOp 103, WriteHeaderOp 200, WriteOp ''hi''], False)"

lemma informational_recorded_as_final_witness:
  "\<exists>e. o_events (WAF_Middleware toy_coraza rev ''e'' hint_upstream ''example.com'' 0
      (sample_request ''/x'' (Some ''hello world'')) new_writer) = [e] \<and> ev_StatusCode e = 103"
proof -
  let ?out = "WAF_Middleware toy_coraza rev ''e'' hint_upstream ''example.com'' 0
      (sample_request ''/x'' (Some ''hello world'')) new_writer"
  note p = middleware_passed [OF toy_passes, where upstream = hint_upstream and engine = "''e''"]
  obtain e where e: "o_events ?out = [e]"
    unfolding p(4) using toy_event by blast
  have "\<not> w_panicked (o_writer ?out)"
    by (simp add: p(2) recorded_def hint_upstream_def rec_run_w recorder_start_def http_defs new_writer_def del: rec_run.simps)
  then have "ev_StatusCode e = 103 \<and> final_status (o_writer ?out) = 200"
    by (intro informational_recorded_as_final [OF toy_passes hint_upstream_def _ _ _ _ _ refl])
      (use e in \<open>simp_all add: new_writer_def informational_def\<close>)
  with e show ?thesis by simp
qed

end
