(* ===== verification/Auth.thy ===== *)
theory Auth
  imports Store_Queries Http Go_Hmac
begin

text \<open>
  \<^verbatim>\<open>internal/auth\<close>: the single administrator account and its stateless, signed session cookies. The
  bcrypt package is a parameter: \<open>gen\<close> for \<open>GenerateFromPassword\<close> (a hash or an error) and \<open>cmp\<close> for
  \<open>CompareHashAndPassword\<close> succeeding. What \<open>rand.Read\<close> delivers is a parameter too.
\<close>

definition cookieName :: string where "cookieName = ''wafportal_session''"
definition sessionDuration :: duration where "sessionDuration = 7 * 24 * hour"
definition keyUsername :: string where "keyUsername = ''admin_username''"
definition keyHash :: string where "keyHash = ''admin_password_hash''"
definition keySecret :: string where "keySecret = ''session_secret''"

lemmas auth_keys = keyUsername_def keyHash_def keySecret_def

text \<open>What setting or changing a password may report, and what creating the account may.\<close>

datatype password_error = PwDb db_error | PwBcrypt string | ErrInvalidCredentials | ErrPasswordTooShort

datatype auth_error =
  AuthDb db_error | AuthHex | AuthSecretRand string | AuthRand string | AuthPassword password_error

record authenticator =
  secret :: string
  GeneratedPassword :: string

section \<open>Creating the account\<close>

definition loadOrCreateSecret :: "string + string \<Rightarrow> db \<Rightarrow> (auth_error + string) \<times> db" where
  "loadOrCreateSecret rnd d =
     (case GetSetting keySecret d of
        (Inl e, d) \<Rightarrow> (Inl (AuthDb e), d)
      | (Inr v, d) \<Rightarrow>
          if v \<noteq> None \<and> v \<noteq> Some []
          then ((case hex_decode (the v) of None \<Rightarrow> Inl AuthHex | Some s \<Rightarrow> Inr s), d)
          else (case rnd of
                  Inl e \<Rightarrow> (Inl (AuthSecretRand e), d)
                | Inr buf \<Rightarrow>
                    (case SetSetting keySecret (hex_encode buf) d of
                       (Inl e, d) \<Rightarrow> (Inl (AuthDb e), d)
                     | (Inr _, d) \<Rightarrow> (Inr buf, d))))"

definition randomPassword :: "string + string \<Rightarrow> auth_error + string" where
  "randomPassword rnd = (case rnd of Inl e \<Rightarrow> Inl (AuthRand e) | Inr buf \<Rightarrow> Inr (b64_encode buf))"

definition setPassword :: "(string \<Rightarrow> string + string) \<Rightarrow> string \<Rightarrow> db \<Rightarrow> (password_error + unit) \<times> db" where
  "setPassword gen password d =
     (case gen password of
        Inl e \<Rightarrow> (Inl (PwBcrypt e), d)
      | Inr h \<Rightarrow> (case SetSetting keyHash h d of
                    (Inl e, d) \<Rightarrow> (Inl (PwDb e), d)
                  | (Inr _, d) \<Rightarrow> (Inr (), d)))"

text \<open>The name the account gets: the configured one, else the stored one, else \<open>admin\<close>. A failing
  read counts as no stored name.\<close>

definition chooseUsername :: "string \<Rightarrow> db \<Rightarrow> string \<times> db" where
  "chooseUsername bootstrapUser d =
     (let username = TrimSpace bootstrapUser
      in if username = []
         then (case GetSetting keyUsername d of
                 (Inr (Some v), d) \<Rightarrow> (if v \<noteq> [] then v else ''admin'', d)
               | (_, d) \<Rightarrow> (''admin'', d))
         else (username, d))"

definition New ::
  "(string \<Rightarrow> string + string) \<Rightarrow> string + string \<Rightarrow> string + string \<Rightarrow> string \<Rightarrow> string \<Rightarrow> db
   \<Rightarrow> (auth_error + authenticator) \<times> db" where
  "New gen rndSecret rndPw bootstrapUser bootstrapPassword d =
     (case loadOrCreateSecret rndSecret d of
        (Inl e, d) \<Rightarrow> (Inl e, d)
      | (Inr sec, d) \<Rightarrow>
         (case chooseUsername bootstrapUser d of (username, d) \<Rightarrow>
          (case SetSetting keyUsername username d of
             (Inl e, d) \<Rightarrow> (Inl (AuthDb e), d)
           | (Inr _, d) \<Rightarrow>
              (case GetSetting keyHash d of
                 (Inl e, d) \<Rightarrow> (Inl (AuthDb e), d)
               | (Inr stored, d) \<Rightarrow>
                  if bootstrapPassword \<noteq> []
                  then (case setPassword gen bootstrapPassword d of
                          (Inl e, d) \<Rightarrow> (Inl (AuthPassword e), d)
                        | (Inr _, d) \<Rightarrow> (Inr \<lparr>secret = sec, GeneratedPassword = []\<rparr>, d))
                  else if stored = None
                  then (case randomPassword rndPw of
                          Inl e \<Rightarrow> (Inl e, d)
                        | Inr pw \<Rightarrow>
                           (case setPassword gen pw d of
                              (Inl e, d) \<Rightarrow> (Inl (AuthPassword e), d)
                            | (Inr _, d) \<Rightarrow> (Inr \<lparr>secret = sec, GeneratedPassword = pw\<rparr>, d)))
                  else (Inr \<lparr>secret = sec, GeneratedPassword = []\<rparr>, d)))))"

section \<open>Credentials\<close>

text \<open>\<^verbatim>\<open>v, _, _ := st.GetSetting(k)\<close>: the empty string when the key is missing or unreadable.\<close>

definition setting_or_empty :: "string \<Rightarrow> db \<Rightarrow> string \<times> db" where
  "setting_or_empty k d = (case GetSetting k d of (Inr (Some v), d) \<Rightarrow> (v, d) | (_, d) \<Rightarrow> ([], d))"

definition Username :: "db \<Rightarrow> string \<times> db" where
  "Username d = setting_or_empty keyUsername d"

definition Check :: "(string \<Rightarrow> string \<Rightarrow> bool) \<Rightarrow> string \<Rightarrow> string \<Rightarrow> db \<Rightarrow> bool \<times> db" where
  "Check cmp username password d =
     (case setting_or_empty keyUsername d of (storedUser, d) \<Rightarrow>
       (case GetSetting keyHash d of
          (Inr (Some h), d) \<Rightarrow>
            (let userOK = ConstantTimeCompare username storedUser = 1; passOK = cmp h password
             in (userOK \<and> passOK, d))
        | (_, d) \<Rightarrow> (False, d)))"

definition ChangePassword ::
  "(string \<Rightarrow> string + string) \<Rightarrow> (string \<Rightarrow> string \<Rightarrow> bool) \<Rightarrow> string \<Rightarrow> string \<Rightarrow> db
   \<Rightarrow> (password_error + unit) \<times> db" where
  "ChangePassword gen cmp current nxt d =
     (case Username d of (u, d) \<Rightarrow>
       (case Check cmp u current d of (ok, d) \<Rightarrow>
          if \<not> ok then (Inl ErrInvalidCredentials, d)
          else if length nxt < 8 then (Inl ErrPasswordTooShort, d)
          else setPassword gen nxt d))"

section \<open>Session cookies\<close>

definition sign :: "authenticator \<Rightarrow> string \<Rightarrow> string" where
  "sign a payload = hex_encode (hmac_sha256 (secret a) payload)"

definition unix :: "go_time \<Rightarrow> int" where
  "unix t = t div second"

definition session_payload :: "string \<Rightarrow> go_time \<Rightarrow> string" where
  "session_payload username now = username @ ''|'' @ FormatInt (unix (now + sessionDuration))"

definition session_token :: "authenticator \<Rightarrow> string \<Rightarrow> go_time \<Rightarrow> string" where
  "session_token a username now =
     (let payload = session_payload username now in b64_encode payload @ ''.'' @ sign a payload)"

definition IssueCookie :: "authenticator \<Rightarrow> http_request \<Rightarrow> string \<Rightarrow> go_time \<Rightarrow> cookie" where
  "IssueCookie a r username now =
     \<lparr>c_Name = cookieName, c_Value = session_token a username now, c_Path = ''/'',
      c_Expires = Some (now + sessionDuration), c_MaxAge = 0, c_HttpOnly = True, c_Secure = r_TLS r,
      c_SameSite = SameSiteStrictMode\<rparr>"

definition Clear :: cookie where
  "Clear = \<lparr>c_Name = cookieName, c_Value = [], c_Path = ''/'', c_Expires = None, c_MaxAge = -1,
            c_HttpOnly = True, c_Secure = False, c_SameSite = SameSiteStrictMode\<rparr>"

definition verify_token :: "authenticator \<Rightarrow> string \<Rightarrow> go_time \<Rightarrow> string option" where
  "verify_token a v now =
     (case Cut v CHR ''.'' of (encoded, sig, found) \<Rightarrow>
        if \<not> found then None
        else case b64_decode encoded of
               None \<Rightarrow> None
             | Some payload \<Rightarrow>
                 if ConstantTimeCompare sig (sign a payload) \<noteq> 1 then None
                 else (case Cut payload CHR ''|'' of (username, expStr, found) \<Rightarrow>
                         if \<not> found then None
                         else (case ParseInt expStr of (exp, err) \<Rightarrow>
                                 if err \<noteq> None \<or> exp < unix now then None else Some username)))"

definition verify :: "authenticator \<Rightarrow> http_request \<Rightarrow> go_time \<Rightarrow> string option" where
  "verify a r now = (case Request_Cookie r cookieName of None \<Rightarrow> None | Some v \<Rightarrow> verify_token a v now)"

definition CurrentUser :: "authenticator \<Rightarrow> http_request \<Rightarrow> go_time \<Rightarrow> string option" where
  "CurrentUser a r now = verify a r now"

section \<open>The middleware\<close>

definition unauthorized :: response where
  "unauthorized = \<lparr>rs_Status = StatusUnauthorized, rs_ContentType = Some ''application/json'',
     rs_Cookies = [], rs_Body = Some (JObj [(''error'', JStr ''authentication required'')])\<rparr>"

definition Middleware ::
  "authenticator \<Rightarrow> go_time \<Rightarrow> (http_request \<Rightarrow> 's \<Rightarrow> response \<times> 's) \<Rightarrow> http_request \<Rightarrow> 's \<Rightarrow> response \<times> 's" where
  "Middleware a now next_handler r s =
     (if verify a r now = None then (unauthorized, s) else next_handler r s)"

section \<open>Facts on tokens\<close>

lemma verify_token_parts:
  "CHR ''.'' \<notin> set enc \<Longrightarrow> verify_token a (enc @ CHR ''.'' # sig) now =
     (case b64_decode enc of
        None \<Rightarrow> None
      | Some payload \<Rightarrow>
          if sig \<noteq> sign a payload then None
          else (case Cut payload CHR ''|'' of (username, expStr, found) \<Rightarrow>
                  if \<not> found then None
                  else (case ParseInt expStr of (exp, err) \<Rightarrow>
                          if err \<noteq> None \<or> exp < unix now then None else Some username)))"
  by (simp add: verify_token_def cong: option.case_cong)

lemma verify_issued:
  "verify_token a (session_token a u t0) now =
     (case Cut (session_payload u t0) CHR ''|'' of (username, expStr, found) \<Rightarrow>
        if \<not> found then None
        else (case ParseInt expStr of (exp, err) \<Rightarrow>
                if err \<noteq> None \<or> exp < unix now then None else Some username))"
  using verify_token_parts [OF b64_encode_no_dot] by (simp add: session_token_def Let_def)

lemma unix_int64:
  assumes "0 \<le> t" and "t < 8000000000000000000000000000"
  shows "min_int64 \<le> unix t \<and> unix t \<le> max_int64"
proof -
  have "t div second \<le> 8000000000000000000000000000 div second"
    by (rule zdiv_mono1) (use assms in simp_all)
  moreover have "0 \<le> t div second" using assms(1) by simp
  ultimately show ?thesis by (simp add: unix_def)
qed

text \<open>A text with a bar in it is no number.\<close>

lemma uint_loop_bar: "CHR ''|'' \<in> set s \<Longrightarrow> snd (uint_loop n s) \<noteq> None"
proof (induction s arbitrary: n)
  case (Cons c s)
  then show ?case using digit_not_special [of c] by auto
qed simp

lemma split_sign_bar: "CHR ''|'' \<in> set s \<Longrightarrow> split_sign s = (b, t) \<Longrightarrow> CHR ''|'' \<in> set t"
  by (cases s) (auto split: if_splits)

lemma ParseInt_bar:
  assumes "CHR ''|'' \<in> set s"
  shows "snd (ParseInt s) \<noteq> None"
proof -
  obtain neg t where st: "split_sign s = (neg, t)" by fastforce
  from split_sign_bar [OF assms st] have "CHR ''|'' \<in> set t" .
  then have "snd (ParseUint t) \<noteq> None" using uint_loop_bar by (auto simp: ParseUint_def)
  then show ?thesis using ParseInt_okD [OF _ st] by argo
qed

section \<open>Properties of the sessions\<close>

lemma verify_fresh_session:
  assumes "CHR ''|'' \<notin> set u" and "0 \<le> t0" and "t0 < 7000000000000000000000000000"
    and "Request_Cookie r cookieName = Some (c_Value (IssueCookie a r0 u t0))"
  shows "verify a r now = (if unix now \<le> unix (t0 + sessionDuration) then Some u else None)"
proof -
  have "min_int64 \<le> unix (t0 + sessionDuration) \<and> unix (t0 + sessionDuration) \<le> max_int64"
    using assms(2,3) by (intro unix_int64) (simp_all add: sessionDuration_def)
  then have "ParseInt (FormatInt (unix (t0 + sessionDuration))) = (unix (t0 + sessionDuration), None)"
    by (intro ParseInt_FormatInt) auto
  moreover have "Cut (session_payload u t0) CHR ''|'' = (u, FormatInt (unix (t0 + sessionDuration)), True)"
    using Cut_append_hit [OF assms(1)] by (simp add: session_payload_def)
  ultimately have "verify_token a (session_token a u t0) now =
      (if unix now \<le> unix (t0 + sessionDuration) then Some u else None)"
    by (simp add: verify_issued)
  with assms(4) show ?thesis by (simp add: verify_def IssueCookie_def)
qed

text \<open>C8: A session cookie issued for a user name without a bar authenticates exactly that user, from
  the moment it is issued until the second its seven days end, and not after that.\<close>

theorem session_roundtrip:
  assumes "CHR ''|'' \<notin> set u" and "0 \<le> t0" and "t0 < 7000000000000000000000000000"
    and "Request_Cookie r cookieName = Some (c_Value (IssueCookie a r0 u t0))"
  shows "verify a r now = (if unix now \<le> unix (t0 + sessionDuration) then Some u else None)"
  using assms by (rule verify_fresh_session)

definition plain_request :: http_request where
  "plain_request = \<lparr>r_Method = ''GET'', r_Path = ''/'', r_URLString = ''/'', r_RequestURI = ''/'',
     r_Proto = ''HTTP/1.1'', r_Host = ''example.com'', r_RemoteAddr = ''10.0.0.1:5000'', r_Header = [],
     r_TransferEncoding = [], r_Cookies = [], r_Query = [], r_TLS = False, r_Body = None\<rparr>"

definition sample_auth :: authenticator where
  "sample_auth = \<lparr>secret = ''0123456789abcdef0123456789abcdef'', GeneratedPassword = []\<rparr>"

definition session_request :: "string \<Rightarrow> go_time \<Rightarrow> http_request" where
  "session_request u t0 = plain_request\<lparr>r_Cookies := [(cookieName, session_token sample_auth u t0)]\<rparr>"

lemma session_request_cookie:
  "Request_Cookie (session_request u t0) cookieName = Some (c_Value (IssueCookie sample_auth r0 u t0))"
  by (simp add: session_request_def Request_Cookie_def IssueCookie_def)

theorem session_roundtrip_witness:
  "verify sample_auth (session_request ''admin'' 0) 5 = Some ''admin'' \<and>
   verify sample_auth (session_request ''admin'' 0) (8 * 24 * hour) = None"
  using session_roundtrip [OF _ _ _ session_request_cookie, of "''admin''" 0]
  by (simp add: unix_def sessionDuration_def)

text \<open>C7: No cookie is accepted without a genuine signature: when a request authenticates as a user,
  its session cookie is the base64 text of a payload and, after the first dot, the HMAC-SHA256 of
  exactly that payload under the server's secret; the payload names the user before its first bar and
  an expiry time that has not passed.\<close>

theorem session_authentic:
  assumes "verify a r now = Some u"
  shows "\<exists>enc payload expStr e. Request_Cookie r cookieName = Some (enc @ ''.'' @ sign a payload) \<and>
    b64_decode enc = Some payload \<and> payload = u @ ''|'' @ expStr \<and>
    ParseInt expStr = (e, None) \<and> unix now \<le> e"
proof -
  from assms obtain v where v: "Request_Cookie r cookieName = Some v" and ok: "verify_token a v now = Some u"
    by (auto simp: verify_def split: option.splits)
  obtain enc sig found where cut: "Cut v CHR ''.'' = (enc, sig, found)" by (metis prod_cases3)
  with ok have found by (auto simp: verify_token_def split: if_splits)
  with cut have "Cut v CHR ''.'' = (enc, sig, True)" by simp
  then have split: "v = enc @ CHR ''.'' # sig" and nodot: "CHR ''.'' \<notin> set enc"
    by (auto dest: Cut_foundD)
  from ok obtain payload where dec: "b64_decode enc = Some payload" and sig: "sig = sign a payload"
    and rest: "(case Cut payload CHR ''|'' of (username, expStr, found) \<Rightarrow>
        if \<not> found then None
        else (case ParseInt expStr of (exp, err) \<Rightarrow>
          if err \<noteq> None \<or> exp < unix now then None else Some username)) = Some u"
    unfolding split verify_token_parts [OF nodot] by (auto split: option.splits if_splits)
  from rest obtain expStr e where "Cut payload CHR ''|'' = (u, expStr, True)"
    and e: "ParseInt expStr = (e, None)" "unix now \<le> e"
    by (auto split: prod.splits if_splits)
  then have "payload = u @ ''|'' @ expStr" using Cut_foundD by fastforce
  with v split dec sig e show ?thesis by auto
qed

theorem session_authentic_witness:
  "\<exists>enc payload expStr e. Request_Cookie (session_request ''admin'' 0) cookieName =
      Some (enc @ ''.'' @ sign sample_auth payload) \<and>
    b64_decode enc = Some payload \<and> payload = ''admin'' @ ''|'' @ expStr \<and>
    ParseInt expStr = (e, None) \<and> unix 5 \<le> e"
proof (rule session_authentic)
  show "verify sample_auth (session_request ''admin'' 0) 5 = Some ''admin''"
    using session_request_cookie [of "''admin''" 0 plain_request]
    by (simp add: verify_def IssueCookie_def verify_issued session_payload_def ParseInt_FormatInt
        sessionDuration_def unix_def Cut_append_hit [of "CHR ''|''" "''admin''", simplified])
qed

text \<open>C40: An administrator whose name contains a bar can never use a session: the cookie issued at
  login is rejected by every later request, because the name is cut at the first bar and the rest of
  the payload does not parse as a time.\<close>

theorem bar_in_username_locks_out:
  assumes "CHR ''|'' \<in> set u"
    and "Request_Cookie r cookieName = Some (c_Value (IssueCookie a r0 u t0))"
  shows "verify a r now = None"
proof -
  from assms(1) obtain u1 u2 where u: "u = u1 @ CHR ''|'' # u2" and "CHR ''|'' \<notin> set u1"
    by (metis split_list_first)
  then have "Cut (session_payload u t0) CHR ''|'' =
      (u1, u2 @ ''|'' @ FormatInt (unix (t0 + sessionDuration)), True)"
    using Cut_append_hit [of "CHR ''|''" u1] by (simp add: session_payload_def)
  moreover have "snd (ParseInt (u2 @ ''|'' @ FormatInt (unix (t0 + sessionDuration)))) \<noteq> None"
    by (rule ParseInt_bar) simp
  ultimately have "verify_token a (session_token a u t0) now = None"
    by (cases "ParseInt (u2 @ ''|'' @ FormatInt (unix (t0 + sessionDuration)))")
      (simp add: verify_issued)
  with assms(2) show ?thesis by (simp add: verify_def IssueCookie_def)
qed

theorem bar_in_username_locks_out_witness:
  "verify sample_auth (session_request ''ops|admin'' 0) 5 = None"
  using bar_in_username_locks_out [OF _ session_request_cookie, of "''ops|admin''"] by simp

section \<open>Properties of the account\<close>

lemma SetSetting_sound:
  "faults d = [] \<Longrightarrow> SetSetting k x d = (Inr (), d\<lparr>settings := (settings d)(k \<mapsto> x)\<rparr>)"
  by (simp add: SetSetting_def)

lemmas sound_settings = settings_kv.get_sound SetSetting_sound

definition stored_username :: "db \<Rightarrow> string" where
  "stored_username d = (case settings d keyUsername of None \<Rightarrow> [] | Some u \<Rightarrow> u)"

lemma Username_sound: "faults d = [] \<Longrightarrow> Username d = (stored_username d, d)"
  by (simp add: Username_def setting_or_empty_def sound_settings stored_username_def split: option.splits)

lemma Check_sound:
  "faults d = [] \<Longrightarrow> Check cmp u p d =
     (u = stored_username d \<and> (\<exists>h. settings d keyHash = Some h \<and> cmp h p), d)"
  by (simp add: Check_def setting_or_empty_def sound_settings stored_username_def Let_def split: option.splits)

lemma setPassword_sound:
  "faults d = [] \<Longrightarrow> setPassword gen p d =
     (case gen p of Inl e \<Rightarrow> (Inl (PwBcrypt e), d)
                  | Inr h \<Rightarrow> (Inr (), d\<lparr>settings := (settings d)(keyHash \<mapsto> h)\<rparr>))"
  by (simp add: setPassword_def sound_settings split: sum.splits)

lemma auth_keys_distinct [simp]:
  "keyUsername \<noteq> keyHash" "keyHash \<noteq> keyUsername" "keySecret \<noteq> keyHash" "keyHash \<noteq> keySecret"
  "keySecret \<noteq> keyUsername" "keyUsername \<noteq> keySecret"
  by (simp_all add: auth_keys)

lemma hex_encode_Nil_iff [simp]: "hex_encode s = [] \<longleftrightarrow> s = []"
  by (cases s) auto

lemma loadOrCreateSecret_stored:
  assumes "faults d = []" and "loadOrCreateSecret rnd d = (Inr sec, d')" and "rnd \<noteq> Inr []"
  shows "faults d' = [] \<and> (\<exists>v. settings d' keySecret = Some v \<and> v \<noteq> [] \<and> hex_decode v = Some sec) \<and>
    (\<forall>k. k \<noteq> keySecret \<longrightarrow> settings d' k = settings d k)"
  using assms
  by (auto simp: loadOrCreateSecret_def sound_settings split: if_splits option.splits sum.splits)

lemma chooseUsername_sound:
  assumes "faults d = []"
  shows "snd (chooseUsername u d) = d" "TrimSpace u \<noteq> [] \<Longrightarrow> fst (chooseUsername u d) = TrimSpace u"
  using assms by (simp_all add: chooseUsername_def Let_def sound_settings split: option.splits)

text \<open>A successful start, step by step: the secret, the name, then the password.\<close>

lemma New_steps:
  assumes "faults d = []" and "New gen rs rp u pw d = (Inr a, d')" and "rs \<noteq> Inr []"
  obtains d1 v where "loadOrCreateSecret rs d = (Inr (secret a), d1)" "settings d1 keySecret = Some v" "v \<noteq> []" "hex_decode v = Some (secret a)"
    "\<forall>k. k \<noteq> keySecret \<longrightarrow> settings d1 k = settings d k"
    "settings d' keySecret = Some v" "settings d' keyUsername = Some (fst (chooseUsername u d1))"
    "faults d' = []"
    "(pw \<noteq> [] \<and> (\<exists>h. gen pw = Inr h \<and> settings d' keyHash = Some h) \<and> GeneratedPassword a = []) \<or>
     (pw = [] \<and> settings d keyHash = None \<and>
        (\<exists>b h. rp = Inr b \<and> GeneratedPassword a = b64_encode b \<and> gen (b64_encode b) = Inr h \<and>
               settings d' keyHash = Some h)) \<or>
     (pw = [] \<and> settings d keyHash \<noteq> None \<and> settings d' keyHash = settings d keyHash \<and>
        GeneratedPassword a = [])"
proof -
  from assms(2) obtain sec d1 where load: "loadOrCreateSecret rs d = (Inr sec, d1)"
    by (auto simp: New_def split: prod.splits sum.splits)
  from loadOrCreateSecret_stored [OF assms(1) load assms(3)] obtain v
    where d1: "faults d1 = []" "settings d1 keySecret = Some v" "v \<noteq> []" "hex_decode v = Some sec"
      "\<forall>k. k \<noteq> keySecret \<longrightarrow> settings d1 k = settings d k" by blast
  obtain name where name: "chooseUsername u d1 = (name, d1)"
    using chooseUsername_sound(1) [OF d1(1), of u] by (cases "chooseUsername u d1") simp
  note step = assms(2) [unfolded New_def load, simplified]
  show thesis
  proof (rule that [of d1 v])
    have "secret a = sec"
      using step d1 by (auto simp: name sound_settings setPassword_sound randomPassword_def split: if_splits sum.splits)
    with d1 load show "hex_decode v = Some (secret a)" "loadOrCreateSecret rs d = (Inr (secret a), d1)" by simp_all
    show "settings d' keySecret = Some v" "settings d' keyUsername = Some (fst (chooseUsername u d1))" "faults d' = []"
      using step d1 by (auto simp: name sound_settings setPassword_sound randomPassword_def split: if_splits sum.splits)
    show "(pw \<noteq> [] \<and> (\<exists>h. gen pw = Inr h \<and> settings d' keyHash = Some h) \<and> GeneratedPassword a = []) \<or>
     (pw = [] \<and> settings d keyHash = None \<and>
        (\<exists>b h. rp = Inr b \<and> GeneratedPassword a = b64_encode b \<and> gen (b64_encode b) = Inr h \<and>
               settings d' keyHash = Some h)) \<or>
     (pw = [] \<and> settings d keyHash \<noteq> None \<and> settings d' keyHash = settings d keyHash \<and>
        GeneratedPassword a = [])"
      using step d1 by (auto simp: name sound_settings setPassword_sound randomPassword_def split: if_splits sum.splits)
  qed (use d1 in simp_all)
qed

lemma New_secret:
  assumes "faults d = []" and "New gen rs rp u pw d = (Inr a, d')" and "rs \<noteq> Inr []"
  shows "\<exists>v d1. settings d' keySecret = Some v \<and> v \<noteq> [] \<and> hex_decode v = Some (secret a) \<and> faults d' = [] \<and>
    loadOrCreateSecret rs d = (Inr (secret a), d1)"
  by (rule New_steps [OF assms]) blast

text \<open>C31: Sessions survive a restart: when the server is started again on the same database, whatever
  account settings and randomness it is given, it loads the secret it had, so that every cookie
  verifies as it did before.\<close>

theorem sessions_survive_restart:
  assumes "faults d = []" and "New gen rs rp u pw d = (Inr a, d1)" and "rs \<noteq> Inr []"
    and "New gen' rs' rp' u' pw' d1 = (Inr a', d2)" and "rs' \<noteq> Inr []"
  shows "verify a' r now = verify a r now"
proof -
  from New_secret [OF assms(1-3)] obtain v where v: "settings d1 keySecret = Some v" "v \<noteq> []"
    "hex_decode v = Some (secret a)" "faults d1 = []" by blast
  from New_secret [OF v(4) assms(4,5)] obtain e where "loadOrCreateSecret rs' d1 = (Inr (secret a'), e)" by blast
  with v have "secret a' = secret a" by (simp add: loadOrCreateSecret_def sound_settings)
  then have same: "sign a' = sign a" by (simp add: sign_def fun_eq_iff)
  show ?thesis unfolding verify_def verify_token_def same ..
qed

text \<open>A bcrypt that stores the password behind a marker and refuses more than 72 bytes.\<close>

definition mark_gen :: "string \<Rightarrow> string + string" where
  "mark_gen p = (if 72 < length p then Inl ''password length exceeds 72 bytes'' else Inr (''$2a$'' @ p))"

definition mark_cmp :: "string \<Rightarrow> string \<Rightarrow> bool" where
  "mark_cmp h p \<longleftrightarrow> h = ''$2a$'' @ p"

definition db_admin :: db where
  "db_admin = snd (New mark_gen (Inr ''k'') (Inr ''rnd'') ''root'' ''hunter22'' empty_db)"

lemma TrimSpace_root: "TrimSpace ''root'' = ''root''"
  by (rule TrimSpace_graphic) (simp_all add: graphic_def)

lemma New_empty:
  "New mark_gen (Inr ''k'') (Inr ''rnd'') ''root'' ''hunter22'' empty_db =
     (Inr \<lparr>secret = ''k'', GeneratedPassword = []\<rparr>, db_admin)"
  by (simp add: db_admin_def New_def loadOrCreateSecret_def chooseUsername_def TrimSpace_root Let_def
      GetSetting_def SetSetting_def setPassword_def mark_gen_def empty_db_def)

lemma hex_encode_k: "hex_encode ''k'' = ''6b''"
  by (simp add: hex_digit_def hex_alphabet_def)

lemma hex_decode_k: "hex_decode ''6b'' = Some ''k''"
  using hex_decode_encode [of "''k''"] unfolding hex_encode_k .

lemma mark_bcrypt: "\<forall>p h. mark_gen p = Inr h \<longrightarrow> mark_cmp h p"
  by (simp add: mark_gen_def mark_cmp_def)

lemma db_admin_eq:
  "db_admin = empty_db\<lparr>settings := [keySecret \<mapsto> ''6b'', keyUsername \<mapsto> ''root'', keyHash \<mapsto> ''$2a$hunter22'']\<rparr>"
  by (simp add: hex_encode_k db_admin_def New_def loadOrCreateSecret_def chooseUsername_def TrimSpace_root Let_def
      GetSetting_def SetSetting_def setPassword_def mark_gen_def empty_db_def del: hex_encode.simps)

lemma faults_db_admin [simp]: "faults db_admin = []"
  by (simp add: db_admin_eq empty_db_def)

lemma db_admin_username: "stored_username db_admin = ''root''"
  by (simp add: db_admin_eq stored_username_def)

lemma db_admin_Check: "Check mark_cmp ''root'' p db_admin = (p = ''hunter22'', db_admin)"
  by (auto simp: Check_sound db_admin_username) (simp_all add: db_admin_eq mark_cmp_def)

lemma New_db_admin:
  "New mark_gen (Inr ''z'') (Inr ''rnd'') ''root'' [] db_admin =
     (Inr \<lparr>secret = ''k'', GeneratedPassword = []\<rparr>, db_admin)"
  by (simp add: hex_decode_k chooseUsername_def db_admin_eq New_def loadOrCreateSecret_def chooseUsername_def TrimSpace_root Let_def
      GetSetting_def SetSetting_def empty_db_def fun_upd_twist del: hex_decode.simps)

text \<open>The server that was started first, and the one that was started again on what it left behind.\<close>

abbreviation first_server :: authenticator where
  "first_server \<equiv> projr (fst (New mark_gen (Inr ''k'') (Inr ''rnd'') ''root'' ''hunter22'' empty_db))"

abbreviation second_server :: authenticator where
  "second_server \<equiv> projr (fst (New mark_gen (Inr ''z'') (Inr ''rnd'') ''root'' [] db_admin))"

theorem sessions_survive_restart_witness:
  "verify second_server (plain_request\<lparr>r_Cookies := [(cookieName, session_token first_server ''root'' 0)]\<rparr>) 5 = Some ''root''"
proof -
  let ?r = "plain_request\<lparr>r_Cookies := [(cookieName, session_token first_server ''root'' 0)]\<rparr>"
  have "verify second_server ?r 5 = verify first_server ?r 5"
    using sessions_survive_restart [OF _ New_empty _ New_db_admin, of ?r 5] by (simp add: New_empty New_db_admin)
  moreover have "verify first_server ?r 5 = Some ''root''"
    using verify_fresh_session [of "''root''" 0 ?r first_server plain_request 5]
    by (simp add: Request_Cookie_def IssueCookie_def unix_def sessionDuration_def)
  ultimately show ?thesis by simp
qed

text \<open>What the account accepts after a successful start. With a configured password, that password
  logs in; with none and an empty database, the generated one does, and it is the one reported to the
  operator; with none and an existing hash, the stored hash is left as it was and nothing is reported.
  A configured name that is not blank becomes the account's name, without its surrounding blanks.\<close>

lemma New_login:
  assumes "faults d = []" and "New gen rs rp u pw d = (Inr a, d')" and "rs \<noteq> Inr []"
    and bcrypt: "\<forall>p h. gen p = Inr h \<longrightarrow> cmp h p"
  shows "(pw \<noteq> [] \<longrightarrow> fst (Check cmp (stored_username d') pw d') \<and> GeneratedPassword a = []) \<and>
    (pw = [] \<and> settings d keyHash = None \<longrightarrow> fst (Check cmp (stored_username d') (GeneratedPassword a) d')) \<and>
    (pw = [] \<and> settings d keyHash \<noteq> None \<longrightarrow>
       settings d' keyHash = settings d keyHash \<and> GeneratedPassword a = []) \<and>
    (TrimSpace u \<noteq> [] \<longrightarrow> stored_username d' = TrimSpace u)"
proof (rule New_steps [OF assms(1-3)], goal_cases)
  case (1 d1 v)
  from 1(8) have "stored_username d' = TrimSpace u" if "TrimSpace u \<noteq> []"
    using that 1(7) by (simp add: stored_username_def chooseUsername_def Let_def)
  with 1(8,9) bcrypt show ?case by (auto simp: Check_sound)
qed

text \<open>The account operations under any driver failures. Each read and write is one statement, so \<open>runs i\<close> says
  whether the \<open>i\<close>-th of them succeeds.\<close>

lemma setting_or_empty_any:
  "setting_or_empty k d = ((if runs 0 d then case settings d k of None \<Rightarrow> [] | Some v \<Rightarrow> v else []),
     d\<lparr>faults := drop 1 (faults d)\<rparr>)"
  by (simp add: setting_or_empty_def GetSetting_def stmt_runs split: option.splits)

lemma Check_any:
  "Check cmp u p d = ((runs 1 d \<and> (\<exists>h. settings d keyHash = Some h \<and> cmp h p) \<and>
      u = (if runs 0 d then stored_username d else [])), d\<lparr>faults := drop 2 (faults d)\<rparr>)"
  by (auto simp: Check_def setting_or_empty_any GetSetting_def stmt_runs stored_username_def Let_def numeral_2_eq_2 split: option.splits)

lemma setPassword_any:
  "setPassword gen p d =
     (case gen p of
        Inl e \<Rightarrow> (Inl (PwBcrypt e), d)
      | Inr h \<Rightarrow> if runs 0 d then (Inr (), d\<lparr>settings := (settings d)(keyHash \<mapsto> h), faults := drop 1 (faults d)\<rparr>)
                 else (Inl (PwDb (ErrDriver (the (hd (faults d))))), d\<lparr>faults := drop 1 (faults d)\<rparr>))"
  by (simp add: setPassword_def SetSetting_def stmt_runs split: sum.splits)

text \<open>C30: Changing the password, whatever the database driver does: it succeeds only when the current password
  is right for the stored hash, the new one has at least eight bytes, and bcrypt accepts it; then the
  new password is right for the stored hash, and nothing else has changed. After any failure, of
  whatever kind, all stored data is what it was. When the driver does not fail, the call succeeds in
  exactly this case, a wrong current password, a short new one and a refusal of bcrypt are each reported
  with their own error, in this order, and afterwards the stored name logs in with the new password.\<close>

theorem ChangePassword_spec:
  assumes bcrypt: "\<forall>p h. gen p = Inr h \<longrightarrow> cmp h p" and call: "ChangePassword gen cmp current nxt d = (res, d')"
  defines "ok \<equiv> \<exists>h. settings d keyHash = Some h \<and> cmp h current"
  shows "(case res of
      Inr _ \<Rightarrow> ok \<and> 8 \<le> length nxt \<and> (\<exists>h. gen nxt = Inr h \<and> cmp h nxt \<and>
        same_data (d\<lparr>settings := (settings d)(keyHash \<mapsto> h)\<rparr>) d')
    | Inl _ \<Rightarrow> same_data d d') \<and>
    (faults d = [] \<longrightarrow>
      res = (if \<not> ok then Inl ErrInvalidCredentials else if length nxt < 8 then Inl ErrPasswordTooShort
             else case gen nxt of Inl e \<Rightarrow> Inl (PwBcrypt e) | Inr _ \<Rightarrow> Inr ()) \<and>
      (res = Inr () \<longrightarrow> fst (Check cmp (stored_username d) nxt d')))"
proof -
  define e where "e = d\<lparr>faults := drop 3 (faults d)\<rparr>"
  define right where "right = (runs 2 d \<and> ok \<and> (if runs 0 d then stored_username d else []) = (if runs 1 d then stored_username d else []))"
  have name: "stored_username (d\<lparr>faults := fs\<rparr>) = stored_username d" for fs by (simp add: stored_username_def)
  have u: "Username d = ((if runs 0 d then stored_username d else []), d\<lparr>faults := drop 1 (faults d)\<rparr>)"
    by (simp add: Username_def setting_or_empty_any stored_username_def)
  have chk: "Check cmp (if runs 0 d then stored_username d else []) current (d\<lparr>faults := drop 1 (faults d)\<rparr>) = (right, e)"
    unfolding Check_any right_def ok_def e_def by (auto simp: name numeral_3_eq_3 numeral_2_eq_2)
  have c: "ChangePassword gen cmp current nxt d =
      (if \<not> right then (Inl ErrInvalidCredentials, e) else if length nxt < 8 then (Inl ErrPasswordTooShort, e)
       else setPassword gen nxt e)"
    unfolding ChangePassword_def u prod.case chk ..
  have clean: "right = ok" "e = d" if "faults d = []" using that by (simp_all add: right_def e_def)
  consider (denied) "\<not> right" | (short) "right" "length nxt < 8" | (refused) x where "right" "8 \<le> length nxt" "gen nxt = Inl x"
    | (changed) h where "right" "8 \<le> length nxt" "gen nxt = Inr h"
    by (cases "gen nxt") (use not_less in blast)+
  then show ?thesis
  proof cases
    case changed
    then have "(res, d') = (if runs 0 e then (Inr (), e\<lparr>settings := (settings e)(keyHash \<mapsto> h), faults := drop 1 (faults e)\<rparr>)
        else (Inl (PwDb (ErrDriver (the (hd (faults e))))), e\<lparr>faults := drop 1 (faults e)\<rparr>))"
      using call c by (simp add: setPassword_any)
    moreover have "ok" "cmp h nxt" using changed bcrypt by (simp_all add: right_def)
    ultimately show ?thesis
      using changed clean by (auto simp: e_def same_data_def Check_any stored_username_def split: if_splits)
  qed (use call c clean in \<open>auto simp: setPassword_any e_def right_def\<close>)
qed

lemma db_admin_change:
  "fst (ChangePassword mark_gen mark_cmp ''hunter22'' ''correct horse'' db_admin) = Inr ()"
  by (simp add: ChangePassword_def Username_sound db_admin_username db_admin_Check setPassword_sound mark_gen_def)

theorem ChangePassword_spec_witness:
  "fst (Check mark_cmp ''root'' ''correct horse'' (snd (ChangePassword mark_gen mark_cmp ''hunter22'' ''correct horse'' db_admin)))"
  using ChangePassword_spec [OF mark_bcrypt prod.collapse [symmetric], where current = "''hunter22''" and nxt = "''correct horse''" and d = db_admin]
  by (simp add: db_admin_username db_admin_change)

text \<open>C29: Logging in fails closed. Whatever the database driver does, a login succeeds exactly when the stored
  hash could be read, bcrypt accepts the password for it, and the name is the stored one, or the empty
  one when the stored one could not be read. Checking never changes the stored data, whatever its outcome.\<close>

theorem Check_fails_closed:
  assumes "Check cmp u p d = (ok, d')"
  shows "(ok \<longleftrightarrow> runs 1 d \<and> (\<exists>h. settings d keyHash = Some h \<and> cmp h p) \<and>
      u = (if runs 0 d then stored_username d else [])) \<and> same_data d d'"
  using assms by (auto simp: Check_any)

theorem Check_fails_closed_witness:
  "\<not> fst (Check mark_cmp ''root'' ''hunter22'' (db_admin\<lparr>faults := [None, Some ''disk I/O error'']\<rparr>)) \<and>
   fst (Check mark_cmp ''root'' ''hunter22'' (db_admin\<lparr>faults := [None]\<rparr>))"
  using Check_fails_closed [OF prod.collapse [symmetric], of mark_cmp "''root''" "''hunter22''" "db_admin\<lparr>faults := [None]\<rparr>"]
    Check_fails_closed [OF prod.collapse [symmetric], of mark_cmp "''root''" "''hunter22''"
      "db_admin\<lparr>faults := [None, Some ''disk I/O error'']\<rparr>"]
  by (simp add: runs_def stored_username_def) (simp add: db_admin_eq mark_cmp_def)

end
