(* ===== verification/Proxy.thy ===== *)
theory Proxy
  imports Rate_Limit Waf_Manager Waf_Inspect Go_Url
begin

text \<open>
  \<^verbatim>\<open>internal/proxy\<close>: the routing table built from the sites, the handler in front of it, and the choice
  between plaintext and TLS. Parameters stand for what lies outside: the exchange with an upstream
  server, the files of a manual certificate (\<open>load\<close> for \<open>tls.LoadX509KeyPair\<close>), the ACME manager of
  \<^verbatim>\<open>golang.org/x/crypto/acme/autocert\<close>, and the Unicode tables of \<open>strings.ToLower\<close> (\<open>uni\<close>).
\<close>

section \<open>State\<close>

text \<open>A handler of the routing table: a reverse proxy, alone or behind the inspection middleware with
  the engine it was built with.\<close>

datatype 'waf handler = ReverseProxy url | Inspected 'waf string url

record ('waf, 'cert) proxy =
  handlers :: "string \<rightharpoonup> 'waf handler"
  autoDomains :: "string \<rightharpoonup> bool"
  manualCerts :: "string \<rightharpoonup> 'cert"

definition New_Proxy :: "('waf, 'cert) proxy" where
  "New_Proxy = \<lparr>handlers = Map.empty, autoDomains = Map.empty, manualCerts = Map.empty\<rparr>"

text \<open>What the proxy was given at its creation and what it meets at run time.\<close>

record ('waf, 'tx, 'lim) proxy_env =
  env_coraza :: "('waf, 'tx) coraza"
  env_headers :: header_order
  env_transport :: "url \<Rightarrow> http_request \<Rightarrow> string + (wop list \<times> bool)"
  env_clientIP :: "http_request \<Rightarrow> string"
  env_newBucket :: "64 word \<Rightarrow> int \<Rightarrow> 'lim"
  env_allow :: "'lim \<Rightarrow> go_time \<Rightarrow> bool \<times> 'lim"
  env_uni :: "string \<Rightarrow> string"

section \<open>Building the routing table\<close>

definition add_site ::
  "(string \<Rightarrow> string) \<Rightarrow> (string \<Rightarrow> string \<Rightarrow> 'cert option) \<Rightarrow> 'waf manager \<Rightarrow> site
   \<Rightarrow> ('waf, 'cert) proxy \<Rightarrow> ('waf, 'cert) proxy" where
  "add_site uni load mgr s p =
     (if \<not> site_Enabled s then p
      else case url_Parse (site_UpstreamURL s) of
             None \<Rightarrow> p
           | Some target \<Rightarrow>
               if u_Host target = [] then p
               else (let h = (case Engine (site_WAFMode s) mgr of
                                None \<Rightarrow> ReverseProxy target
                              | Some engine \<Rightarrow> Inspected engine (site_Domain s) target);
                         domain = ToLower uni (site_Domain s);
                         p = p\<lparr>handlers := (handlers p)(domain \<mapsto> h)\<rparr>
                     in if site_TLSMode s = TLSModeAuto then p\<lparr>autoDomains := (autoDomains p)(domain \<mapsto> True)\<rparr>
                        else if site_TLSMode s = TLSModeManual
                        then (case load (site_CertFile s) (site_KeyFile s) of
                                None \<Rightarrow> p
                              | Some cert \<Rightarrow> p\<lparr>manualCerts := (manualCerts p)(domain \<mapsto> cert)\<rparr>)
                        else p))"

definition Proxy_Reload ::
  "(string \<Rightarrow> string) \<Rightarrow> (string \<Rightarrow> string \<Rightarrow> 'cert option) \<Rightarrow> 'waf manager \<Rightarrow> site list
   \<Rightarrow> ('waf, 'cert) proxy \<Rightarrow> ('waf, 'cert) proxy" where
  "Proxy_Reload uni load mgr ss p =
     (let t = fold (add_site uni load mgr) ss New_Proxy
      in p\<lparr>handlers := handlers t, autoDomains := autoDomains t, manualCerts := manualCerts t\<rparr>)"

section \<open>Lookups\<close>

definition host_domain :: "(string \<Rightarrow> string) \<Rightarrow> string \<Rightarrow> string" where
  "host_domain uni host = before_byte (ToLower uni host) CHR '':''"

definition handlerFor :: "(string \<Rightarrow> string) \<Rightarrow> string \<Rightarrow> ('waf, 'cert) proxy \<Rightarrow> 'waf handler option" where
  "handlerFor uni host p = handlers p (host_domain uni host)"

definition usesTLS :: "(string \<Rightarrow> string) \<Rightarrow> string \<Rightarrow> ('waf, 'cert) proxy \<Rightarrow> bool" where
  "usesTLS uni host p \<longleftrightarrow>
     autoDomains p (host_domain uni host) = Some True \<or> manualCerts p (host_domain uni host) \<noteq> None"

definition getCertificate ::
  "(string \<Rightarrow> string) \<Rightarrow> (string \<Rightarrow> string + 'cert) \<Rightarrow> string \<Rightarrow> ('waf, 'cert) proxy \<Rightarrow> string + 'cert" where
  "getCertificate uni acme serverName p =
     (case manualCerts p (ToLower uni serverName) of Some cert \<Rightarrow> Inr cert | None \<Rightarrow> acme serverName)"

datatype policy_error = HostNotConfigured string

definition hostPolicy ::
  "(string \<Rightarrow> string) \<Rightarrow> string \<Rightarrow> ('waf, 'cert) proxy \<Rightarrow> policy_error option" where
  "hostPolicy uni host p =
     (if autoDomains p (ToLower uni host) = Some True then None
      else Some (HostNotConfigured host))"

record 'cert tls_config =
  tls_GetCertificate :: "string \<Rightarrow> string + 'cert"
  tls_NextProtos :: "string list"

definition TLSConfig ::
  "(string \<Rightarrow> string) \<Rightarrow> 'cert tls_config \<Rightarrow> ('waf, 'cert) proxy \<Rightarrow> 'cert tls_config" where
  "TLSConfig uni acme p =
     acme\<lparr>tls_GetCertificate := (\<lambda>name. getCertificate uni (tls_GetCertificate acme) name p)\<rparr>"

section \<open>Serving\<close>

definition newReverseProxy :: "('waf, 'tx, 'lim) proxy_env \<Rightarrow> url \<Rightarrow> upstream" where
  "newReverseProxy env target r =
     (case env_transport env target r of
        Inl _ \<Rightarrow> (http_error_ops ''upstream unavailable'' StatusBadGateway, False)
      | Inr res \<Rightarrow> res)"

record 'lim served =
  sv_writer :: writer
  sv_limiter :: "'lim limiter option"
  sv_upstream :: "(url \<times> http_request) option"
  sv_events :: "event list"
  sv_panicked :: bool

fun serve_handler ::
  "('waf, 'tx, 'lim) proxy_env \<Rightarrow> 'waf handler \<Rightarrow> 'lim limiter option \<Rightarrow> go_time \<Rightarrow> http_request \<Rightarrow> writer \<Rightarrow> 'lim served" where
  "serve_handler env (ReverseProxy target) lim now r w =
     (case newReverseProxy env target r of (ops, panics) \<Rightarrow>
        let w = fold writer_op ops w
        in \<lparr>sv_writer = w, sv_limiter = lim, sv_upstream = Some (target, r), sv_events = [],
            sv_panicked = panics \<or> w_panicked w\<rparr>)"
| "serve_handler env (Inspected engine domain target) lim now r w =
     (let out = WAF_Middleware (env_coraza env) (env_headers env) engine (newReverseProxy env target) domain now r w
      in \<lparr>sv_writer = o_writer out, sv_limiter = lim, sv_upstream = map_option (Pair target) (o_upstream out),
          sv_events = o_events out, sv_panicked = o_panicked out\<rparr>)"

text \<open>The check of the limiter: no limiter allows everything. The three instants are the two clock
  readings of the limiter and the time of the event.\<close>

definition limiter_check ::
  "('waf, 'tx, 'lim) proxy_env \<Rightarrow> go_time \<Rightarrow> go_time \<Rightarrow> http_request \<Rightarrow> 'lim limiter option \<Rightarrow> bool \<times> 'lim limiter option" where
  "limiter_check env seen taken r lim =
     (case lim of
        None \<Rightarrow> (True, None)
      | Some l \<Rightarrow> (case Allow (env_newBucket env) (env_allow env) (env_clientIP env r) seen taken l of
                     (ok, l) \<Rightarrow> (ok, Some l)))"

definition answered :: "writer \<Rightarrow> 'lim limiter option \<Rightarrow> 'lim served" where
  "answered w lim = \<lparr>sv_writer = w, sv_limiter = lim, sv_upstream = None, sv_events = [], sv_panicked = w_panicked w\<rparr>"

definition ServeHTTP ::
  "('waf, 'tx, 'lim) proxy_env \<Rightarrow> ('waf, 'cert) proxy \<Rightarrow> go_time \<times> go_time \<times> go_time \<Rightarrow> 'lim limiter option
   \<Rightarrow> http_request \<Rightarrow> writer \<Rightarrow> 'lim served" where
  "ServeHTTP env p clk lim r w =
     (case clk of (seen, taken, now) \<Rightarrow>
      case limiter_check env seen taken r lim of
        (False, lim) \<Rightarrow>
          answered (Http_Error ''rate limit exceeded'' StatusTooManyRequests (Header_Set ''Retry-After'' ''1'' w)) lim
      | (True, lim) \<Rightarrow>
          (case handlerFor (env_uni env) (r_Host r) p of
             None \<Rightarrow> answered (Http_Error ''no site configured for this host'' StatusNotFound w) lim
           | Some h \<Rightarrow> serve_handler env h lim now r w))"

text \<open>The plaintext listener. \<open>acme\<close> answers the requests the ACME manager keeps for itself.\<close>

definition HTTPHandler ::
  "('waf, 'tx, 'lim) proxy_env \<Rightarrow> (http_request \<Rightarrow> (writer \<Rightarrow> writer) option) \<Rightarrow> ('waf, 'cert) proxy
   \<Rightarrow> go_time \<times> go_time \<times> go_time \<Rightarrow> 'lim limiter option \<Rightarrow> http_request \<Rightarrow> writer \<Rightarrow> 'lim served" where
  "HTTPHandler env acme p clk lim r w =
     (case acme r of
        Some answer \<Rightarrow> answered (answer w) lim
      | None \<Rightarrow>
          if usesTLS (env_uni env) (r_Host r) p
          then answered (Http_Redirect (r_Method r) (''https://'' @ r_Host r @ r_RequestURI r) StatusMovedPermanently
                           ''Moved Permanently'' w) lim
          else ServeHTTP env p clk lim r w)"

section \<open>The routing table as a specification\<close>

definition site_target :: "site \<Rightarrow> url option" where
  "site_target s =
     (case url_Parse (site_UpstreamURL s) of
        Some t \<Rightarrow> if site_Enabled s \<and> u_Host t \<noteq> [] then Some t else None | None \<Rightarrow> None)"

definition serves :: "(string \<Rightarrow> string) \<Rightarrow> string \<Rightarrow> site \<Rightarrow> bool" where
  "serves uni domain s \<longleftrightarrow> site_target s \<noteq> None \<and> ToLower uni (site_Domain s) = domain"

text \<open>The site a domain is routed to: the last of the enabled sites with a usable upstream whose domain
  is this one up to case.\<close>

definition routed :: "(string \<Rightarrow> string) \<Rightarrow> site list \<Rightarrow> string \<Rightarrow> site option" where
  "routed uni ss domain = find (serves uni domain) (rev ss)"

definition handler_of :: "'waf manager \<Rightarrow> site \<Rightarrow> 'waf handler" where
  "handler_of mgr s =
     (case Engine (site_WAFMode s) mgr of
        None \<Rightarrow> ReverseProxy (the (site_target s))
      | Some e \<Rightarrow> Inspected e (site_Domain s) (the (site_target s)))"

lemma tls_modes_distinct [simp]:
  "TLSModeAuto \<noteq> TLSModeManual" "TLSModeManual \<noteq> TLSModeAuto" "TLSModeOff \<noteq> TLSModeAuto" "TLSModeOff \<noteq> TLSModeManual"
  by (simp_all add: tls_modes)

lemma add_site_dead: "site_target s = None \<Longrightarrow> add_site uni load mgr s p = p"
  by (auto simp: add_site_def site_target_def split: option.splits if_splits)

lemma add_site_live:
  assumes "site_target s = Some t"
  shows "handlers (add_site uni load mgr s p) = (handlers p)(ToLower uni (site_Domain s) \<mapsto> handler_of mgr s)"
    and "autoDomains (add_site uni load mgr s p) =
      (if site_TLSMode s = TLSModeAuto then (autoDomains p)(ToLower uni (site_Domain s) \<mapsto> True) else autoDomains p)"
    and "manualCerts (add_site uni load mgr s p) =
      (case (if site_TLSMode s = TLSModeManual then load (site_CertFile s) (site_KeyFile s) else None) of
         Some c \<Rightarrow> (manualCerts p)(ToLower uni (site_Domain s) \<mapsto> c) | None \<Rightarrow> manualCerts p)"
  using assms
  by (auto simp: add_site_def site_target_def handler_of_def Let_def split: option.splits if_splits)

lemma handlers_fold:
  "handlers (fold (add_site uni load mgr) ss New_Proxy) domain = map_option (handler_of mgr) (routed uni ss domain)"
proof (induction ss rule: rev_induct)
  case Nil
  show ?case by (simp add: New_Proxy_def routed_def)
next
  case (snoc s ss)
  then show ?case
    by (cases "site_target s") (auto simp: add_site_dead add_site_live routed_def serves_def)
qed

lemma autoDomains_fold:
  "autoDomains (fold (add_site uni load mgr) ss New_Proxy) domain =
     (if \<exists>s \<in> set ss. serves uni domain s \<and> site_TLSMode s = TLSModeAuto then Some True else None)"
proof (induction ss rule: rev_induct)
  case Nil
  show ?case by (simp add: New_Proxy_def)
next
  case (snoc s ss)
  then show ?case
    by (cases "site_target s") (auto simp: add_site_dead add_site_live serves_def)
qed

lemma manualCerts_fold:
  "manualCerts (fold (add_site uni load mgr) ss New_Proxy) domain =
     (case find (\<lambda>s. serves uni domain s \<and> site_TLSMode s = TLSModeManual \<and>
                     load (site_CertFile s) (site_KeyFile s) \<noteq> None) (rev ss) of
        None \<Rightarrow> None | Some s \<Rightarrow> load (site_CertFile s) (site_KeyFile s))"
proof (induction ss rule: rev_induct)
  case Nil
  show ?case by (simp add: New_Proxy_def)
next
  case (snoc s ss)
  then show ?case
    by (cases "site_target s"; cases "load (site_CertFile s) (site_KeyFile s)")
      (auto simp: add_site_dead add_site_live serves_def split: option.splits)
qed

lemma Proxy_Reload_lookup:
  "handlers (Proxy_Reload uni load mgr ss p) domain = map_option (handler_of mgr) (routed uni ss domain)"
  "autoDomains (Proxy_Reload uni load mgr ss p) domain =
     (if \<exists>s \<in> set ss. serves uni domain s \<and> site_TLSMode s = TLSModeAuto then Some True else None)"
  "manualCerts (Proxy_Reload uni load mgr ss p) domain =
     (case find (\<lambda>s. serves uni domain s \<and> site_TLSMode s = TLSModeManual \<and>
                     load (site_CertFile s) (site_KeyFile s) \<noteq> None) (rev ss) of
        None \<Rightarrow> None | Some s \<Rightarrow> load (site_CertFile s) (site_KeyFile s))"
  by (simp_all add: Proxy_Reload_def Let_def handlers_fold autoDomains_fold manualCerts_fold)

lemma manualCerts_iff:
  "manualCerts (Proxy_Reload uni load mgr ss p) domain \<noteq> None \<longleftrightarrow>
     (\<exists>s \<in> set ss. serves uni domain s \<and> site_TLSMode s = TLSModeManual \<and> load (site_CertFile s) (site_KeyFile s) \<noteq> None)"
  unfolding Proxy_Reload_lookup
  by (auto split: option.splits dest!: find_SomeD simp: find_None_iff)

section \<open>Properties of the routing\<close>

text \<open>C6: The routing table implements its specification. After a reload a request is given to the last
  site of the list that is enabled, has an upstream address with a host, and whose domain is the host
  of the request up to case and without what follows a colon; it goes through the engine of the
  site's mode when the manager has one, and straight to the upstream otherwise. Nothing of the
  previous table is left.\<close>

theorem routing_refines:
  "handlerFor uni host (Proxy_Reload uni load mgr ss p) =
     map_option (handler_of mgr) (routed uni ss (before_byte (ToLower uni host) CHR '':''))"
  by (simp add: handlerFor_def host_domain_def Proxy_Reload_lookup)

definition test_site :: "string \<Rightarrow> WAFMode \<Rightarrow> TLSMode \<Rightarrow> site" where
  "test_site d k m = \<lparr>site_ID = 1, site_Domain = d, site_UpstreamURL = ''http://app'', site_WAFMode = k,
     site_TLSMode = m, site_CertFile = [], site_KeyFile = [], site_Enabled = True, site_CreatedAt = 0,
     site_UpdatedAt = 0\<rparr>"

lemma test_site_simps [simp]:
  "site_Domain (test_site d k m) = d" "site_WAFMode (test_site d k m) = k" "site_TLSMode (test_site d k m) = m"
  by (simp_all add: test_site_def)

abbreviation sample_site :: site where
  "sample_site \<equiv> test_site ''Example.com'' WAFModeOn TLSModeOff"

definition app_url :: url where
  "app_url = \<lparr>u_Scheme = ''http'', u_Opaque = [], u_Host = ''app'', u_Path = [], u_RawQuery = [], u_Fragment = []\<rparr>"

definition sample_manager :: "string manager" where
  "sample_manager = \<lparr>engines = [WAFModeOn \<mapsto> ''on'', WAFModeDetection \<mapsto> ''detect'']\<rparr>"

definition sample_env :: "(string, toy_tx, int \<times> go_time) proxy_env" where
  "sample_env = \<lparr>env_coraza = toy_coraza, env_headers = rev, env_transport = (\<lambda>_ _. Inr ([WriteOp ''hi''], False)),
     env_clientIP = r_RemoteAddr, env_newBucket = toy_new, env_allow = toy_allow second 2, env_uni = (\<lambda>s. s)\<rparr>"

lemma url_Parse_app: "url_Parse ''http://app'' = Some app_url"
  using url_Parse_http [of "''app''"] by (simp add: app_url_def host_char_def is_letter_def)

lemma test_site_target [simp]: "site_target (test_site d k m) = Some app_url"
  by (simp add: site_target_def test_site_def url_Parse_app) (simp add: app_url_def)

lemma lower_example: "ToLower u ''Example.com'' = ''example.com''" "ToLower u ''example.com'' = ''example.com''"
  by code_simp+

lemma test_site_serves [simp]:
  "serves u ''example.com'' (test_site ''Example.com'' k m)" "serves u ''example.com'' (test_site ''example.com'' k m)"
  by (simp_all add: serves_def lower_example)

lemma host_domain_example: "host_domain u ''example.com'' = ''example.com''"
  by (simp add: host_domain_def lower_example before_byte_def)

lemma sample_routed: "routed u [sample_site] ''example.com'' = Some sample_site"
  by (simp add: routed_def)

lemma sample_served_any:
  assumes "Engine WAFModeOn mgr = Some e"
  shows "sv_upstream (ServeHTTP sample_env (Proxy_Reload (env_uni sample_env) load mgr [sample_site] p) (0, 0, 0) None
     (sample_request ''/x'' (Some ''hello world'')) new_writer) = Some (app_url, sample_request ''/x'' (Some ''hello world''))"
proof -
  have "handlerFor (env_uni sample_env) ''example.com'' (Proxy_Reload (env_uni sample_env) load mgr [sample_site] p) =
      Some (handler_of mgr sample_site)"
    by (simp add: handlerFor_def host_domain_example Proxy_Reload_lookup sample_routed)
  moreover have "handler_of mgr sample_site = Inspected e ''Example.com'' app_url"
    using assms by (simp add: handler_of_def)
  moreover have "r_Host (sample_request ''/x'' (Some ''hello world'')) = ''example.com''" by (simp add: sample_request_def)
  ultimately show ?thesis
    using upstream_called [OF toy_passes]
    by (simp add: ServeHTTP_def limiter_check_def Let_def sample_env_def)
qed

section \<open>Properties of TLS\<close>

text \<open>C32: Plaintext requests for a site with TLS are redirected. A host counts as using TLS exactly when
  some enabled, routable site of that domain has automatic certificates, or manual ones that can be
  loaded; then every request on the plaintext listener that the ACME manager does not take is answered
  with a permanent redirect to the same host and path under https, without asking the limiter, an
  engine or an upstream. Any other host is served as on the TLS listener.\<close>

theorem plaintext_redirects:
  fixes p0 :: "('waf, 'cert) proxy" and env :: "('waf, 'tx, 'lim) proxy_env"
  assumes "acme r = None" and "w = new_writer"
    and "out = HTTPHandler env acme (Proxy_Reload (env_uni env) load mgr ss p0) clk lim r w"
    and "secure \<longleftrightarrow> (\<exists>s \<in> set ss. serves (env_uni env) (host_domain (env_uni env) (r_Host r)) s \<and>
      (site_TLSMode s = TLSModeAuto \<or>
       site_TLSMode s = TLSModeManual \<and> load (site_CertFile s) (site_KeyFile s) \<noteq> None))"
  shows "(secure \<longrightarrow> sv_upstream out = None \<and> sv_events out = [] \<and> sv_limiter out = lim \<and>
      final_status (sv_writer out) = StatusMovedPermanently \<and>
      w_header (sv_writer out) ''Location'' = Some (hexEscapeNonASCII (''https://'' @ r_Host r @ r_RequestURI r))) \<and>
    (\<not> secure \<longrightarrow> out = ServeHTTP env (Proxy_Reload (env_uni env) load mgr ss p0) clk lim r w)"
proof -
  have "usesTLS (env_uni env) (r_Host r) (Proxy_Reload (env_uni env) load mgr ss p0) = secure"
    unfolding usesTLS_def manualCerts_iff assms(4) by (auto simp: Proxy_Reload_lookup)
  with assms(1-3) show ?thesis
    by (simp add: HTTPHandler_def answered_def Http_Redirect_def Let_def new_writer_def Header_Set_def WriteHeader_def
        Write_def final_status_def informational_def)
qed

abbreviation auto_site :: site where
  "auto_site \<equiv> test_site ''Example.com'' WAFModeOn TLSModeAuto"

theorem plaintext_redirects_witness:
  "final_status (sv_writer (HTTPHandler sample_env (\<lambda>_. None)
     (Proxy_Reload (env_uni sample_env) (\<lambda>_ _. None :: string option) sample_manager [auto_site] New_Proxy) (0, 0, 0) None
     (sample_request ''/x'' None) new_writer)) = StatusMovedPermanently"
  using plaintext_redirects [OF _ refl refl refl, where r = "sample_request ''/x'' None" and ss = "[auto_site]"
      and env = sample_env and acme = "\<lambda>_. None" and load = "\<lambda>_ _. None :: string option" and mgr = sample_manager
      and ?p0.0 = New_Proxy and clk = "(0, 0, 0)" and lim = None]
  by (simp add: host_domain_example sample_request_def)

text \<open>C39: A site with manual TLS whose certificate cannot be loaded is served in the clear. Whatever other sites
  there are, if it is the site that requests of its domain are routed to, and no enabled, routable site
  of this domain has automatic TLS or a manual certificate that loads, then the plaintext listener does
  not redirect its requests but hands them to the site's handler, and the TLS listener falls back to the
  ACME manager, which refuses the host.\<close>

theorem broken_certificate_served_in_clear:
  fixes p0 :: "('waf, 'cert) proxy" and env :: "('waf, 'tx, 'lim) proxy_env"
  assumes "acme r = None" and "routed (env_uni env) ss (host_domain (env_uni env) (r_Host r)) = Some s"
    and "\<forall>x \<in> set ss. serves (env_uni env) (host_domain (env_uni env) (r_Host r)) x \<longrightarrow>
      site_TLSMode x = TLSModeManual \<and> load (site_CertFile x) (site_KeyFile x) = None \<or> site_TLSMode x = TLSModeOff"
    and "site_TLSMode s = TLSModeManual"
    and "p = Proxy_Reload (env_uni env) load mgr ss p0"
  shows "HTTPHandler env acme p clk lim r w = ServeHTTP env p clk lim r w \<and>
    handlerFor (env_uni env) (r_Host r) p = Some (handler_of mgr s) \<and>
    getCertificate (env_uni env) ca (site_Domain s) p = ca (site_Domain s) \<and>
    hostPolicy (env_uni env) (site_Domain s) p \<noteq> None"
proof -
  let ?uni = "env_uni env" and ?dom = "host_domain (env_uni env) (r_Host r)"
  have "serves ?uni ?dom s" using assms(2) unfolding routed_def by (blast dest: find_SomeD)
  then have dom: "ToLower ?uni (site_Domain s) = ?dom" by (simp add: serves_def)
  have auto: "autoDomains p ?dom = None" using assms(3) by (auto simp: assms(5) Proxy_Reload_lookup)
  have manual: "manualCerts p ?dom = None" using assms(3) manualCerts_iff [of ?uni load mgr ss p0 ?dom] by (auto simp: assms(5))
  show ?thesis
    using assms(1,2) dom auto manual
    by (simp add: HTTPHandler_def usesTLS_def handlerFor_def getCertificate_def hostPolicy_def)
      (simp add: assms(5) Proxy_Reload_lookup)
qed

theorem broken_certificate_served_in_clear_witness:
  "HTTPHandler sample_env (\<lambda>_. None) (Proxy_Reload (env_uni sample_env) (\<lambda>_ _. None :: string option) sample_manager
      [auto_site\<lparr>site_Domain := ''other.org''\<rparr>, test_site ''Example.com'' WAFModeOn TLSModeManual] New_Proxy) (0, 0, 0) None
      (sample_request ''/x'' None) new_writer =
   ServeHTTP sample_env (Proxy_Reload (env_uni sample_env) (\<lambda>_ _. None :: string option) sample_manager
      [auto_site\<lparr>site_Domain := ''other.org''\<rparr>, test_site ''Example.com'' WAFModeOn TLSModeManual] New_Proxy) (0, 0, 0) None
      (sample_request ''/x'' None) new_writer"
proof -
  let ?s = "test_site ''Example.com'' WAFModeOn TLSModeManual" and ?uni = "env_uni sample_env"
  have host: "host_domain ?uni (r_Host (sample_request ''/x'' None)) = ''example.com''"
    by (simp add: host_domain_example sample_request_def)
  have s: "serves ?uni ''example.com'' ?s" by (simp add: serves_def lower_example)
  have other: "\<not> serves ?uni ''example.com'' (auto_site\<lparr>site_Domain := ''other.org''\<rparr>)"
    by (simp add: serves_def sample_env_def ToLower_def)
  show ?thesis
    by (intro conjunct1 [OF broken_certificate_served_in_clear [where s = ?s, OF _ _ _ _ refl]])
      (use s other in \<open>simp_all add: host routed_def\<close>)
qed

text \<open>C33: Certificates are requested for exactly the domains with automatic TLS, and a manual certificate
  always wins. The ACME manager is allowed to obtain a certificate for a host exactly when an enabled,
  routable site of that name has automatic TLS; a name with a loaded manual certificate gets that one,
  the one of the last such site, and any other name is left to the ACME manager.\<close>

theorem certificate_selection:
  "(hostPolicy uni host (Proxy_Reload uni load mgr ss p) = None \<longleftrightarrow>
      (\<exists>s. s \<in> set ss \<and> serves uni (ToLower uni host) s \<and> site_TLSMode s = TLSModeAuto)) \<and>
   getCertificate uni ca host (Proxy_Reload uni load mgr ss p) =
     (case find (\<lambda>s. serves uni (ToLower uni host) s \<and> site_TLSMode s = TLSModeManual \<and>
                     load (site_CertFile s) (site_KeyFile s) \<noteq> None) (rev ss) of
        None \<Rightarrow> ca host | Some s \<Rightarrow> Inr (the (load (site_CertFile s) (site_KeyFile s))))"
  by (auto simp: hostPolicy_def getCertificate_def Proxy_Reload_lookup split: option.splits dest!: find_SomeD)

section \<open>Properties of serving\<close>

text \<open>A request over the limit is refused before anything else happens: it gets 429 with
  Retry-After, no handler runs, no upstream is contacted and no event is recorded. A host without a
  site gets 404 in the same way.\<close>

lemma refused_before_work:
  assumes "out = ServeHTTP env p (seen, taken, now) lim r new_writer"
    and "\<not> fst (limiter_check env seen taken r lim) \<or> handlerFor (env_uni env) (r_Host r) p = None"
  shows "sv_upstream out = None \<and> sv_events out = [] \<and> \<not> sv_panicked out \<and>
    sv_limiter out = snd (limiter_check env seen taken r lim) \<and>
    (if fst (limiter_check env seen taken r lim) then final_status (sv_writer out) = StatusNotFound
     else final_status (sv_writer out) = StatusTooManyRequests \<and> w_header (sv_writer out) ''Retry-After'' = Some ''1'')"
  using assms
  by (cases "limiter_check env seen taken r lim"; cases "fst (limiter_check env seen taken r lim)")
    (simp_all add: ServeHTTP_def answered_def http_defs new_writer_def)

lemma refused_before_work_witness:
  "final_status (sv_writer (ServeHTTP sample_env (New_Proxy :: (string, string) proxy) (0, 0, 0) None (sample_request ''/x'' None) new_writer)) =
     StatusNotFound"
  using refused_before_work [OF refl, of sample_env 0 0 "sample_request ''/x'' None" None "New_Proxy :: (string, string) proxy" 0]
  by (simp add: limiter_check_def handlerFor_def New_Proxy_def)

text \<open>Of two sites whose domains differ only in case, one is unreachable: whatever its own mode, every
  request for the domain goes to the site that comes last in the list.\<close>

lemma case_variants_shadow:
  assumes "ss = before @ a # between @ b # after" and "serves uni domain a" and "serves uni domain b"
    and "\<forall>s \<in> set after. \<not> serves uni domain s" and "host_domain uni host = domain"
  shows "handlerFor uni host (Proxy_Reload uni load mgr ss p) = Some (handler_of mgr b)"
  using assms
  by (auto simp: handlerFor_def Proxy_Reload_lookup routed_def find_append split: option.splits dest!: find_SomeD)

lemma case_variants_shadow_witness:
  "handlerFor (\<lambda>s. s) ''example.com'' (Proxy_Reload (\<lambda>s. s) (\<lambda>_ _. None :: string option) sample_manager
     [sample_site, test_site ''example.com'' WAFModeOff TLSModeOff] New_Proxy) = Some (ReverseProxy app_url)"
  by (subst case_variants_shadow [where before = "[]" and a = sample_site and between = "[]"
        and b = "test_site ''example.com'' WAFModeOff TLSModeOff" and after = "[]", OF _ _ _ _ host_domain_example])
    (simp_all add: handler_of_def Engine_def sample_manager_def)

end
