(* ===== verification/Portal_Reload.thy ===== *)
theory Portal_Reload
  imports Proxy Store_Queries
begin

text \<open>
  The state the control plane and the data plane share, and the function that brings the second in
  line with the first: the closure \<open>reload\<close> of \<^verbatim>\<open>cmd/wafportal/main.go\<close>. It reads the enabled directives,
  compiles them, and only then rebuilds the routing, which captures the new engines.
\<close>

record ('waf, 'cert) portal =
  p_store :: db
  p_waf :: "'waf manager"
  p_proxy :: "('waf, 'cert) proxy"

datatype portal_error = ReloadStore db_error | ReloadWaf reload_error

definition portal_reload ::
  "(string \<Rightarrow> string + 'waf) \<Rightarrow> (string \<Rightarrow> string) \<Rightarrow> (string \<Rightarrow> string \<Rightarrow> 'cert option)
   \<Rightarrow> ('waf, 'cert) portal \<Rightarrow> (portal_error + unit) \<times> ('waf, 'cert) portal" where
  "portal_reload newWAF uni load a =
     (case EnabledRuleDirectives (p_store a) of
        (Inl e, d) \<Rightarrow> (Inl (ReloadStore e), a\<lparr>p_store := d\<rparr>)
      | (Inr directives, d) \<Rightarrow>
          (case Manager_Reload newWAF directives (p_waf a) of
             (Inl e, m) \<Rightarrow> (Inl (ReloadWaf e), a\<lparr>p_store := d, p_waf := m\<rparr>)
           | (Inr _, m) \<Rightarrow>
               (case ListSites d of
                  (Inl e, d) \<Rightarrow> (Inl (ReloadStore e), a\<lparr>p_store := d, p_waf := m\<rparr>)
                | (Inr ss, d) \<Rightarrow>
                    (Inr (), a\<lparr>p_store := d, p_waf := m, p_proxy := Proxy_Reload uni load m ss (p_proxy a)\<rparr>))))"

section \<open>Facts\<close>

text \<open>The directives of a database, as a reload without driver failures reads them.\<close>

definition stored_directives :: "db \<Rightarrow> string list" where
  "stored_directives d = map rule_Directive (sort_key rule_ID (filter rule_Enabled (rules d)))"

definition stored_sites :: "db \<Rightarrow> site list" where
  "stored_sites d = sort_key site_Domain (sites d)"

definition compiles :: "(string \<Rightarrow> string + 'waf) \<Rightarrow> string list \<Rightarrow> bool" where
  "compiles newWAF ds \<longleftrightarrow> (\<exists>on det. newWAF (directives_of (Join ds newline) ''On'') = Inr on \<and>
     newWAF (directives_of (Join ds newline) ''DetectionOnly'') = Inr det)"

lemma compiles_iff: "compiles newWAF ds \<longleftrightarrow> fst (Manager_Reload newWAF ds m) = Inr ()"
  by (simp add: compiles_def Manager_Reload_ok_iff build_def)

lemma portal_reload_sound:
  assumes "faults (p_store a) = []"
  shows "portal_reload newWAF uni load a =
    (case Manager_Reload newWAF (stored_directives (p_store a)) (p_waf a) of
       (Inl e, _) \<Rightarrow> (Inl (ReloadWaf e), a)
     | (Inr _, m) \<Rightarrow>
         (Inr (), a\<lparr>p_waf := m, p_proxy := Proxy_Reload uni load m (stored_sites (p_store a)) (p_proxy a)\<rparr>))"
proof -
  obtain res m where run: "Manager_Reload newWAF (stored_directives (p_store a)) (p_waf a) = (res, m)" by fastforce
  moreover have "res \<noteq> Inr () \<Longrightarrow> m = p_waf a"
    using waf_reload.fail_keeps [of newWAF "stored_directives (p_store a)" "p_waf a"] run by simp
  ultimately show ?thesis
    using assms
    by (cases res) (auto simp: portal_reload_def EnabledRuleDirectives_def ListSites_def stmt_def stored_directives_def
        stored_sites_def)
qed

lemma portal_reload_ok_iff:
  assumes "faults (p_store a) = []"
  shows "fst (portal_reload newWAF uni load a) = Inr () \<longleftrightarrow> compiles newWAF (stored_directives (p_store a))"
  using compiles_iff [of newWAF "stored_directives (p_store a)" "p_waf a"]
  by (auto simp: portal_reload_sound [OF assms] split: prod.splits sum.splits)

text \<open>The routing that belongs to a list of sites and the engines of a manager, by what it answers for every
  domain; and the data plane that belongs to a database.\<close>

definition routing_of ::
  "(string \<Rightarrow> string) \<Rightarrow> (string \<Rightarrow> string \<Rightarrow> 'cert option) \<Rightarrow> 'waf manager \<Rightarrow> site list \<Rightarrow> ('waf, 'cert) proxy \<Rightarrow> bool" where
  "routing_of uni load m ss p \<longleftrightarrow> (\<forall>domain.
     handlers p domain = map_option (handler_of m) (routed uni ss domain) \<and>
     autoDomains p domain =
       (if \<exists>s \<in> set ss. serves uni domain s \<and> site_TLSMode s = TLSModeAuto then Some True else None) \<and>
     manualCerts p domain =
       (case find (\<lambda>s. serves uni domain s \<and> site_TLSMode s = TLSModeManual \<and>
                       load (site_CertFile s) (site_KeyFile s) \<noteq> None) (rev ss) of
          None \<Rightarrow> None | Some s \<Rightarrow> load (site_CertFile s) (site_KeyFile s)))"

definition in_sync ::
  "(string \<Rightarrow> string + 'waf) \<Rightarrow> (string \<Rightarrow> string) \<Rightarrow> (string \<Rightarrow> string \<Rightarrow> 'cert option) \<Rightarrow> db
   \<Rightarrow> ('waf, 'cert) portal \<Rightarrow> bool" where
  "in_sync newWAF uni load d a \<longleftrightarrow>
     compiled newWAF (stored_directives d) (p_waf a) \<and> routing_of uni load (p_waf a) (stored_sites d) (p_proxy a)"

lemma routing_of_iff: "routing_of uni load m ss p \<longleftrightarrow> p = Proxy_Reload uni load m ss q"
proof
  assume "routing_of uni load m ss p"
  then have "handlers p = handlers (Proxy_Reload uni load m ss q)" "autoDomains p = autoDomains (Proxy_Reload uni load m ss q)"
    "manualCerts p = manualCerts (Proxy_Reload uni load m ss q)"
    by (auto simp: routing_of_def Proxy_Reload_lookup fun_eq_iff)
  then show "p = Proxy_Reload uni load m ss q" by (cases p; cases "Proxy_Reload uni load m ss q") simp
next
  assume "p = Proxy_Reload uni load m ss q"
  then show "routing_of uni load m ss p" by (simp add: routing_of_def Proxy_Reload_lookup)
qed

lemma compiled_iff: "compiled newWAF ds m \<longleftrightarrow> Manager_Reload newWAF ds m = (Inr (), m)"
proof
  assume c: "compiled newWAF ds m"
  then obtain on det where e: "engines m WAFModeOn = Some on" "engines m WAFModeDetection = Some det"
    unfolding compiled_def by blast
  have "newWAF (directives_of (Join ds newline) (engine_word mode)) = Inr x" if "engines m mode = Some x" for mode x
    using c that by (simp add: compiled_def Engine_def)
  from this [OF e(1)] this [OF e(2)]
  have "build newWAF (Join ds newline) ''On'' = Inr on" "build newWAF (Join ds newline) ''DetectionOnly'' = Inr det"
    by (simp_all add: build_def engine_word_def)
  moreover have "engines m = [WAFModeOn \<mapsto> on, WAFModeDetection \<mapsto> det]"
  proof
    fix x
    show "engines m x = [WAFModeOn \<mapsto> on, WAFModeDetection \<mapsto> det] x"
    proof (cases "x \<in> dom (engines m)")
      case True
      then show ?thesis using c e by (auto simp: compiled_def)
    next
      case False
      then show ?thesis using c by (auto simp: compiled_def domIff)
    qed
  qed
  ultimately show "Manager_Reload newWAF ds m = (Inr (), m)" by (simp add: Manager_Reload_def)
qed (rule Manager_Reload_compiled)

lemma in_sync_iff:
  "in_sync newWAF uni load d a \<longleftrightarrow> Manager_Reload newWAF (stored_directives d) (p_waf a) = (Inr (), p_waf a) \<and>
     p_proxy a = Proxy_Reload uni load (p_waf a) (stored_sites d) (p_proxy a)"
  using routing_of_iff [of uni load "p_waf a" "stored_sites d" "p_proxy a" "p_proxy a"] by (simp add: in_sync_def compiled_iff)

lemma Manager_Reload_again:
  "Manager_Reload newWAF ds m = (Inr (), m') \<Longrightarrow> Manager_Reload newWAF ds m' = (Inr (), m')"
  using waf_reload.same_verdict [of newWAF ds m m'] waf_reload.history_free [of newWAF ds m m']
  by (metis fst_conv prod.collapse snd_conv)

lemma Proxy_Reload_again: "Proxy_Reload uni load m ss (Proxy_Reload uni load m ss p) = Proxy_Reload uni load m ss p"
  by (simp add: Proxy_Reload_def Let_def)

lemma Proxy_Reload_any: "Proxy_Reload uni load m ss p = Proxy_Reload uni load m ss q"
  by (simp add: Proxy_Reload_def Let_def)

lemma portal_reload_syncs:
  assumes "faults (p_store a) = []" and "portal_reload newWAF uni load a = (Inr (), a')"
  shows "in_sync newWAF uni load (p_store a) a' \<and> p_store a' = p_store a"
  using assms(2) unfolding portal_reload_sound [OF assms(1)]
  by (auto simp: in_sync_iff Manager_Reload_again Proxy_Reload_again split: prod.splits sum.splits)

text \<open>A reload that reports success has brought the data plane in line, whatever the driver did besides.\<close>

lemma stored_same_data:
  "same_data d d' \<Longrightarrow> stored_directives d' = stored_directives d" "same_data d d' \<Longrightarrow> stored_sites d' = stored_sites d"
  by (simp_all add: stored_directives_def stored_sites_def same_dataD)

lemma portal_reload_success:
  assumes "portal_reload newWAF uni load a = (Inr u, a')"
  shows "in_sync newWAF uni load (p_store a) a' \<and> same_data (p_store a) (p_store a')"
proof -
  from assms obtain ds d1 m ss d2 where e: "EnabledRuleDirectives (p_store a) = (Inr ds, d1)"
    and m: "Manager_Reload newWAF ds (p_waf a) = (Inr (), m)" and l: "ListSites d1 = (Inr ss, d2)"
    and a': "a' = a\<lparr>p_store := d2, p_waf := m, p_proxy := Proxy_Reload uni load m ss (p_proxy a)\<rparr>"
    by (auto simp: portal_reload_def split: prod.splits sum.splits)
  have d: "same_data (p_store a) d1" "same_data d1 d2"
    using queries_same_data(5) [of "p_store a"] queries_same_data(2) [of d1] e l by simp_all
  have "ds = stored_directives (p_store a)" using e by (auto simp: EnabledRuleDirectives_def stored_directives_def elim!: stmt_cases)
  moreover have "ss = stored_sites (p_store a)"
    using l stored_same_data(2) [OF d(1)] by (auto simp: ListSites_def stored_sites_def elim!: stmt_cases)
  ultimately show ?thesis
    using m d same_data_trans routing_of_iff Manager_Reload_compiled by (fastforce simp: in_sync_def a')
qed

text \<open>Reloading from a given state of the store, with the driver failures it has in stock, as a reload of the
  engines and a reload of the routing: the second has a failure of its own, the query of the sites.\<close>

definition reload_from ::
  "(string \<Rightarrow> string + 'waf) \<Rightarrow> (string \<Rightarrow> string) \<Rightarrow> (string \<Rightarrow> string \<Rightarrow> 'cert option) \<Rightarrow> db
   \<Rightarrow> 'waf manager \<times> ('waf, 'cert) proxy \<Rightarrow> 'waf manager \<times> ('waf, 'cert) proxy" where
  "reload_from newWAF uni load d s =
     (case portal_reload newWAF uni load \<lparr>p_store = d, p_waf = fst s, p_proxy = snd s\<rparr> of (res, a) \<Rightarrow> (p_waf a, p_proxy a))"

definition load_engines ::
  "(string \<Rightarrow> string + 'waf) \<Rightarrow> db \<Rightarrow> 'waf manager \<Rightarrow> (portal_error + unit) \<times> 'waf manager" where
  "load_engines newWAF d m =
     (case fst (EnabledRuleDirectives d) of
        Inl e \<Rightarrow> (Inl (ReloadStore e), m)
      | Inr ds \<Rightarrow> map_prod (map_sum ReloadWaf id) id (Manager_Reload newWAF ds m))"

definition load_routes ::
  "(string \<Rightarrow> string + 'waf) \<Rightarrow> (string \<Rightarrow> string) \<Rightarrow> (string \<Rightarrow> string \<Rightarrow> 'cert option) \<Rightarrow> db
   \<Rightarrow> ('waf, 'cert) proxy \<Rightarrow> (portal_error + unit) \<times> ('waf, 'cert) proxy" where
  "load_routes newWAF uni load d p =
     (case load_engines newWAF d NewManager of
        (Inl e, _) \<Rightarrow> (Inl e, p)
      | (Inr _, m) \<Rightarrow>
          (case fst (ListSites (snd (EnabledRuleDirectives d))) of
             Inl e \<Rightarrow> (Inl (ReloadStore e), p)
           | Inr ss \<Rightarrow> (Inr (), Proxy_Reload uni load m ss p)))"

lemma load_engines_verdict:
  "fst (EnabledRuleDirectives d) = Inr ds \<Longrightarrow> fst (load_engines newWAF d m) = Inr () \<longleftrightarrow> fst (Manager_Reload newWAF ds m) = Inr ()"
  "fst (EnabledRuleDirectives d) = Inl e \<Longrightarrow> load_engines newWAF d m = (Inl (ReloadStore e), m)"
  by (cases "fst (Manager_Reload newWAF ds m)") (auto simp: load_engines_def)

interpretation engine_sync: atomic_reload "load_engines newWAF"
proof (unfold_locales, goal_cases)
  case (1 d m)
  then show ?case
  proof (cases "fst (EnabledRuleDirectives d)")
    case (Inr ds)
    with 1 waf_reload.fail_keeps [of newWAF ds m] load_engines_verdict(1) [OF Inr, of newWAF m] show ?thesis
      by (simp add: load_engines_def)
  qed (simp add: load_engines_verdict)
next
  case (2 d m n)
  show ?case
  proof (cases "fst (EnabledRuleDirectives d)")
    case (Inr ds)
    with waf_reload.same_verdict [of newWAF ds m n] show ?thesis by (simp add: load_engines_def)
  qed (simp add: load_engines_verdict)
next
  case (3 d m n)
  then show ?case
  proof (cases "fst (EnabledRuleDirectives d)")
    case (Inr ds)
    with 3 waf_reload.history_free [of newWAF ds m n] load_engines_verdict(1) [OF Inr, of newWAF m] show ?thesis
      by (simp add: load_engines_def)
  qed (simp add: load_engines_verdict)
qed

interpretation route_sync: atomic_reload "load_routes newWAF uni load"
proof (unfold_locales, goal_cases)
  case (3 d p q)
  then show ?case
    using Proxy_Reload_any [of uni load _ _ p q] by (auto simp: load_routes_def split: sum.splits prod.splits)
qed (auto simp: load_routes_def split: sum.splits prod.splits)

lemma load_ok_iff:
  "fst (load_engines newWAF d m) = Inr () \<longleftrightarrow> runs 0 d \<and> compiles newWAF (stored_directives d)"
  "fst (load_routes newWAF uni load d p) = Inr () \<longleftrightarrow> runs 0 d \<and> runs 1 d \<and> compiles newWAF (stored_directives d)"
proof -
  show e: "fst (load_engines newWAF d m) = Inr () \<longleftrightarrow> runs 0 d \<and> compiles newWAF (stored_directives d)" for m
    using compiles_iff [of newWAF "stored_directives d" m]
    by (cases "fst (Manager_Reload newWAF (stored_directives d) m)")
      (auto simp: load_engines_def EnabledRuleDirectives_def stmt_runs stored_directives_def)
  show "fst (load_routes newWAF uni load d p) = Inr () \<longleftrightarrow> runs 0 d \<and> runs 1 d \<and> compiles newWAF (stored_directives d)"
    using e [of NewManager]
    by (auto simp: load_routes_def EnabledRuleDirectives_def ListSites_def stmt_runs split: sum.splits prod.splits)
qed

lemma load_results:
  "fst (load_engines newWAF d m) = Inr () \<Longrightarrow> compiled newWAF (stored_directives d) (snd (load_engines newWAF d m))"
  "fst (load_routes newWAF uni load d p) = Inr () \<Longrightarrow>
     \<exists>m. compiled newWAF (stored_directives d) m \<and> routing_of uni load m (stored_sites d) (snd (load_routes newWAF uni load d p))"
proof -
  show e: "compiled newWAF (stored_directives d) (snd (load_engines newWAF d m))" if "fst (load_engines newWAF d m) = Inr ()" for m
  proof -
    obtain v n where r: "Manager_Reload newWAF (stored_directives d) m = (v, n)" by fastforce
    from that load_ok_iff(1) [of newWAF d m] have "runs 0 d" "compiles newWAF (stored_directives d)" by simp_all
    then have "v = Inr ()" "load_engines newWAF d m = (Inr (), n)"
      using r compiles_iff [of newWAF "stored_directives d" m]
      by (simp_all add: load_engines_def EnabledRuleDirectives_def stmt_runs stored_directives_def)
    with Manager_Reload_compiled r show ?thesis by simp
  qed
  show "\<exists>m. compiled newWAF (stored_directives d) m \<and> routing_of uni load m (stored_sites d) (snd (load_routes newWAF uni load d p))"
    if "fst (load_routes newWAF uni load d p) = Inr ()"
  proof -
    from that load_ok_iff(2) [of newWAF uni load d p] have "runs 0 d" "runs 1 d" "compiles newWAF (stored_directives d)" by simp_all
    then have ok: "fst (load_engines newWAF d NewManager) = Inr ()" by (simp add: load_ok_iff)
    with that have "snd (load_routes newWAF uni load d p) =
        Proxy_Reload uni load (snd (load_engines newWAF d NewManager)) (stored_sites d) p"
      using \<open>runs 0 d\<close> \<open>runs 1 d\<close>
      by (auto simp: load_routes_def EnabledRuleDirectives_def ListSites_def stmt_runs stored_sites_def split: sum.splits prod.splits)
    with e [OF ok] routing_of_iff show ?thesis by blast
  qed
qed

lemma reload_from_parts:
  "reload_from newWAF uni load d (m, p) = (snd (load_engines newWAF d m), snd (load_routes newWAF uni load d p))"
proof -
  obtain r d1 where e: "EnabledRuleDirectives d = (r, d1)" by fastforce
  show ?thesis
  proof (cases r)
    case (Inl x)
    with e show ?thesis by (simp add: reload_from_def portal_reload_def load_routes_def load_engines_def)
  next
    case (Inr ds)
    obtain v n where r1: "Manager_Reload newWAF ds m = (v, n)" by fastforce
    obtain v' n' where r2: "Manager_Reload newWAF ds NewManager = (v', n')" by fastforce
    have "v' = v" using waf_reload.same_verdict [of newWAF ds m NewManager] r1 r2 by simp
    moreover have "n' = n" if "v = Inr ()" using waf_reload.history_free [of newWAF ds m NewManager] r1 r2 that by simp
    moreover obtain l d2 where "ListSites d1 = (l, d2)" by fastforce
    ultimately show ?thesis
      using Inr e r1 r2
      by (cases v; cases l) (auto simp: reload_from_def portal_reload_def load_routes_def load_engines_def)
  qed
qed

section \<open>Properties\<close>

lemma portal_reload_outcome:
  assumes "faults (p_store a) = []" and "portal_reload newWAF uni load a = (res, a')"
  shows "if compiles newWAF (stored_directives (p_store a))
    then res = Inr () \<and> in_sync newWAF uni load (p_store a) a' \<and> p_store a' = p_store a
    else res \<noteq> Inr () \<and> a' = a"
proof (cases "compiles newWAF (stored_directives (p_store a))")
  case True
  then have "res = Inr ()" using portal_reload_ok_iff [OF assms(1), of newWAF uni load] assms(2) by simp
  with portal_reload_syncs [OF assms(1)] assms(2) True show ?thesis by auto
next
  case False
  then have "res \<noteq> Inr ()" using portal_reload_ok_iff [OF assms(1), of newWAF uni load] assms(2) by simp
  with assms False show ?thesis
    by (auto simp: portal_reload_sound split: prod.splits sum.splits)
qed

lemma portal_reload_atomic_facts:
  assumes "faults (p_store a) = []" and "portal_reload newWAF uni load a = (res, b)"
  shows "p_store b = p_store a" and "res = Inr () \<longleftrightarrow> compiles newWAF (stored_directives (p_store a))"
    and "res = Inr () \<Longrightarrow> in_sync newWAF uni load (p_store a) b" and "res \<noteq> Inr () \<Longrightarrow> b = a"
  using portal_reload_outcome [OF assms] by (auto split: if_splits)

text \<open>C5: A reload is all or nothing. Without a failure of the database driver it succeeds exactly when
  both engines compile from the enabled directives; then the engines are those of the stored rules, and
  the routing is that of the stored sites over these engines. Otherwise it changes nothing at all.\<close>

theorem reload_atomic:
  assumes "faults (p_store a) = []" and "portal_reload newWAF uni load a = (res, a')"
  shows "if compiles newWAF (stored_directives (p_store a))
    then res = Inr () \<and> in_sync newWAF uni load (p_store a) a' \<and> p_store a' = p_store a
    else res \<noteq> Inr () \<and> a' = a"
  using assms by (rule portal_reload_outcome)

definition fresh_portal :: "(string, string) portal" where
  "fresh_portal = \<lparr>p_store = empty_db, p_waf = NewManager, p_proxy = New_Proxy\<rparr>"

lemma text_waf_base: "text_waf (directives_of [] ''On'') = Inr (directives_of [] ''On'')"
    "text_waf (directives_of [] ''DetectionOnly'') = Inr (directives_of [] ''DetectionOnly'')"
  by (simp_all add: text_waf_def directives_of_def baseDirectives_def newline_def)

lemma compiles_none: "compiles text_waf []"
  by (simp add: compiles_iff [of _ _ NewManager] Manager_Reload_def build_def Join_def text_waf_base)

theorem reload_atomic_witness:
  "fst (portal_reload text_waf (\<lambda>s. s) (\<lambda>_ _. None) fresh_portal) = Inr ()"
  using reload_atomic [OF _ prod.collapse [symmetric], of fresh_portal text_waf "\<lambda>s. s" "\<lambda>_ _. None"] compiles_none
  by (simp add: fresh_portal_def empty_db_def stored_directives_def)

text \<open>C19: However often the portal is reloaded, from whatever contents of the store and with whatever driver
  failures: the engines in force are those of the last reload whose directives could be read and
  compiled, and the routing in force is that of the last reload whose sites could be read as well, over
  the engines of that reload; without any such reload they are what they were. (So a reload that fails
  between its two queries leaves new engines beside the old routing, which keeps the engines it has.)\<close>

theorem reloads_keep_last_good:
  assumes "fold (reload_from newWAF uni load) history (m, p) = (m', p')"
  shows "(case find (\<lambda>d. runs 0 d \<and> compiles newWAF (stored_directives d)) (rev history) of
      None \<Rightarrow> m' = m
    | Some d \<Rightarrow> compiled newWAF (stored_directives d) m') \<and>
    (case find (\<lambda>d. runs 0 d \<and> runs 1 d \<and> compiles newWAF (stored_directives d)) (rev history) of
      None \<Rightarrow> p' = p
    | Some d \<Rightarrow> \<exists>n. compiled newWAF (stored_directives d) n \<and> routing_of uni load n (stored_sites d) p')"
proof -
  have "fold (reload_from newWAF uni load) history (m, p) =
      (fold (\<lambda>d s. snd (load_engines newWAF d s)) history m, fold (\<lambda>d s. snd (load_routes newWAF uni load d s)) history p)"
    by (induction history arbitrary: m p) (simp_all add: reload_from_parts)
  with assms have "m' = fold (\<lambda>d s. snd (load_engines newWAF d s)) history m"
    "p' = fold (\<lambda>d s. snd (load_routes newWAF uni load d s)) history p" by simp_all
  then show ?thesis
    using load_results(1) [of newWAF _ m] load_results(2) [of newWAF uni load _ p]
    by (auto simp: engine_sync.after_reloads route_sync.after_reloads load_ok_iff split: option.splits dest!: find_SomeD)
qed

text \<open>A second reload whose query of the sites fails, on a portal with other rules.\<close>

theorem reloads_keep_last_good_witness:
  "\<exists>m' p'. fold (reload_from text_waf (\<lambda>s. s) (\<lambda>_ _. None :: string option))
       [empty_db, empty_db\<lparr>sites := [sample_site], faults := [None, Some ''disk I/O error'']\<rparr>] (NewManager, New_Proxy) = (m', p') \<and>
     compiled text_waf [] m' \<and> handlers p' ''example.com'' = None"
proof -
  let ?ds = "[empty_db, empty_db\<lparr>sites := [sample_site], faults := [None, Some ''disk I/O error'']\<rparr>]"
  obtain m' p' where run: "fold (reload_from text_waf (\<lambda>s. s) (\<lambda>_ _. None :: string option)) ?ds (NewManager, New_Proxy) = (m', p')"
    by fastforce
  from reloads_keep_last_good [OF run] compiles_none have "compiled text_waf [] m' \<and> handlers p' ''example.com'' = None"
    by (auto simp: runs_def stored_directives_def stored_sites_def routing_of_def routed_def empty_db_def)
  with run show ?thesis by blast
qed

end
