(* ===== verification/Control_Api.thy ===== *)
theory Control_Api
  imports Portal_Reload Auth
begin

text \<open>
  \<^verbatim>\<open>internal/api\<close>: the control plane. Every handler is a function from the request and the portal's state
  to a response and the new state. A handler's body argument is what \<open>json.Decoder.Decode\<close> makes of the
  request body, an error text or the decoded struct; responses are JSON values. The path parameter
  \<open>{id}\<close> is the text the router extracts.
\<close>

section \<open>The server\<close>

text \<open>Next to the fields of \<open>Server\<close>, what its dependencies are: bcrypt (\<open>gen\<close>, \<open>cmp\<close>), the texts of the
  database driver's errors, the row orders the database chooses where a query leaves them open, the number
  of rows that arrive before an error ends a loop over them, and \<open>time.ParseDuration\<close>. The handler of the app is given by the names its embedded file system has.\<close>

record ('waf, 'cert) server =
  srv_auth :: authenticator
  srv_reload :: "(('waf, 'cert) portal \<Rightarrow> (portal_error + unit) \<times> ('waf, 'cert) portal) option"
  srv_gen :: "string \<Rightarrow> string + string"
  srv_cmp :: "string \<Rightarrow> string \<Rightarrow> bool"
  srv_errtext :: "db_error \<Rightarrow> string"
  srv_rows :: "event_row list \<Rightarrow> event_row list"
  srv_rows2 :: "event_row list \<Rightarrow> event_row list"
  srv_parseDuration :: "string \<Rightarrow> duration option"
  srv_spa :: "(string \<Rightarrow> bool) option"
  srv_got :: "string \<Rightarrow> nat"

definition NewServer ::
  "(string \<Rightarrow> string + string) \<Rightarrow> (string \<Rightarrow> string \<Rightarrow> bool) \<Rightarrow> (db_error \<Rightarrow> string)
   \<Rightarrow> (event_row list \<Rightarrow> event_row list) \<Rightarrow> (event_row list \<Rightarrow> event_row list) \<Rightarrow> (string \<Rightarrow> duration option)
   \<Rightarrow> authenticator \<Rightarrow> (('waf, 'cert) portal \<Rightarrow> (portal_error + unit) \<times> ('waf, 'cert) portal) option
   \<Rightarrow> (string \<Rightarrow> bool) option \<Rightarrow> (string \<Rightarrow> nat) \<Rightarrow> ('waf, 'cert) server" where
  "NewServer gen cmp errtext rows rows2 parse authn reload spa got =
     \<lparr>srv_auth = authn, srv_reload = reload, srv_gen = gen, srv_cmp = cmp, srv_errtext = errtext, srv_rows = rows,
      srv_rows2 = rows2, srv_parseDuration = parse, srv_spa = spa, srv_got = got\<rparr>"

definition with_store :: "(db \<Rightarrow> 'a db_result) \<Rightarrow> ('waf, 'cert) portal \<Rightarrow> (db_error + 'a) \<times> ('waf, 'cert) portal" where
  "with_store f a = (case f (p_store a) of (res, d) \<Rightarrow> (res, a\<lparr>p_store := d\<rparr>))"

section \<open>Responses\<close>

definition writeJSON :: "int \<Rightarrow> json \<Rightarrow> response" where
  "writeJSON status v = \<lparr>rs_Status = status, rs_ContentType = Some ''application/json'', rs_Cookies = [], rs_Body = Some v\<rparr>"

definition writeJSONErr :: "int \<Rightarrow> string \<Rightarrow> response" where
  "writeJSONErr status msg = writeJSON status (JObj [(''error'', JStr msg)])"

definition writeErr :: "('waf, 'cert) server \<Rightarrow> int \<Rightarrow> db_error \<Rightarrow> response" where
  "writeErr s status e = writeJSONErr status (srv_errtext s e)"

definition writeHeaderOnly :: "int \<Rightarrow> response" where
  "writeHeaderOnly status = \<lparr>rs_Status = status, rs_ContentType = None, rs_Cookies = [], rs_Body = None\<rparr>"

definition badJSON :: "string \<Rightarrow> response" where
  "badJSON e = writeJSONErr StatusBadRequest (''invalid JSON: '' @ e)"

text \<open>The encodings of the store's types, with \<open>omitempty\<close> where the struct tags have it. A slice that no
  row was appended to is nil and encodes as null; \<open>orEmpty\<close> makes it an empty array at the top level.\<close>

definition omitempty :: "string \<Rightarrow> string \<Rightarrow> (string \<times> json) list" where
  "omitempty k v = (if v = [] then [] else [(k, JStr v)])"

definition slice :: "json list \<Rightarrow> json" where
  "slice js = (if js = [] then JNull else JArr js)"

definition orEmpty :: "json list \<Rightarrow> json" where
  "orEmpty js = JArr js"

definition site_json :: "site \<Rightarrow> json" where
  "site_json s = JObj ([(''id'', JInt (site_ID s)), (''domain'', JStr (site_Domain s)),
     (''upstream_url'', JStr (site_UpstreamURL s)), (''waf_mode'', JStr (site_WAFMode s)),
     (''tls_mode'', JStr (site_TLSMode s))] @ omitempty ''cert_file'' (site_CertFile s) @
     omitempty ''key_file'' (site_KeyFile s) @
     [(''enabled'', JBool (site_Enabled s)), (''created_at'', JTime (site_CreatedAt s)),
      (''updated_at'', JTime (site_UpdatedAt s))])"

definition rule_json :: "custom_rule \<Rightarrow> json" where
  "rule_json r = JObj ([(''id'', JInt (rule_ID r)), (''name'', JStr (rule_Name r)),
     (''directive'', JStr (rule_Directive r))] @ omitempty ''description'' (rule_Description r) @
     [(''enabled'', JBool (rule_Enabled r)), (''created_at'', JTime (rule_CreatedAt r)),
      (''updated_at'', JTime (rule_UpdatedAt r))])"

definition event_json :: "event \<Rightarrow> json" where
  "event_json e = JObj [(''id'', JInt (ev_ID e)), (''timestamp'', JTime (ev_Timestamp e)), (''tx_id'', JStr (ev_TxID e)),
     (''domain'', JStr (ev_Domain e)), (''client_ip'', JStr (ev_ClientIP e)), (''method'', JStr (ev_Method e)),
     (''uri'', JStr (ev_URI e)), (''blocked'', JBool (ev_Blocked e)), (''status_code'', JInt (ev_StatusCode e)),
     (''rule_id'', JInt (ev_RuleID e)), (''message'', JStr (ev_Message e)), (''severity'', JInt (ev_Severity e)),
     (''anomaly_score'', JInt (ev_AnomalyScore e)), (''matched_rules'', slice (map JInt (ev_MatchedRules e)))]"

definition stats_json :: "stats \<Rightarrow> json" where
  "stats_json st = JObj [(''total_events'', JInt (int (TotalEvents st))), (''blocked_events'', JInt (int (BlockedEvents st))),
     (''top_rules'', slice (map (\<lambda>rc. JObj [(''rule_id'', JInt (rc_RuleID rc)), (''message'', JStr (rc_Message rc)),
        (''count'', JInt (int (rc_Count rc)))]) (TopRules st))),
     (''top_clients'', slice (map (\<lambda>cc. JObj [(''client_ip'', JStr (cc_ClientIP cc)), (''count'', JInt (int (cc_Count cc)))])
        (TopClients st))),
     (''timeline'', slice (map (\<lambda>tp. JObj [(''bucket'', JTime (tp_Bucket tp)), (''total'', JInt (int (tp_Total tp))),
        (''blocked'', JInt (int (tp_Blocked tp)))]) (Timeline st)))]"

section \<open>Helpers\<close>

fun reload_text :: "('waf, 'cert) server \<Rightarrow> portal_error \<Rightarrow> string" where
  "reload_text s (ReloadStore e) = srv_errtext s e"
| "reload_text s (ReloadWaf (BuildBlocking e)) = ''build blocking engine: '' @ e"
| "reload_text s (ReloadWaf (BuildDetection e)) = ''build detection engine: '' @ e"

definition applyReloadErr ::
  "('waf, 'cert) server \<Rightarrow> ('waf, 'cert) portal \<Rightarrow> (portal_error + unit) \<times> ('waf, 'cert) portal" where
  "applyReloadErr s a = (case srv_reload s of None \<Rightarrow> (Inr (), a) | Some reload \<Rightarrow> reload a)"

definition applyReload :: "('waf, 'cert) server \<Rightarrow> ('waf, 'cert) portal \<Rightarrow> ('waf, 'cert) portal" where
  "applyReload s a = snd (applyReloadErr s a)"

text \<open>The message, empty when the site is fine, and the site with its defaults filled in.\<close>

definition validateSite :: "site \<Rightarrow> string \<times> site" where
  "validateSite s =
     (if site_Domain s = [] then (''domain is required'', s)
      else if site_UpstreamURL s = [] then (''upstream_url is required'', s)
      else if \<not> (site_WAFMode s \<in> {WAFModeOn, WAFModeDetection, WAFModeOff} \<or> site_WAFMode s = [])
      then (''invalid waf_mode'', s)
      else let s = (if site_WAFMode s = [] then s\<lparr>site_WAFMode := WAFModeOn\<rparr> else s)
           in if \<not> (site_TLSMode s \<in> {TLSModeAuto, TLSModeManual, TLSModeOff} \<or> site_TLSMode s = [])
              then (''invalid tls_mode'', s)
              else let s = (if site_TLSMode s = [] then s\<lparr>site_TLSMode := TLSModeAuto\<rparr> else s)
                   in if site_TLSMode s = TLSModeManual \<and> (site_CertFile s = [] \<or> site_KeyFile s = [])
                      then (''cert_file and key_file are required for manual TLS'', s)
                      else ([], s))"

definition idParam :: "string \<Rightarrow> int" where
  "idParam param = fst (ParseInt param)"

definition atoiDefault :: "string \<Rightarrow> int \<Rightarrow> int" where
  "atoiDefault s def = (case Atoi s of (n, None) \<Rightarrow> n | (_, Some _) \<Rightarrow> def)"

section \<open>Account handlers\<close>

definition login ::
  "('waf, 'cert) server \<Rightarrow> string + (string \<times> string) \<Rightarrow> go_time \<Rightarrow> http_request \<Rightarrow> ('waf, 'cert) portal
   \<Rightarrow> response \<times> ('waf, 'cert) portal" where
  "login s body now r a =
     (case body of
        Inl e \<Rightarrow> (badJSON e, a)
      | Inr (username, password) \<Rightarrow>
          (case Check (srv_cmp s) username password (p_store a) of (ok, d) \<Rightarrow>
             let a = a\<lparr>p_store := d\<rparr>
             in if \<not> ok then (writeJSONErr StatusUnauthorized ''invalid username or password'', a)
                else ((writeJSON StatusOK (JObj [(''username'', JStr username)]))
                        \<lparr>rs_Cookies := [IssueCookie (srv_auth s) r username now]\<rparr>, a)))"

definition logout :: "('waf, 'cert) portal \<Rightarrow> response \<times> ('waf, 'cert) portal" where
  "logout a = ((writeHeaderOnly StatusNoContent)\<lparr>rs_Cookies := [Clear]\<rparr>, a)"

definition me ::
  "('waf, 'cert) server \<Rightarrow> go_time \<Rightarrow> http_request \<Rightarrow> ('waf, 'cert) portal \<Rightarrow> response \<times> ('waf, 'cert) portal" where
  "me s now r a =
     (writeJSON StatusOK (JObj [(''username'', JStr (case CurrentUser (srv_auth s) r now of None \<Rightarrow> [] | Some u \<Rightarrow> u))]), a)"

fun auth_text :: "('waf, 'cert) server \<Rightarrow> password_error \<Rightarrow> string" where
  "auth_text s (PwDb e) = srv_errtext s e"
| "auth_text s (PwBcrypt e) = e"
| "auth_text s ErrInvalidCredentials = ''invalid username or password''"
| "auth_text s ErrPasswordTooShort = ''new password must be at least 8 characters''"

definition changePassword ::
  "('waf, 'cert) server \<Rightarrow> string + (string \<times> string) \<Rightarrow> ('waf, 'cert) portal \<Rightarrow> response \<times> ('waf, 'cert) portal" where
  "changePassword s body a =
     (case body of
        Inl e \<Rightarrow> (badJSON e, a)
      | Inr (current, nxt) \<Rightarrow>
          (case ChangePassword (srv_gen s) (srv_cmp s) current nxt (p_store a) of
             (Inl e, d) \<Rightarrow> (writeJSONErr StatusBadRequest (auth_text s e), a\<lparr>p_store := d\<rparr>)
           | (Inr _, d) \<Rightarrow> (writeHeaderOnly StatusNoContent, a\<lparr>p_store := d\<rparr>)))"

section \<open>Site handlers\<close>

definition listSites :: "('waf, 'cert) server \<Rightarrow> ('waf, 'cert) portal \<Rightarrow> response \<times> ('waf, 'cert) portal" where
  "listSites s a =
     (case with_store ListSites a of
        (Inl e, a) \<Rightarrow> (writeErr s StatusInternalServerError e, a)
      | (Inr ss, a) \<Rightarrow> (writeJSON StatusOK (orEmpty (map site_json ss)), a))"

definition getSite :: "('waf, 'cert) server \<Rightarrow> string \<Rightarrow> ('waf, 'cert) portal \<Rightarrow> response \<times> ('waf, 'cert) portal" where
  "getSite s param a =
     (case with_store (GetSite (idParam param)) a of
        (Inl e, a) \<Rightarrow> (writeErr s StatusNotFound e, a)
      | (Inr st, a) \<Rightarrow> (writeJSON StatusOK (site_json st), a))"

definition createSite ::
  "('waf, 'cert) server \<Rightarrow> string + site \<Rightarrow> go_time \<Rightarrow> ('waf, 'cert) portal \<Rightarrow> response \<times> ('waf, 'cert) portal" where
  "createSite s body now a =
     (case body of
        Inl e \<Rightarrow> (badJSON e, a)
      | Inr st \<Rightarrow>
          (case validateSite st of (msg, st) \<Rightarrow>
             if msg \<noteq> [] then (writeJSONErr StatusBadRequest msg, a)
             else (case with_store (CreateSite st now) a of
                     (Inl e, a) \<Rightarrow> (writeErr s StatusBadRequest e, a)
                   | (Inr st, a) \<Rightarrow> (writeJSON StatusCreated (site_json st), applyReload s a))))"

definition updateSite ::
  "('waf, 'cert) server \<Rightarrow> string \<Rightarrow> string + site \<Rightarrow> go_time \<Rightarrow> ('waf, 'cert) portal \<Rightarrow> response \<times> ('waf, 'cert) portal" where
  "updateSite s param body now a =
     (case body of
        Inl e \<Rightarrow> (badJSON e, a)
      | Inr st \<Rightarrow>
          (case validateSite (st\<lparr>site_ID := idParam param\<rparr>) of (msg, st) \<Rightarrow>
             if msg \<noteq> [] then (writeJSONErr StatusBadRequest msg, a)
             else (case with_store (UpdateSite st now) a of
                     (Inl e, a) \<Rightarrow> (writeErr s StatusBadRequest e, a)
                   | (Inr st, a) \<Rightarrow> (writeJSON StatusOK (site_json st), applyReload s a))))"

definition deleteSite :: "('waf, 'cert) server \<Rightarrow> string \<Rightarrow> ('waf, 'cert) portal \<Rightarrow> response \<times> ('waf, 'cert) portal" where
  "deleteSite s param a =
     (case with_store (DeleteSite (idParam param)) a of
        (Inl e, a) \<Rightarrow> (writeErr s StatusInternalServerError e, a)
      | (Inr _, a) \<Rightarrow> (writeHeaderOnly StatusNoContent, applyReload s a))"

section \<open>Rule handlers\<close>

definition listRules :: "('waf, 'cert) server \<Rightarrow> ('waf, 'cert) portal \<Rightarrow> response \<times> ('waf, 'cert) portal" where
  "listRules s a =
     (case with_store ListRules a of
        (Inl e, a) \<Rightarrow> (writeErr s StatusInternalServerError e, a)
      | (Inr rs, a) \<Rightarrow> (writeJSON StatusOK (orEmpty (map rule_json rs)), a))"

definition getRule :: "('waf, 'cert) server \<Rightarrow> string \<Rightarrow> ('waf, 'cert) portal \<Rightarrow> response \<times> ('waf, 'cert) portal" where
  "getRule s param a =
     (case with_store (GetRule (idParam param)) a of
        (Inl e, a) \<Rightarrow> (writeErr s StatusNotFound e, a)
      | (Inr r, a) \<Rightarrow> (writeJSON StatusOK (rule_json r), a))"

definition createRule ::
  "('waf, 'cert) server \<Rightarrow> string + custom_rule \<Rightarrow> go_time \<Rightarrow> ('waf, 'cert) portal \<Rightarrow> response \<times> ('waf, 'cert) portal" where
  "createRule s body now a =
     (case body of
        Inl e \<Rightarrow> (badJSON e, a)
      | Inr rule \<Rightarrow>
          if rule_Name rule = [] \<or> rule_Directive rule = []
          then (writeJSONErr StatusBadRequest ''name and directive are required'', a)
          else (case with_store (CreateRule rule now) a of
                  (Inl e, a) \<Rightarrow> (writeErr s StatusBadRequest e, a)
                | (Inr rule, a) \<Rightarrow>
                    (case applyReloadErr s a of
                       (Inl e, a) \<Rightarrow>
                         (writeJSONErr StatusBadRequest (''rule rejected: '' @ reload_text s e),
                          snd (with_store (DeleteRule (rule_ID rule)) a))
                     | (Inr _, a) \<Rightarrow> (writeJSON StatusCreated (rule_json rule), a))))"

definition updateRule ::
  "('waf, 'cert) server \<Rightarrow> string \<Rightarrow> string + custom_rule \<Rightarrow> go_time \<Rightarrow> ('waf, 'cert) portal \<Rightarrow> response \<times> ('waf, 'cert) portal" where
  "updateRule s param body now a =
     (case body of
        Inl e \<Rightarrow> (badJSON e, a)
      | Inr rule0 \<Rightarrow>
          let rule = rule0\<lparr>rule_ID := idParam param\<rparr>
          in if rule_Name rule = [] \<or> rule_Directive rule = []
             then (writeJSONErr StatusBadRequest ''name and directive are required'', a)
             else (case with_store (UpdateRule rule now) a of
                     (Inl e, a) \<Rightarrow> (writeErr s StatusBadRequest e, a)
                   | (Inr rule, a) \<Rightarrow>
                       (case applyReloadErr s a of
                          (Inl e, a) \<Rightarrow> (writeJSONErr StatusBadRequest (''rule rejected: '' @ reload_text s e), a)
                        | (Inr _, a) \<Rightarrow> (writeJSON StatusOK (rule_json rule), a))))"

definition deleteRule :: "('waf, 'cert) server \<Rightarrow> string \<Rightarrow> ('waf, 'cert) portal \<Rightarrow> response \<times> ('waf, 'cert) portal" where
  "deleteRule s param a =
     (case with_store (DeleteRule (idParam param)) a of
        (Inl e, a) \<Rightarrow> (writeErr s StatusInternalServerError e, a)
      | (Inr _, a) \<Rightarrow> (writeHeaderOnly StatusNoContent, applyReload s a))"

section \<open>Monitoring handlers\<close>

text \<open>Like every handler here, \<open>stats\<close> is given as it runs when no other goroutine comes between its statements;
  what the four queries say when events are logged meanwhile is part of the property of \<open>Stats\<close>.\<close>

definition listEvents ::
  "('waf, 'cert) server \<Rightarrow> http_request \<Rightarrow> ('waf, 'cert) portal \<Rightarrow> response \<times> ('waf, 'cert) portal" where
  "listEvents s r a =
     (let q = Values_Get (r_Query r);
          f = \<lparr>f_Domain = q ''domain'', f_BlockedOnly = (q ''blocked'' = ''true''),
               f_Limit = atoiDefault (q ''limit'') 100, f_Offset = atoiDefault (q ''offset'') 0\<rparr>
      in case with_store (ListEvents (srv_rows s) f) a of
           (Inl e, a) \<Rightarrow> (writeErr s StatusInternalServerError e, a)
         | (Inr evs, a) \<Rightarrow> (writeJSON StatusOK (orEmpty (map event_json evs)), a))"

definition stats_handler ::
  "('waf, 'cert) server \<Rightarrow> go_time \<Rightarrow> http_request \<Rightarrow> ('waf, 'cert) portal \<Rightarrow> response \<times> ('waf, 'cert) portal" where
  "stats_handler s now r a =
     (let v = Values_Get (r_Query r) ''window'';
          window = (if v \<noteq> [] then (case srv_parseDuration s v of Some d \<Rightarrow> d | None \<Rightarrow> 24 * hour) else 24 * hour)
      in case with_store (Stats (srv_got s) (srv_rows s) (srv_rows2 s) (\<lambda>_ d. d) window now) a of
           (Inl e, a) \<Rightarrow> (writeErr s StatusInternalServerError e, a)
         | (Inr st, a) \<Rightarrow> (writeJSON StatusOK (stats_json st), a))"

section \<open>The router\<close>

text \<open>The routes of \<open>Handler\<close>, with what the router and the JSON decoder hand to each handler.\<close>

datatype endpoint =
  EpHealth
| EpLogin "string + (string \<times> string)"
| EpLogout
| EpMe
| EpPassword "string + (string \<times> string)"
| EpListSites
| EpCreateSite "string + site"
| EpGetSite string
| EpUpdateSite string "string + site"
| EpDeleteSite string
| EpListRules
| EpCreateRule "string + custom_rule"
| EpGetRule string
| EpUpdateRule string "string + custom_rule"
| EpDeleteRule string
| EpListEvents
| EpStats

fun public :: "endpoint \<Rightarrow> bool" where
  "public EpHealth \<longleftrightarrow> True"
| "public (EpLogin _) \<longleftrightarrow> True"
| "public EpLogout \<longleftrightarrow> True"
| "public _ \<longleftrightarrow> False"

fun serve_endpoint ::
  "('waf, 'cert) server \<Rightarrow> go_time \<Rightarrow> endpoint \<Rightarrow> http_request \<Rightarrow> ('waf, 'cert) portal \<Rightarrow> response \<times> ('waf, 'cert) portal" where
  "serve_endpoint s now EpHealth r a = (writeJSON StatusOK (JObj [(''status'', JStr ''ok'')]), a)"
| "serve_endpoint s now (EpLogin body) r a = login s body now r a"
| "serve_endpoint s now EpLogout r a = logout a"
| "serve_endpoint s now EpMe r a = me s now r a"
| "serve_endpoint s now (EpPassword body) r a = changePassword s body a"
| "serve_endpoint s now EpListSites r a = listSites s a"
| "serve_endpoint s now (EpCreateSite body) r a = createSite s body now a"
| "serve_endpoint s now (EpGetSite param) r a = getSite s param a"
| "serve_endpoint s now (EpUpdateSite param body) r a = updateSite s param body now a"
| "serve_endpoint s now (EpDeleteSite param) r a = deleteSite s param a"
| "serve_endpoint s now EpListRules r a = listRules s a"
| "serve_endpoint s now (EpCreateRule body) r a = createRule s body now a"
| "serve_endpoint s now (EpGetRule param) r a = getRule s param a"
| "serve_endpoint s now (EpUpdateRule param body) r a = updateRule s param body now a"
| "serve_endpoint s now (EpDeleteRule param) r a = deleteRule s param a"
| "serve_endpoint s now EpListEvents r a = listEvents s r a"
| "serve_endpoint s now EpStats r a = stats_handler s now r a"

definition Handler ::
  "('waf, 'cert) server \<Rightarrow> go_time \<Rightarrow> endpoint \<Rightarrow> http_request \<Rightarrow> ('waf, 'cert) portal \<Rightarrow> response \<times> ('waf, 'cert) portal" where
  "Handler s now ep r a =
     (if public ep then serve_endpoint s now ep r a
      else Middleware (srv_auth s) now (serve_endpoint s now ep) r a)"

section \<open>The single-page app\<close>

text \<open>The path the file server is asked for; \<open>stat\<close> tells which names the embedded files have. Slicing the
  empty path panics, which is \<open>None\<close>.\<close>

definition SPAHandler :: "(string \<Rightarrow> bool) \<Rightarrow> string \<Rightarrow> string option" where
  "SPAHandler stat path =
     (if path = ''/'' then Some path
      else case path of
             [] \<Rightarrow> None
           | _ # name \<Rightarrow> if \<not> stat name then Some ''/'' else Some path)"

end
