(* ===== verification/Control_Props.thy ===== *)
theory Control_Props
  imports Control_Api
begin

text \<open>
  What the control plane guarantees: who may do what, which contents the store can ever have, how a
  change reaches the engines and the routing, and what becomes of a directive that does not compile.
\<close>

section \<open>What a handler can do to the store\<close>

definition site_valid :: "site \<Rightarrow> bool" where
  "site_valid st \<longleftrightarrow> site_Domain st \<noteq> [] \<and> site_UpstreamURL st \<noteq> [] \<and>
     site_WAFMode st \<in> {WAFModeOn, WAFModeDetection, WAFModeOff} \<and>
     site_TLSMode st \<in> {TLSModeAuto, TLSModeManual, TLSModeOff} \<and>
     (site_TLSMode st = TLSModeManual \<longrightarrow> site_CertFile st \<noteq> [] \<and> site_KeyFile st \<noteq> [])"

definition rule_valid :: "custom_rule \<Rightarrow> bool" where
  "rule_valid r \<longleftrightarrow> rule_Name r \<noteq> [] \<and> rule_Directive r \<noteq> []"

lemma mode_not_empty [simp]: "WAFModeOn \<noteq> []" "TLSModeAuto \<noteq> []" "TLSModeOff \<noteq> []" "TLSModeManual \<noteq> []"
  by (simp_all add: waf_modes tls_modes)

lemma validateSite_valid: "validateSite st = ([], st') \<Longrightarrow> site_valid st'"
  by (auto simp: validateSite_def site_valid_def Let_def split: if_splits)

inductive store_move :: "db \<Rightarrow> db \<Rightarrow> bool" where
  query: "same_data d d' \<Longrightarrow> store_move d d'"
| create_site: "site_valid st \<Longrightarrow> store_move d (snd (CreateSite st t d))"
| update_site: "site_valid st \<Longrightarrow> store_move d (snd (UpdateSite st t d))"
| delete_site: "store_move d (snd (DeleteSite i d))"
| create_rule: "rule_valid r \<Longrightarrow> store_move d (snd (CreateRule r t d))"
| update_rule: "rule_valid r \<Longrightarrow> store_move d (snd (UpdateRule r t d))"
| delete_rule: "store_move d (snd (DeleteRule i d))"
| set_setting: "store_move d (snd (SetSetting k x d))"
| insert_event: "store_move d (snd (InsertEvent e d))"

abbreviation store_moves :: "db \<Rightarrow> db \<Rightarrow> bool" where
  "store_moves \<equiv> store_move\<^sup>*\<^sup>*"

text \<open>The contents the store is meant to have.\<close>

definition contents_ok :: "db \<Rightarrow> bool" where
  "contents_ok d \<longleftrightarrow> db_ok d \<and> (\<forall>st \<in> set (sites d). site_valid st) \<and> (\<forall>r \<in> set (rules d). rule_valid r)"

lemma sites_after:
  "set (sites (snd (CreateSite st t d))) \<subseteq>
     insert (st\<lparr>site_ID := sites_seq d + 1, site_CreatedAt := t, site_UpdatedAt := t\<rparr>) (set (sites d))"
  "set (sites (snd (UpdateSite st t d))) \<subseteq> set (sites d) \<union> range (set_site st t)"
  "set (sites (snd (DeleteSite i d))) \<subseteq> set (sites d)"
  by (auto simp: store_defs Let_def stmt_def split: list.splits option.splits if_splits)

lemma rules_after:
  "set (rules (snd (CreateRule r t d))) \<subseteq>
     insert (r\<lparr>rule_ID := rules_seq d + 1, rule_CreatedAt := t, rule_UpdatedAt := t\<rparr>) (set (rules d))"
  "set (rules (snd (UpdateRule r t d))) \<subseteq> set (rules d) \<union> range (set_rule r t)"
  "set (rules (snd (DeleteRule i d))) \<subseteq> set (rules d)"
  by (auto simp: store_defs Let_def stmt_def split: list.splits option.splits if_splits)

lemma site_valid_columns [simp]:
  "site_valid (st\<lparr>site_ID := i, site_CreatedAt := c, site_UpdatedAt := u\<rparr>) = site_valid st"
  "site_valid (set_site st t row) = site_valid st"
  by (simp_all add: site_valid_def set_site_def)

lemma rule_valid_columns [simp]:
  "rule_valid (r\<lparr>rule_ID := i, rule_CreatedAt := c, rule_UpdatedAt := u\<rparr>) = rule_valid r"
  "rule_valid (set_rule r t row) = rule_valid r"
  by (simp_all add: rule_valid_def set_rule_def)

lemma store_move_contents: "store_move d d' \<Longrightarrow> contents_ok d \<Longrightarrow> contents_ok d'"
proof (induction rule: store_move.induct)
  case (query d d')
  then show ?case by (simp add: contents_ok_def db_ok_same_data same_dataD)
next
  case (create_site st d t)
  then show ?case using sites_after(1) [of st t d] by (auto simp: contents_ok_def store_db_ok store_frame)
next
  case (update_site st d t)
  then show ?case using sites_after(2) [of st t d] by (fastforce simp: contents_ok_def store_db_ok store_frame)
next
  case (delete_site d i)
  then show ?case using sites_after(3) [of i d] by (auto simp: contents_ok_def store_db_ok store_frame)
next
  case (create_rule r d t)
  then show ?case using rules_after(1) [of r t d] by (auto simp: contents_ok_def store_db_ok store_frame)
next
  case (update_rule r d t)
  then show ?case using rules_after(2) [of r t d] by (fastforce simp: contents_ok_def store_db_ok store_frame)
next
  case (delete_rule d i)
  then show ?case using rules_after(3) [of i d] by (auto simp: contents_ok_def store_db_ok store_frame)
qed (simp_all add: contents_ok_def store_db_ok store_frame)

lemma store_moves_contents: "store_moves d d' \<Longrightarrow> contents_ok d \<Longrightarrow> contents_ok d'"
  by (induction rule: rtranclp_induct) (auto intro: store_move_contents)

section \<open>What a handler can do to the portal\<close>

text \<open>A statement on the store, or a reload.\<close>

inductive portal_move ::
  "(string \<Rightarrow> string + 'waf) \<Rightarrow> (string \<Rightarrow> string) \<Rightarrow> (string \<Rightarrow> string \<Rightarrow> 'cert option)
   \<Rightarrow> ('waf, 'cert) portal \<Rightarrow> ('waf, 'cert) portal \<Rightarrow> bool"
  for newWAF uni load where
  on_store: "store_move (p_store a) d \<Longrightarrow> portal_move newWAF uni load a (a\<lparr>p_store := d\<rparr>)"
| on_reload: "portal_move newWAF uni load a (snd (portal_reload newWAF uni load a))"

abbreviation portal_moves ::
  "(string \<Rightarrow> string + 'waf) \<Rightarrow> (string \<Rightarrow> string) \<Rightarrow> (string \<Rightarrow> string \<Rightarrow> 'cert option)
   \<Rightarrow> ('waf, 'cert) portal \<Rightarrow> ('waf, 'cert) portal \<Rightarrow> bool" where
  "portal_moves newWAF uni load \<equiv> (portal_move newWAF uni load)\<^sup>*\<^sup>*"

lemma store_moves_lift: "store_moves (p_store a) d \<Longrightarrow> portal_moves newWAF uni load a (a\<lparr>p_store := d\<rparr>)"
proof (induction rule: rtranclp_induct)
  case (step d d')
  then show ?case
    using portal_move.on_store [of "a\<lparr>p_store := d\<rparr>" d' newWAF uni load] by (simp add: rtranclp.rtrancl_into_rtrancl)
qed simp

lemma query_lift: "same_data (p_store a) d \<Longrightarrow> portal_moves newWAF uni load a (a\<lparr>p_store := d\<rparr>)"
  by (intro store_moves_lift r_into_rtranclp store_move.query)

lemma with_store_run: "with_store f a = (res, a') \<Longrightarrow> a' = a\<lparr>p_store := snd (f (p_store a))\<rparr>"
  by (auto simp: with_store_def split: prod.splits)

definition portal_server ::
  "(string \<Rightarrow> string + 'waf) \<Rightarrow> (string \<Rightarrow> string) \<Rightarrow> (string \<Rightarrow> string \<Rightarrow> 'cert option) \<Rightarrow> ('waf, 'cert) server \<Rightarrow> bool" where
  "portal_server newWAF uni load s \<longleftrightarrow> srv_reload s = Some (portal_reload newWAF uni load)"

lemma NewServer_portal:
  "portal_server newWAF uni load (NewServer gen cmp errtext rows rows2 parse au (Some (portal_reload newWAF uni load)) spa got)"
  by (simp add: portal_server_def NewServer_def)

lemma applyReloadErr_portal:
  "portal_server newWAF uni load s \<Longrightarrow> applyReloadErr s = portal_reload newWAF uni load"
  by (simp add: applyReloadErr_def portal_server_def fun_eq_iff)

lemma reload_after:
  assumes "portal_server newWAF uni load s" and "portal_moves newWAF uni load a b"
  shows "portal_moves newWAF uni load a (applyReload s b)"
    and "applyReloadErr s b = (res, c) \<Longrightarrow> portal_moves newWAF uni load a c"
proof -
  have "portal_moves newWAF uni load a (snd (applyReloadErr s b))"
    using assms portal_move.on_reload [of newWAF uni load b] by (simp add: applyReloadErr_portal rtranclp.rtrancl_into_rtrancl)
  then show "portal_moves newWAF uni load a (applyReload s b)"
    and "applyReloadErr s b = (res, c) \<Longrightarrow> portal_moves newWAF uni load a c" by (simp_all add: applyReload_def)
qed

lemma Check_same_data: "same_data d (snd (Check cmp u p d))"
proof -
  have "same_data d (snd (setting_or_empty k d))" for k d
    using queries_same_data(1) [of d k] by (auto simp: setting_or_empty_def split: prod.splits sum.splits option.splits)
  moreover have "same_data d (snd (GetSetting k d))" for k d by (rule queries_same_data)
  ultimately show ?thesis
    unfolding Check_def Let_def
    by (auto split: prod.splits sum.splits option.splits) (metis same_data_trans snd_conv)+
qed

lemma Username_same_data: "same_data d (snd (Username d))"
  using queries_same_data(1) [of d keyUsername]
  by (auto simp: Username_def setting_or_empty_def split: prod.splits sum.splits option.splits)

lemma setPassword_moves: "store_moves d (snd (setPassword gen p d))"
  using store_move.set_setting [of d keyHash]
  by (auto simp: setPassword_def split: sum.splits prod.splits) (metis r_into_rtranclp snd_conv)+

lemma ChangePassword_moves: "store_moves d (snd (ChangePassword gen cmp cur nxt d))"
proof -
  obtain u d1 where u: "Username d = (u, d1)" by fastforce
  obtain ok d2 where c: "Check cmp u cur d1 = (ok, d2)" by fastforce
  have "store_moves d d2"
    using Username_same_data [of d] Check_same_data [of d1 cmp u cur] u c
    by (auto intro!: r_into_rtranclp store_move.query intro: same_data_trans)
  then show ?thesis
    using setPassword_moves [of d2 gen nxt] by (auto simp: ChangePassword_def u c)
qed

lemma query_handler_moves:
  assumes "\<And>d. same_data d (snd (f d))" and "with_store f a = (res, a')"
  shows "portal_moves newWAF uni load a a'"
  using query_lift [OF assms(1)] with_store_run [OF assms(2)] by simp

lemmas query_ops_move =
  query_handler_moves [where f = ListSites, OF queries_same_data(2)]
  query_handler_moves [where f = "GetSite i" for i, OF queries_same_data(3)]
  query_handler_moves [where f = ListRules, OF queries_same_data(4)]
  query_handler_moves [where f = "GetRule i" for i, OF queries_same_data(6)]
  query_handler_moves [where f = "ListEvents v f" for v f, OF queries_same_data(7)]
  query_handler_moves [where f = "Stats got v w (\<lambda>_ d. d) t now" for got v w t now, OF Stats_same_data]

lemma query_handlers_move:
  "portal_moves newWAF uni load a (snd (listSites s a))"
  "portal_moves newWAF uni load a (snd (getSite s param a))"
  "portal_moves newWAF uni load a (snd (listRules s a))"
  "portal_moves newWAF uni load a (snd (getRule s param a))"
  "portal_moves newWAF uni load a (snd (listEvents s r a))"
  "portal_moves newWAF uni load a (snd (stats_handler s now r a))"
  by (auto simp: listSites_def getSite_def listRules_def getRule_def listEvents_def stats_handler_def Let_def
      split: prod.splits sum.splits intro: query_ops_move)

lemma login_moves: "portal_moves newWAF uni load a (snd (login s body now r a))"
  using query_lift [OF Check_same_data, where a = a and newWAF = newWAF and uni = uni and load = load]
  by (auto simp: login_def Let_def split: sum.splits prod.splits) (metis snd_conv)+

lemma changePassword_moves: "portal_moves newWAF uni load a (snd (changePassword s body a))"
  using store_moves_lift [OF ChangePassword_moves, where a = a and newWAF = newWAF and uni = uni and load = load]
  by (auto simp: changePassword_def split: sum.splits prod.splits) (metis snd_conv)+

lemma write_handler_moves:
  assumes "\<And>d. store_move d (snd (f d))" and "with_store f a = (res, a')"
  shows "portal_moves newWAF uni load a a'"
  using portal_move.on_store [OF assms(1), of newWAF uni load a] with_store_run [OF assms(2)] by blast

lemmas write_ops_move =
  write_handler_moves [where f = "CreateSite st t" for st t, OF store_move.create_site]
  write_handler_moves [where f = "UpdateSite st t" for st t, OF store_move.update_site]
  write_handler_moves [where f = "DeleteSite i" for i, OF store_move.delete_site]
  write_handler_moves [where f = "CreateRule r t" for r t, OF store_move.create_rule]
  write_handler_moves [where f = "UpdateRule r t" for r t, OF store_move.update_rule]
  write_handler_moves [where f = "DeleteRule i" for i, OF store_move.delete_rule]

lemma valid_site_moves:
  "validateSite x = ([], st) \<Longrightarrow> with_store (CreateSite st t) a = (res, a') \<Longrightarrow> portal_moves newWAF uni load a a'"
  "validateSite x = ([], st) \<Longrightarrow> with_store (UpdateSite st t) a = (res, a') \<Longrightarrow> portal_moves newWAF uni load a a'"
  using write_ops_move(1,2) validateSite_valid by blast+

lemma valid_rule_moves:
  "rule_Name r \<noteq> [] \<Longrightarrow> rule_Directive r \<noteq> [] \<Longrightarrow> with_store (CreateRule r t) a = (res, a') \<Longrightarrow>
     portal_moves newWAF uni load a a'"
  "rule_Name r \<noteq> [] \<Longrightarrow> rule_Directive r \<noteq> [] \<Longrightarrow> with_store (UpdateRule (r\<lparr>rule_ID := i\<rparr>) t) a = (res, a') \<Longrightarrow>
     portal_moves newWAF uni load a a'"
  using write_ops_move(4) [of r t a res a' newWAF uni load]
    write_ops_move(5) [of "r\<lparr>rule_ID := i\<rparr>" t a res a' newWAF uni load] by (simp_all add: rule_valid_def)

lemma createSite_moves:
  assumes "portal_server newWAF uni load s"
  shows "portal_moves newWAF uni load a (snd (createSite s body now a))"
  by (auto simp: createSite_def split: sum.splits prod.splits intro!: reload_after(1) [OF assms] dest: valid_site_moves)

lemma updateSite_moves:
  assumes "portal_server newWAF uni load s"
  shows "portal_moves newWAF uni load a (snd (updateSite s param body now a))"
  by (auto simp: updateSite_def split: sum.splits prod.splits intro!: reload_after(1) [OF assms] dest: valid_site_moves)

lemma delete_handlers_move:
  assumes "portal_server newWAF uni load s"
  shows "portal_moves newWAF uni load a (snd (deleteSite s param a))"
    and "portal_moves newWAF uni load a (snd (deleteRule s param a))"
  by (auto simp: deleteSite_def deleteRule_def split: sum.splits prod.splits intro!: reload_after(1) [OF assms]
      dest: write_ops_move(3,6))

lemma delete_rule_moves:
  "portal_moves newWAF uni load a b \<Longrightarrow> portal_moves newWAF uni load a (snd (with_store (DeleteRule i) b))"
  using write_ops_move(6) [of i b] by (metis prod.collapse rtranclp_trans)

lemma createRule_moves:
  assumes "portal_server newWAF uni load s"
  shows "portal_moves newWAF uni load a (snd (createRule s body now a))"
  by (auto simp: createRule_def split: sum.splits prod.splits
      dest!: valid_rule_moves(1) [where newWAF = newWAF and uni = uni and load = load] reload_after(2) [OF assms, rotated]
      intro!: delete_rule_moves)

lemma updateRule_moves:
  assumes "portal_server newWAF uni load s"
  shows "portal_moves newWAF uni load a (snd (updateRule s param body now a))"
  by (auto simp: updateRule_def Let_def split: sum.splits prod.splits
      dest!: valid_rule_moves(2) [where newWAF = newWAF and uni = uni and load = load] reload_after(2) [OF assms, rotated])

lemmas handlers_move = createSite_moves updateSite_moves delete_handlers_move createRule_moves updateRule_moves

lemma serve_endpoint_moves:
  assumes "portal_server newWAF uni load s"
  shows "portal_moves newWAF uni load a (snd (serve_endpoint s now ep r a))"
  using handlers_move [OF assms] query_handlers_move login_moves changePassword_moves
  by (cases ep) (simp_all add: logout_def me_def)

lemma Handler_moves:
  assumes "portal_server newWAF uni load s"
  shows "portal_moves newWAF uni load a (snd (Handler s now ep r a))"
  using serve_endpoint_moves [OF assms] by (simp add: Handler_def Middleware_def)

section \<open>Sessions\<close>

definition sample_server :: "(string, string) server" where
  "sample_server = \<lparr>srv_auth = sample_auth, srv_reload = Some (portal_reload text_waf (\<lambda>s. s) (\<lambda>_ _. None)),
     srv_gen = mark_gen, srv_cmp = mark_cmp, srv_errtext = (\<lambda>_. ''db''), srv_rows = rev, srv_rows2 = rev,
     srv_parseDuration = (\<lambda>_. None), srv_spa = Some (\<lambda>name. name = ''index.html''),
     srv_got = (\<lambda>_. 0)\<rparr>"

text \<open>C27: A login opens a session. Without a failure of the database driver, logging in answers 200 and
  sets a cookie exactly when the name and password are the stored ones; a later request that carries
  this cookie is let through as that user, as long as the name has no bar and the seven days are not
  over. A wrong name or password gets 401 and no cookie.\<close>

theorem login_opens_session:
  assumes "faults (p_store a) = []" and "login s (Inr (u, pw)) t0 r0 a = (resp, a')"
  shows "(if u = stored_username (p_store a) \<and> (\<exists>h. settings (p_store a) keyHash = Some h \<and> srv_cmp s h pw)
     then rs_Status resp = StatusOK \<and> (\<exists>c. rs_Cookies resp = [c] \<and> c_Name c = cookieName \<and> c_HttpOnly c \<and>
       (\<forall>r now. CHR ''|'' \<notin> set u \<and> 0 \<le> t0 \<and> t0 < 7000000000000000000000000000 \<and>
          Request_Cookie r cookieName = Some (c_Value c) \<and> unix now \<le> unix (t0 + sessionDuration) \<longrightarrow>
          verify (srv_auth s) r now = Some u))
     else rs_Status resp = StatusUnauthorized \<and> rs_Cookies resp = []) \<and> a' = a"
proof -
  have verify: "verify (srv_auth s) r now = Some u"
    if "CHR ''|'' \<notin> set u" "0 \<le> t0" "t0 < 7000000000000000000000000000"
      "Request_Cookie r cookieName = Some (c_Value (IssueCookie (srv_auth s) r0 u t0))"
      "unix now \<le> unix (t0 + sessionDuration)" for r now
    using verify_fresh_session [OF that(1-4)] that(5) by simp
  show ?thesis
    using assms verify
    by (auto simp: login_def Check_sound Let_def writeJSON_def writeJSONErr_def IssueCookie_def split: if_splits)
qed

lemma sample_login:
  "login sample_server (Inr (''root'', ''hunter22'')) 0 plain_request (fresh_portal\<lparr>p_store := db_admin\<rparr>) =
     ((writeJSON StatusOK (JObj [(''username'', JStr ''root'')]))\<lparr>rs_Cookies := [IssueCookie sample_auth plain_request ''root'' 0]\<rparr>,
      fresh_portal\<lparr>p_store := db_admin\<rparr>)"
  by (simp add: login_def sample_server_def db_admin_Check)

theorem login_opens_session_witness:
  "verify sample_auth (session_request ''root'' 0) 5 = Some ''root''"
  using login_opens_session [OF _ sample_login] session_request_cookie [of "''root''" 0 plain_request]
    db_admin_Check [of "''hunter22''"]
  by (simp add: db_admin_username Check_sound sample_server_def sessionDuration_def unix_def writeJSON_def split: if_splits)

section \<open>The contents of the store\<close>

text \<open>The portal at work: requests to the control plane, and events written by the sink.\<close>

inductive portal_step :: "('waf, 'cert) server \<Rightarrow> ('waf, 'cert) portal \<Rightarrow> ('waf, 'cert) portal \<Rightarrow> bool" for s where
  request: "portal_step s a (snd (Handler s now ep r a))"
| record_event: "portal_step s a (a\<lparr>p_store := snd (InsertEvent e (p_store a))\<rparr>)"

lemma portal_step_moves:
  assumes "portal_server newWAF uni load s" and "(portal_step s)\<^sup>*\<^sup>* a b"
  shows "portal_moves newWAF uni load a b"
  using assms(2)
proof (induction rule: rtranclp_induct)
  case (step b c)
  from step.hyps(2) have "portal_moves newWAF uni load b c"
  proof cases
    case (request now ep r)
    then show ?thesis using Handler_moves [OF assms(1)] by simp
  next
    case (record_event e)
    then show ?thesis by (auto intro: portal_move.on_store store_move.insert_event)
  qed
  with step.IH show ?case by (rule rtranclp_trans)
qed simp

lemma portal_reload_query: "same_data (p_store a) (p_store (snd (portal_reload newWAF uni load a)))"
proof -
  note q1 = queries_same_data(5) [of "p_store a"] and q2 = queries_same_data(2)
  show ?thesis
    unfolding portal_reload_def
    by (auto split: prod.splits sum.splits)
      (metis q1 snd_conv, metis q1 snd_conv, (metis q1 q2 same_data_trans snd_conv)+)
qed

lemma portal_moves_store: "portal_moves newWAF uni load a b \<Longrightarrow> store_moves (p_store a) (p_store b)"
proof (induction rule: rtranclp_induct)
  case (step b c)
  from step.hyps(2) have "store_move (p_store b) (p_store c)"
    using store_move.query [OF portal_reload_query [of b newWAF uni load]] by cases simp_all
  with step.IH show ?case by simp
qed simp

text \<open>C9: The store never holds a site or a rule the portal would not accept. Whatever requests are made
  to a portal that started with an empty database, whatever the database driver does and whatever
  events are recorded meanwhile: every stored site has a domain, an upstream address, one of the three
  modes and one of the three kinds of TLS, with both files when it is manual; every stored rule has a
  name and a directive; domains and identifiers are unique.\<close>

theorem store_contents_valid:
  assumes "portal_server newWAF uni load s" and "p_store a = empty_db\<lparr>faults := fs\<rparr>" and "(portal_step s)\<^sup>*\<^sup>* a b"
  shows "(\<forall>st \<in> set (sites (p_store b)). site_valid st) \<and> (\<forall>r \<in> set (rules (p_store b)). rule_valid r) \<and>
    distinct (map site_Domain (sites (p_store b))) \<and> distinct (map site_ID (sites (p_store b))) \<and>
    distinct (map rule_ID (rules (p_store b)))"
proof -
  have "contents_ok (p_store a)"
    unfolding assms(2) using db_ok_empty by (simp add: contents_ok_def db_ok_def empty_db_def)
  with portal_moves_store [OF portal_step_moves [OF assms(1,3)]] have "contents_ok (p_store b)"
    by (rule store_moves_contents)
  then show ?thesis by (auto simp: contents_ok_def db_ok_def ids_ok_def)
qed

lemma sample_portal_server: "portal_server text_waf (\<lambda>s. s) (\<lambda>_ _. None) sample_server"
  by (simp add: portal_server_def sample_server_def)

section \<open>Changes take effect\<close>

lemma faults_kept:
  "faults d = [] \<Longrightarrow> faults (snd (CreateSite st t d)) = []" "faults d = [] \<Longrightarrow> faults (snd (UpdateSite st t d)) = []"
  "faults d = [] \<Longrightarrow> faults (snd (DeleteSite i d)) = []" "faults d = [] \<Longrightarrow> faults (snd (CreateRule r t d)) = []"
  "faults d = [] \<Longrightarrow> faults (snd (UpdateRule r t d)) = []" "faults d = [] \<Longrightarrow> faults (snd (DeleteRule i d)) = []"
  by (simp_all add: store_defs Let_def)

lemma reload_effect:
  assumes "portal_server newWAF uni load s" and "faults (p_store a) = []" and "applyReloadErr s a = (res, b)"
  shows "p_store b = p_store a" and "res = Inr () \<longleftrightarrow> compiles newWAF (stored_directives (p_store a))"
    and "res = Inr () \<Longrightarrow> in_sync newWAF uni load (p_store a) b" and "res \<noteq> Inr () \<Longrightarrow> b = a"
  using portal_reload_atomic_facts [OF assms(2), of newWAF uni load res b] assms(1,3)
  by (auto simp: applyReloadErr_portal)

text \<open>The endpoints that change sites or rules.\<close>

fun changes_config :: "endpoint \<Rightarrow> bool" where
  "changes_config (EpCreateSite _) \<longleftrightarrow> True"
| "changes_config (EpUpdateSite _ _) \<longleftrightarrow> True"
| "changes_config (EpDeleteSite _) \<longleftrightarrow> True"
| "changes_config (EpCreateRule _) \<longleftrightarrow> True"
| "changes_config (EpUpdateRule _ _) \<longleftrightarrow> True"
| "changes_config (EpDeleteRule _) \<longleftrightarrow> True"
| "changes_config _ \<longleftrightarrow> False"

lemma statuses [simp]:
  "rs_Status (writeJSON c v) = c" "rs_Status (writeJSONErr c m) = c" "rs_Status (writeErr s c e) = c"
  "rs_Status (badJSON m) = StatusBadRequest" "rs_Status (writeHeaderOnly c) = c"
  by (simp_all add: writeJSON_def writeJSONErr_def writeErr_def badJSON_def writeHeaderOnly_def)

lemma reload_in_sync:
  assumes "portal_server newWAF uni load s" and "faults (p_store a) = []" and "compiles newWAF (stored_directives (p_store (applyReload s a)))"
  shows "in_sync newWAF uni load (p_store (applyReload s a)) (applyReload s a)"
proof -
  obtain res b where r: "applyReloadErr s a = (res, b)" by fastforce
  note e = reload_effect [OF assms(1,2) r]
  from assms(3) e(1,2,3) r show ?thesis by (simp add: applyReload_def)
qed

lemma with_store_faults:
  assumes "faults (p_store a) = []" and "with_store f a = (res, b)"
    and "\<And>d. faults d = [] \<Longrightarrow> faults (snd (f d)) = []"
  shows "faults (p_store b) = []"
  using assms(1,3) with_store_run [OF assms(2)] by simp

text \<open>The handlers that create or update a rule look at the result of the reload; the others ignore it.\<close>

fun reports_reload :: "endpoint \<Rightarrow> bool" where
  "reports_reload (EpCreateRule _) \<longleftrightarrow> True"
| "reports_reload (EpUpdateRule _ _) \<longleftrightarrow> True"
| "reports_reload _ \<longleftrightarrow> False"

lemma reported_reload_sync:
  assumes "portal_server newWAF uni load s" and "applyReloadErr s a = (Inr (), b)"
  shows "in_sync newWAF uni load (p_store b) b"
proof -
  have "portal_reload newWAF uni load a = (Inr (), b)" using assms by (simp add: applyReloadErr_portal)
  from portal_reload_success [OF this] stored_same_data [of "p_store a" "p_store b"] show ?thesis by (simp add: in_sync_def)
qed

lemma config_handlers_sync:
  assumes "portal_server newWAF uni load s"
    and "reports_reload ep \<or> faults (p_store a) = [] \<and> compiles newWAF (stored_directives (p_store b))"
    and "changes_config ep" and "serve_endpoint s now ep r a = (resp, b)" and "rs_Status resp < StatusBadRequest"
  shows "in_sync newWAF uni load (p_store b) b"
proof (cases ep)
  case (EpCreateSite body)
  with assms(4,5) obtain st t st' c where w: "with_store (CreateSite st t) a = (Inr st', c)" and b: "b = applyReload s c"
    by (auto simp: createSite_def split: sum.splits prod.splits if_splits)
  from EpCreateSite assms(2) have "faults (p_store a) = []" "compiles newWAF (stored_directives (p_store b))" by simp_all
  with reload_in_sync [OF assms(1) with_store_faults [OF _ w faults_kept(1)]] show ?thesis by (simp add: b)
next
  case (EpUpdateSite param body)
  with assms(4,5) obtain st t st' c where w: "with_store (UpdateSite st t) a = (Inr st', c)" and b: "b = applyReload s c"
    by (auto simp: updateSite_def split: sum.splits prod.splits if_splits)
  from EpUpdateSite assms(2) have "faults (p_store a) = []" "compiles newWAF (stored_directives (p_store b))" by simp_all
  with reload_in_sync [OF assms(1) with_store_faults [OF _ w faults_kept(2)]] show ?thesis by (simp add: b)
next
  case (EpDeleteSite param)
  with assms(4,5) obtain u c where w: "with_store (DeleteSite (idParam param)) a = (Inr u, c)" and b: "b = applyReload s c"
    by (auto simp: deleteSite_def split: sum.splits prod.splits)
  from EpDeleteSite assms(2) have "faults (p_store a) = []" "compiles newWAF (stored_directives (p_store b))" by simp_all
  with reload_in_sync [OF assms(1) with_store_faults [OF _ w faults_kept(3)]] show ?thesis by (simp add: b)
next
  case (EpCreateRule body)
  with assms(4,5) obtain c where "applyReloadErr s c = (Inr (), b)"
    by (auto simp: createRule_def split: sum.splits prod.splits if_splits)
  then show ?thesis by (rule reported_reload_sync [OF assms(1)])
next
  case (EpUpdateRule param body)
  with assms(4,5) obtain c where "applyReloadErr s c = (Inr (), b)"
    by (auto simp: updateRule_def Let_def split: sum.splits prod.splits if_splits)
  then show ?thesis by (rule reported_reload_sync [OF assms(1)])
next
  case (EpDeleteRule param)
  with assms(4,5) obtain u c where w: "with_store (DeleteRule (idParam param)) a = (Inr u, c)" and b: "b = applyReload s c"
    by (auto simp: deleteRule_def split: sum.splits prod.splits)
  from EpDeleteRule assms(2) have "faults (p_store a) = []" "compiles newWAF (stored_directives (p_store b))" by simp_all
  with reload_in_sync [OF assms(1) with_store_faults [OF _ w faults_kept(6)]] show ?thesis by (simp add: b)
qed (use assms(3) in simp_all)

text \<open>C10: Changes take effect at once. When an authenticated request that creates or updates a rule is answered
  with success, then, whatever the database driver did, the engines are those of the stored rules and
  the routing and the certificates are those of the stored sites before the response is sent. The same
  holds for a request that deletes a rule or creates, updates or deletes a site, provided that the
  driver does not fail and the stored rules compile: these requests are answered with success even when
  the reload after the change fails.\<close>

theorem changes_take_effect:
  assumes "portal_server newWAF uni load s" and "verify (srv_auth s) r now = Some u"
    and "changes_config ep" and "Handler s now ep r a = (resp, b)" and "rs_Status resp < StatusBadRequest"
    and "reports_reload ep \<or> faults (p_store a) = [] \<and> compiles newWAF (stored_directives (p_store b))"
  shows "in_sync newWAF uni load (p_store b) b \<and>
    handlerFor uni host (p_proxy b) =
      map_option (handler_of (p_waf b)) (routed uni (stored_sites (p_store b)) (host_domain uni host))"
proof -
  have "serve_endpoint s now ep r a = (resp, b)"
    using assms(2-4) by (cases ep) (simp_all add: Handler_def Middleware_def)
  from config_handlers_sync [OF assms(1,6,3) this assms(5)] show ?thesis
    by (simp add: handlerFor_def in_sync_def routing_of_def)
qed

text \<open>The other side: a failure of the reload after a new site was stored is invisible to the client, who gets
  201 while the routing stays as it was.\<close>

lemma failed_reload_hidden:
  assumes "portal_server newWAF uni load s" and "validateSite st = ([], st')"
    and "with_store (CreateSite st' now) a = (Inr new, c)" and "applyReloadErr s c = (Inl e, b)"
  shows "createSite s (Inr st) now a = (writeJSON StatusCreated (site_json new), b) \<and> p_proxy b = p_proxy a"
proof -
  have "p_proxy b = p_proxy c"
    using assms(1,4) by (auto simp: applyReloadErr_portal portal_reload_def split: prod.splits sum.splits)
  then show ?thesis using assms(2-4) with_store_run [OF assms(3)] by (simp add: createSite_def applyReload_def)
qed

lemma fresh_faults: "faults (p_store fresh_portal) = []"
  by (simp add: fresh_portal_def empty_db_def)

lemma sample_session: "verify sample_auth (session_request ''admin'' 0) 5 = Some ''admin''"
  using verify_fresh_session [OF _ _ _ session_request_cookie, of "''admin''" 0 5]
  by (simp add: unix_def sessionDuration_def)

lemma srv_auth_sample: "srv_auth sample_server = sample_auth"
  by (simp add: sample_server_def)

lemma sample_delete:
  "Handler sample_server 5 (EpDeleteSite ''1'') (session_request ''admin'' 0) fresh_portal =
     (writeHeaderOnly StatusNoContent, applyReload sample_server fresh_portal)"
proof -
  have "with_store (DeleteSite (idParam ''1'')) fresh_portal = (Inr (), fresh_portal)"
    by (simp add: with_store_def DeleteSite_def fresh_portal_def empty_db_def)
  then show ?thesis using sample_session by (simp add: srv_auth_sample Handler_def Middleware_def deleteSite_def)
qed

lemma sample_delete_store: "p_store (applyReload sample_server fresh_portal) = empty_db"
  using reload_effect(1) [OF sample_portal_server fresh_faults prod.collapse [symmetric]]
  by (simp add: applyReload_def) (simp add: fresh_portal_def)

lemma sample_create_store:
  "sites (p_store (snd (Handler sample_server 5 (EpCreateSite (Inr sample_site)) (session_request ''admin'' 0) fresh_portal))) =
     [sample_site\<lparr>site_ID := 1, site_CreatedAt := 5, site_UpdatedAt := 5\<rparr>]"
proof -
  let ?st = "sample_site\<lparr>site_ID := 1, site_CreatedAt := 5, site_UpdatedAt := 5\<rparr>"
  let ?a = "fresh_portal\<lparr>p_store := empty_db\<lparr>sites := [?st], sites_seq := 1\<rparr>\<rparr> :: (string, string) portal"
  have c: "with_store (CreateSite sample_site 5) fresh_portal = (Inr ?st, ?a)"
    by (simp add: with_store_def CreateSite_def fresh_portal_def empty_db_def Let_def)
  have "p_store (applyReload sample_server ?a) = p_store ?a"
    using reload_effect(1) [OF sample_portal_server _ prod.collapse [symmetric], of ?a] by (simp add: applyReload_def empty_db_def)
  moreover have "validateSite sample_site = ([], sample_site)" by (simp add: validateSite_def test_site_def Let_def)
  ultimately show ?thesis using sample_session c by (simp add: srv_auth_sample Handler_def Middleware_def createSite_def)
qed

theorem store_contents_valid_witness:
  "site_valid (hd (sites (p_store (snd (Handler sample_server 5 (EpCreateSite (Inr sample_site)) (session_request ''admin'' 0)
     fresh_portal)))))"
  using store_contents_valid [OF sample_portal_server _ r_into_rtranclp [of "portal_step sample_server", OF portal_step.request
      [of _ _ 5 "EpCreateSite (Inr sample_site)" "session_request ''admin'' 0"]], of fresh_portal "[]"]
  unfolding sample_create_store by (simp add: fresh_portal_def empty_db_def)

theorem changes_take_effect_witness:
  "handlerFor (\<lambda>s. s) ''example.com'' (p_proxy (applyReload sample_server fresh_portal)) = None"
  using changes_take_effect [OF sample_portal_server _ _ sample_delete, of "''admin''" "''example.com''"]
    compiles_none fresh_faults
  by (simp add: sample_delete_store sample_session srv_auth_sample empty_db_def stored_directives_def stored_sites_def routed_def)

section \<open>Rules that do not compile\<close>

text \<open>C12: A new rule that does not compile leaves no trace, as long as the database driver does not fail. When
  the directives with the new rule among them do not compile, creating it is answered with 400 and
  afterwards the stored rules, the sites, the settings, the engines and the routing are what they were;
  only the rule counter has moved on. When they compile, the answer is 201, the rule is stored, and the
  engines are those of the stored rules with the new one.\<close>

theorem createRule_rolls_back:
  assumes "portal_server newWAF uni load s" and "faults (p_store a) = []" and "db_ok (p_store a)"
    and "rule_valid rule" and "rules_seq (p_store a) < max_int64"
    and "new = rule\<lparr>rule_ID := rules_seq (p_store a) + 1, rule_CreatedAt := now, rule_UpdatedAt := now\<rparr>"
    and "d = (p_store a)\<lparr>rules := rules (p_store a) @ [new], rules_seq := rules_seq (p_store a) + 1\<rparr>"
    and "createRule s (Inr rule) now a = (resp, b)"
  shows "if compiles newWAF (stored_directives d)
    then rs_Status resp = StatusCreated \<and> p_store b = d \<and> in_sync newWAF uni load d b
    else rs_Status resp = StatusBadRequest \<and>
      b = a\<lparr>p_store := (p_store a)\<lparr>rules_seq := rules_seq (p_store a) + 1\<rparr>\<rparr>"
proof -
  let ?a = "a\<lparr>p_store := d\<rparr>"
  have w: "with_store (CreateRule rule now) a = (Inr new, ?a)"
    using assms(2,5-7) by (simp add: with_store_def CreateRule_def Let_def)
  obtain res c where r: "applyReloadErr s ?a = (res, c)" by fastforce
  have "faults (p_store ?a) = []" using assms(2,7) by simp
  note e = reload_effect [OF assms(1) this r]
  show ?thesis
  proof (cases "compiles newWAF (stored_directives d)")
    case True
    with e(2) have "res = Inr ()" by simp
    with assms(4,8) w r e(1,3) True show ?thesis by (auto simp: createRule_def rule_valid_def)
  next
    case False
    with e(2,4) obtain m where m: "res = Inl m" and c: "c = ?a" by (cases res) auto
    have "filter (\<lambda>x. rule_ID x \<noteq> rule_ID new) (rules (p_store a)) = rules (p_store a)"
      using assms(3,6) by (intro filter_True) (auto simp: db_ok_def ids_ok_def)
    then have "snd (with_store (DeleteRule (rule_ID new)) ?a) = a\<lparr>p_store := (p_store a)\<lparr>rules_seq := rules_seq (p_store a) + 1\<rparr>\<rparr>"
      using assms(2,7) by (simp add: with_store_def DeleteRule_def)
    with assms(4,8) w r m c False show ?thesis by (auto simp: createRule_def rule_valid_def)
  qed
qed

definition bad_rule :: custom_rule where
  "bad_rule = \<lparr>rule_ID = 0, rule_Name = ''r'', rule_Directive = ''bad'', rule_Description = [], rule_Enabled = True,
     rule_CreatedAt = 0, rule_UpdatedAt = 0\<rparr>"

lemma bad_rule_valid: "rule_valid bad_rule"
  by (simp add: rule_valid_def bad_rule_def)

lemma bad_not_compiles: "\<not> compiles text_waf [''bad'']"
  by (simp add: compiles_iff [of _ _ NewManager] Manager_Reload_def build_def text_waf_bad Let_def)

theorem createRule_rolls_back_witness:
  "rules (p_store (snd (createRule sample_server (Inr bad_rule) 7 fresh_portal))) = []"
  using createRule_rolls_back [OF sample_portal_server fresh_faults _ bad_rule_valid _ refl refl prod.collapse [symmetric], of 7]
    bad_not_compiles db_ok_empty
  by (simp add: fresh_portal_def empty_db_def stored_directives_def bad_rule_def split: if_splits)

text \<open>When the driver fails, the error of the statement that takes the rule back is ignored: the client is told
  that the rule was rejected, and the rule stays.\<close>

lemma rollback_can_fail:
  "createRule sample_server (Inr bad_rule) 7 (fresh_portal\<lparr>p_store := empty_db\<lparr>faults := [None, None, Some ''disk'']\<rparr>\<rparr>) = (resp, b) \<Longrightarrow>
     rs_Status resp = StatusBadRequest \<and> rules (p_store b) = [bad_rule\<lparr>rule_ID := 1, rule_CreatedAt := 7, rule_UpdatedAt := 7\<rparr>]"
proof -
  let ?new = "bad_rule\<lparr>rule_ID := 1, rule_CreatedAt := 7, rule_UpdatedAt := 7\<rparr>"
  let ?c = "fresh_portal\<lparr>p_store := empty_db\<lparr>rules := [?new], rules_seq := 1, faults := [None, Some ''disk'']\<rparr>\<rparr> :: (string, string) portal"
  have w: "with_store (CreateRule bad_rule 7) (fresh_portal\<lparr>p_store := empty_db\<lparr>faults := [None, None, Some ''disk'']\<rparr>\<rparr>) = (Inr ?new, ?c)"
    by (simp add: with_store_def CreateRule_def stmt_def empty_db_def Let_def)
  obtain v m where v: "Manager_Reload text_waf [''bad''] NewManager = (v, m)" by fastforce
  have "v \<noteq> Inr ()" using bad_not_compiles compiles_iff [of text_waf "[''bad'']" NewManager] v by simp
  then obtain x where x: "v = Inl x" by (cases v) auto
  have "portal_reload text_waf (\<lambda>s. s) (\<lambda>_ _. None) ?c = (Inl (ReloadWaf x), ?c\<lparr>p_store := (p_store ?c)\<lparr>faults := [Some ''disk'']\<rparr>, p_waf := m\<rparr>)"
    using v x by (simp add: portal_reload_def EnabledRuleDirectives_def stmt_def bad_rule_def fresh_portal_def)
  then have r: "applyReloadErr sample_server ?c = (Inl (ReloadWaf x), ?c\<lparr>p_store := (p_store ?c)\<lparr>faults := [Some ''disk'']\<rparr>, p_waf := m\<rparr>)"
    by (simp add: applyReloadErr_portal [OF sample_portal_server])
  assume "createRule sample_server (Inr bad_rule) 7 (fresh_portal\<lparr>p_store := empty_db\<lparr>faults := [None, None, Some ''disk'']\<rparr>\<rparr>) = (resp, b)"
  then show ?thesis
    using w r bad_rule_valid by (auto simp: createRule_def rule_valid_def with_store_def DeleteRule_def stmt_def)
qed

text \<open>C37: An update that does not compile is kept all the same. When a stored rule is updated with a directive
  with which the stored rules do not compile, and the database driver does not fail, the client is told
  that the rule was rejected, with 400, but the directive is in the store under the identifier; the engines
  and the routing stay as they were, every reload fails from then on, and a valid site with a new domain
  that is created next is stored and answered with 201 and yet changes nothing in the routing.\<close>

theorem rejected_update_stays:
  assumes "portal_server newWAF uni load s" and "faults (p_store a) = []" and "rule_valid rule"
    and "old \<in> set (rules (p_store a))" and "rule_ID old = idParam param"
    and "d = snd (UpdateRule (rule\<lparr>rule_ID := idParam param\<rparr>) now (p_store a))"
    and "\<not> compiles newWAF (stored_directives d)"
    and "updateRule s param (Inr rule) now a = (resp, b)"
    and "validateSite st = ([], st')" and "site_Domain st' \<notin> site_Domain ` set (sites (p_store a))"
    and "sites_seq (p_store a) < max_int64" and "createSite s (Inr st) later b = (resp', c)"
  shows "rs_Status resp = StatusBadRequest \<and>
    (\<exists>x \<in> set (rules (p_store b)). rule_ID x = idParam param \<and> rule_Directive x = rule_Directive rule) \<and>
    p_waf b = p_waf a \<and> p_proxy b = p_proxy a \<and> fst (portal_reload newWAF uni load b) \<noteq> Inr () \<and>
    rs_Status resp' = StatusCreated \<and> site_Domain st' \<in> site_Domain ` set (sites (p_store c)) \<and>
    p_proxy c = p_proxy a \<and> p_waf c = p_waf a"
proof -
  let ?a = "a\<lparr>p_store := d\<rparr>" and ?ru = "rule\<lparr>rule_ID := idParam param\<rparr>"
  have d: "d = (p_store a)\<lparr>rules := map (\<lambda>x. if rule_ID x = idParam param then set_rule ?ru now x else x) (rules (p_store a))\<rparr>"
    using assms(2,6) by (simp add: UpdateRule_def)
  have w: "with_store (UpdateRule ?ru now) a = (Inr (?ru\<lparr>rule_UpdatedAt := now\<rparr>), ?a)"
    using assms(2,6) by (auto simp: with_store_def UpdateRule_def)
  have f: "faults (p_store ?a) = []" using assms(2) by (simp add: d)
  obtain res e where r: "applyReloadErr s ?a = (res, e)" by fastforce
  note re = reload_effect [OF assms(1) f r]
  from assms(7) re(2,4) obtain m where m: "res = Inl m" and e: "e = ?a" by (cases res) auto
  have b: "rs_Status resp = StatusBadRequest" "b = ?a"
    using assms(3,8) w r m e by (auto simp: updateRule_def rule_valid_def Let_def)
  have stored: "\<exists>x \<in> set (rules (p_store b)). rule_ID x = idParam param \<and> rule_Directive x = rule_Directive rule"
    using assms(5) by (intro bexI [of _ "set_rule ?ru now old"]) (simp_all add: b d set_rule_def image_iff, use assms(4) in force)
  have fails: "fst (portal_reload newWAF uni load ?a) \<noteq> Inr ()"
    using portal_reload_ok_iff [OF f, of newWAF uni load] assms(7) by simp
  define new where "new = st'\<lparr>site_ID := sites_seq d + 1, site_CreatedAt := later, site_UpdatedAt := later\<rparr>"
  define d2 where "d2 = d\<lparr>sites := sites d @ [new], sites_seq := sites_seq d + 1\<rparr>"
  have "\<not> (\<exists>r \<in> set (sites (p_store a)). site_Domain r = site_Domain st')" using assms(10) by (auto simp: image_iff)
  then have cw: "with_store (CreateSite st' later) ?a = (Inr new, ?a\<lparr>p_store := d2\<rparr>)"
    using assms(2,11) f by (simp add: with_store_def CreateSite_def Let_def new_def d2_def) (simp add: d)
  obtain z g where z: "applyReloadErr s (?a\<lparr>p_store := d2\<rparr>) = (z, g)" by fastforce
  have "faults (p_store (?a\<lparr>p_store := d2\<rparr>)) = []" using f by (simp add: d2_def)
  note rz = reload_effect [OF assms(1) this z]
  have "stored_directives d2 = stored_directives d" by (simp add: d2_def stored_directives_def)
  with assms(7) rz(2,4) have "g = ?a\<lparr>p_store := d2\<rparr>" by simp
  with assms(9,12) cw z b have "rs_Status resp' = StatusCreated" "c = ?a\<lparr>p_store := d2\<rparr>"
    by (auto simp: createSite_def applyReload_def)
  then show ?thesis using b stored fails by (simp add: d2_def new_def)
qed

definition rule_portal :: "(string, string) portal" where
  "rule_portal = fresh_portal\<lparr>p_store := empty_db\<lparr>rules := [bad_rule\<lparr>rule_ID := 1, rule_Directive := ''ok''\<rparr>], rules_seq := 1\<rparr>\<rparr>"

lemma idParam_one: "idParam ''1'' = 1"
  by (simp add: idParam_def ParseInt_def ParseUint_def is_digit_def digit_val_def)

lemma sample_site_validates: "validateSite sample_site = ([], sample_site)"
  by (simp add: validateSite_def test_site_def Let_def)

theorem rejected_update_stays_witness:
  "rs_Status (fst (updateRule sample_server ''1'' (Inr bad_rule) 7 rule_portal)) = StatusBadRequest \<and>
   rs_Status (fst (createSite sample_server (Inr sample_site) 8 (snd (updateRule sample_server ''1'' (Inr bad_rule) 7 rule_portal)))) =
     StatusCreated"
proof -
  let ?d = "snd (UpdateRule (bad_rule\<lparr>rule_ID := idParam ''1''\<rparr>) 7 (p_store rule_portal))"
  have a: "faults (p_store rule_portal) = []" "sites_seq (p_store rule_portal) < max_int64"
      "site_Domain sample_site \<notin> site_Domain ` set (sites (p_store rule_portal))"
      "bad_rule\<lparr>rule_ID := 1, rule_Directive := ''ok''\<rparr> \<in> set (rules (p_store rule_portal))"
    by (simp_all add: rule_portal_def empty_db_def)
  have "stored_directives ?d = [''bad'']"
    by (simp add: idParam_one UpdateRule_def rule_portal_def empty_db_def set_rule_def stored_directives_def bad_rule_def)
  then have n: "\<not> compiles text_waf (stored_directives ?d)" using bad_not_compiles by simp
  show ?thesis
    using rejected_update_stays [OF sample_portal_server a(1) bad_rule_valid a(4) _ refl n prod.collapse [symmetric] sample_site_validates
        a(3,2) prod.collapse [symmetric], of 8]
    by (simp add: idParam_one)
qed

section \<open>Single requests\<close>

text \<open>C28: A created site can be read back. Without driver failures, a site that passes the validation and
  whose domain is not taken is answered with 201 and stored under a new identifier; asking for the
  printed identifier gives the very same object.\<close>

theorem created_site_reads_back:
  assumes "portal_server newWAF uni load s" and "faults (p_store a) = []" and "db_ok (p_store a)"
    and "0 \<le> sites_seq (p_store a)" and "sites_seq (p_store a) < max_int64"
    and "validateSite st = ([], st')" and "site_Domain st' \<notin> site_Domain ` set (sites (p_store a))"
    and "createSite s (Inr st) now a = (resp, b)"
  shows "\<exists>i. i = sites_seq (p_store a) + 1 \<and> rs_Status resp = StatusCreated \<and>
    rs_Body resp = Some (site_json (st'\<lparr>site_ID := i, site_CreatedAt := now, site_UpdatedAt := now\<rparr>)) \<and>
    rs_Status (fst (getSite s (FormatInt i) b)) = StatusOK \<and> rs_Body (fst (getSite s (FormatInt i) b)) = rs_Body resp"
proof -
  define i where "i = sites_seq (p_store a) + 1"
  define new where "new = st'\<lparr>site_ID := i, site_CreatedAt := now, site_UpdatedAt := now\<rparr>"
  define d where "d = (p_store a)\<lparr>sites := sites (p_store a) @ [new], sites_seq := i\<rparr>"
  have "\<not> (\<exists>r \<in> set (sites (p_store a)). site_Domain r = site_Domain st')" using assms(7) by (auto simp: image_iff)
  then have w: "with_store (CreateSite st' now) a = (Inr new, a\<lparr>p_store := d\<rparr>)"
    using assms(2,5) by (simp add: with_store_def CreateSite_def Let_def new_def d_def i_def)
  have "faults (p_store (a\<lparr>p_store := d\<rparr>)) = []" using assms(2) by (simp add: d_def)
  from reload_effect(1) [OF assms(1) this prod.collapse [symmetric]] have store: "p_store (applyReload s (a\<lparr>p_store := d\<rparr>)) = d"
    by (simp add: applyReload_def)
  have resp: "resp = writeJSON StatusCreated (site_json new)" and b: "p_store b = d"
    using assms(6,8) w store by (simp_all add: createSite_def)
  have "find (\<lambda>r. site_ID r = i) (sites (p_store a)) = None"
    using assms(3) by (auto simp: find_None_iff db_ok_def ids_ok_def i_def)
  then have "GetSite i d = (Inr new, d)"
    using assms(2) by (simp add: GetSite_def d_def find_append new_def)
  moreover have "idParam (FormatInt i) = i"
    using ParseInt_FormatInt [of i] assms(4,5) by (simp add: idParam_def i_def)
  ultimately have "fst (getSite s (FormatInt i) b) = writeJSON StatusOK (site_json new)"
    using b by (simp add: getSite_def with_store_def)
  then show ?thesis using resp by (simp add: i_def new_def writeJSON_def)
qed

theorem created_site_reads_back_witness:
  "rs_Status (fst (createSite sample_server (Inr sample_site) 7 fresh_portal)) = StatusCreated"
  using created_site_reads_back [OF sample_portal_server fresh_faults _ _ _ sample_site_validates _ prod.collapse [symmetric], of 7]
    db_ok_empty
  by (simp add: fresh_portal_def empty_db_def)

text \<open>Updating what does not exist is reported as a success. When no site has the identifier, a valid
  update is answered with 200 and the submitted site, although nothing is stored; the same holds for
  rules as long as the stored rules compile.\<close>

lemma update_of_missing_succeeds:
  assumes "portal_server newWAF uni load s" and "faults (p_store a) = []"
    and "\<forall>x \<in> set (sites (p_store a)). site_ID x \<noteq> idParam param" and "validateSite (st\<lparr>site_ID := idParam param\<rparr>) = ([], st')"
    and "\<forall>x \<in> set (rules (p_store a)). rule_ID x \<noteq> idParam param" and "rule_valid rule"
    and "compiles newWAF (stored_directives (p_store a))"
  shows "rs_Status (fst (updateSite s param (Inr st) now a)) = StatusOK \<and>
    p_store (snd (updateSite s param (Inr st) now a)) = p_store a \<and>
    rs_Status (fst (updateRule s param (Inr rule) now a)) = StatusOK \<and>
    p_store (snd (updateRule s param (Inr rule) now a)) = p_store a"
proof -
  have "site_ID st' = idParam param" using assms(4) by (auto simp: validateSite_def Let_def split: if_splits)
  then have us: "UpdateSite st' now (p_store a) = (Inr (st'\<lparr>site_UpdatedAt := now\<rparr>), p_store a)"
    using assms(2,3) by (auto simp: UpdateSite_def map_idI)
  have ur: "UpdateRule (rule\<lparr>rule_ID := idParam param\<rparr>) now (p_store a) =
      (Inr (rule\<lparr>rule_ID := idParam param, rule_UpdatedAt := now\<rparr>), p_store a)"
    using assms(2,5) by (auto simp: UpdateRule_def map_idI)
  obtain res c where r: "applyReloadErr s a = (res, c)" by fastforce
  note e = reload_effect [OF assms(1,2) r]
  from e(2) assms(7) have "res = Inr ()" by simp
  then show ?thesis
    using us ur r e(1) assms(4,6)
    by (simp add: updateSite_def updateRule_def with_store_def applyReload_def rule_valid_def Let_def)
qed

lemma update_of_missing_succeeds_witness:
  "rs_Status (fst (updateSite sample_server ''1'' (Inr sample_site) 7 fresh_portal)) = StatusOK"
proof -
  have "validateSite (sample_site\<lparr>site_ID := idParam ''1''\<rparr>) = ([], sample_site\<lparr>site_ID := idParam ''1''\<rparr>)"
    by (simp add: validateSite_def test_site_def Let_def)
  from update_of_missing_succeeds [OF sample_portal_server fresh_faults _ this _ bad_rule_valid] compiles_none
  show ?thesis by (simp add: fresh_portal_def empty_db_def stored_directives_def)
qed

text \<open>The single-page app answers every path that begins with a slash, with a file that exists or with
  the start page, so that deep links work; a request whose path is empty makes the handler panic.\<close>

lemma spa_serves:
  "(\<exists>p. SPAHandler stat (CHR ''/'' # name) = Some p \<and> (p = ''/'' \<or> p = CHR ''/'' # name \<and> stat name)) \<and>
   SPAHandler stat [] = None"
  by (auto simp: SPAHandler_def)

text \<open>The validation accepts an upstream address without a scheme, which the proxy then skips: the site is
  answered with success and never routed.\<close>

lemma accepted_but_unrouted:
  assumes "st = sample_site\<lparr>site_UpstreamURL := ''localhost:3000''\<rparr>"
  shows "validateSite st = ([], st) \<and> site_target st = None \<and> routed uni [st] domain = None"
proof -
  have "url_Parse ''localhost:3000'' = Some \<lparr>u_Scheme = ''localhost'', u_Opaque = ''3000'', u_Host = [], u_Path = [], u_RawQuery = [],
      u_Fragment = []\<rparr>"
    by code_simp
  then have "site_target st = None" by (simp add: assms site_target_def)
  then show ?thesis by (simp add: assms validateSite_def test_site_def Let_def routed_def serves_def)
qed

end
