(* ===== verification/Reload_Race.thy ===== *)
theory Reload_Race
  imports Control_Props
begin

text \<open>
  Overlapping reloads. The closure \<open>reload\<close> of \<^verbatim>\<open>cmd/wafportal/main.go\<close> takes no lock of its own, and the
  control plane calls it from one goroutine per request, so reloads interleave with each other and with
  the statements of other requests. Here a reload is a task that advances by the steps that touch shared
  state: the two queries, the exchange of the engine map under the manager's lock, one lookup of an
  engine per site, and the exchange of the routing table under the proxy's lock.
\<close>

section \<open>Reloads as tasks\<close>

datatype ('waf, 'cert) reload_task =
  ReadDirectives
| Compile "string list"
| ReadSites
| Route "site list" "('waf, 'cert) proxy"
| Done "portal_error + unit"

definition install :: "('waf, 'cert) proxy \<Rightarrow> ('waf, 'cert) proxy \<Rightarrow> ('waf, 'cert) proxy" where
  "install t p = p\<lparr>handlers := handlers t, autoDomains := autoDomains t, manualCerts := manualCerts t\<rparr>"

fun task_step ::
  "(string \<Rightarrow> string + 'waf) \<Rightarrow> (string \<Rightarrow> string) \<Rightarrow> (string \<Rightarrow> string \<Rightarrow> 'cert option)
   \<Rightarrow> ('waf, 'cert) reload_task \<Rightarrow> ('waf, 'cert) portal \<Rightarrow> ('waf, 'cert) reload_task \<times> ('waf, 'cert) portal" where
  "task_step newWAF uni load ReadDirectives a =
     (case EnabledRuleDirectives (p_store a) of
        (Inl e, d) \<Rightarrow> (Done (Inl (ReloadStore e)), a\<lparr>p_store := d\<rparr>)
      | (Inr directives, d) \<Rightarrow> (Compile directives, a\<lparr>p_store := d\<rparr>))"
| "task_step newWAF uni load (Compile directives) a =
     (case Manager_Reload newWAF directives (p_waf a) of
        (Inl e, m) \<Rightarrow> (Done (Inl (ReloadWaf e)), a\<lparr>p_waf := m\<rparr>)
      | (Inr _, m) \<Rightarrow> (ReadSites, a\<lparr>p_waf := m\<rparr>))"
| "task_step newWAF uni load ReadSites a =
     (case ListSites (p_store a) of
        (Inl e, d) \<Rightarrow> (Done (Inl (ReloadStore e)), a\<lparr>p_store := d\<rparr>)
      | (Inr ss, d) \<Rightarrow> (Route ss New_Proxy, a\<lparr>p_store := d\<rparr>))"
| "task_step newWAF uni load (Route (s # ss) t) a = (Route ss (add_site uni load (p_waf a) s t), a)"
| "task_step newWAF uni load (Route [] t) a = (Done (Inr ()), a\<lparr>p_proxy := install t (p_proxy a)\<rparr>)"
| "task_step newWAF uni load (Done res) a = (Done res, a)"

text \<open>The portal with the reloads in flight: statements of requests that are still running, calls of \<open>reload\<close>, and
  steps of any of the tasks, in any order. Every state the store has is a state of such a run; a request
  that nothing else interferes with is a run, too (\<open>request_is_run\<close> below).\<close>

inductive reload_conc ::
  "(string \<Rightarrow> string + 'waf) \<Rightarrow> (string \<Rightarrow> string) \<Rightarrow> (string \<Rightarrow> string \<Rightarrow> 'cert option)
   \<Rightarrow> ('waf, 'cert) portal \<times> ('waf, 'cert) reload_task list
   \<Rightarrow> ('waf, 'cert) portal \<times> ('waf, 'cert) reload_task list \<Rightarrow> bool"
  for newWAF uni load where
  statement: "store_move (p_store a) d \<Longrightarrow> reload_conc newWAF uni load (a, ts) (a\<lparr>p_store := d\<rparr>, ts)"
| call: "reload_conc newWAF uni load (a, ts) (a, ReadDirectives # ts)"
| progress: "i < length ts \<Longrightarrow> task_step newWAF uni load (ts ! i) a = (t, b) \<Longrightarrow>
    reload_conc newWAF uni load (a, ts) (b, ts[i := t])"

section \<open>A reload alone\<close>

abbreviation advance ::
  "(string \<Rightarrow> string + 'waf) \<Rightarrow> (string \<Rightarrow> string) \<Rightarrow> (string \<Rightarrow> string \<Rightarrow> 'cert option)
   \<Rightarrow> ('waf, 'cert) reload_task \<times> ('waf, 'cert) portal \<Rightarrow> ('waf, 'cert) reload_task \<times> ('waf, 'cert) portal" where
  "advance newWAF uni load \<equiv> \<lambda>(t, a). task_step newWAF uni load t a"

lemma advance_done [simp]: "(advance newWAF uni load ^^ n) (Done res, a) = (Done res, a)"
  by (induction n) simp_all

lemma advance_route:
  "(advance newWAF uni load ^^ Suc (length ss)) (Route ss t, a) =
     (Done (Inr ()), a\<lparr>p_proxy := install (fold (add_site uni load (p_waf a)) ss t) (p_proxy a)\<rparr>)"
  by (induction ss arbitrary: t) (simp_all add: funpow_swap1)

lemma install_fold: "install (fold (add_site uni load m) ss New_Proxy) p = Proxy_Reload uni load m ss p"
  by (simp add: install_def Proxy_Reload_def Let_def)

lemma ListSites_length:
  assumes "ListSites d = (Inr ss, d')"
  shows "length ss = length (sites d)"
  using assms by (auto simp: ListSites_def elim!: stmt_cases)

text \<open>A task that nothing interferes with does what the closure does in one go: after at most four steps and one
  per stored site it has ended, with the result and the state of the sequential reload.\<close>

lemma reload_task_alone:
  "(advance newWAF uni load ^^ (4 + length (sites (p_store a)))) (ReadDirectives, a) =
     (Done (fst (portal_reload newWAF uni load a)), snd (portal_reload newWAF uni load a))"
proof -
  let ?n = "length (sites (p_store a))"
  have step: "(advance newWAF uni load ^^ (4 + ?n)) x =
      (advance newWAF uni load ^^ Suc ?n) (advance newWAF uni load (advance newWAF uni load (advance newWAF uni load x)))" for x
    by (simp add: funpow_swap1 numeral_eq_Suc)
  obtain res d where e: "EnabledRuleDirectives (p_store a) = (res, d)" by fastforce
  have sites: "sites d = sites (p_store a)"
    using same_dataD(1) [OF queries_same_data(5) [of "p_store a"]] e by simp
  show ?thesis
  proof (cases res)
    case (Inl x)
    then show ?thesis unfolding step using e by (simp add: portal_reload_def del: funpow.simps)
  next
    case (Inr ds)
    obtain v m where m: "Manager_Reload newWAF ds (p_waf a) = (v, m)" by fastforce
    show ?thesis
    proof (cases v)
      case (Inl x)
      then show ?thesis unfolding step using e m Inr by (simp add: portal_reload_def del: funpow.simps)
    next
      case v: (Inr u)
      obtain l d' where l: "ListSites d = (l, d')" by fastforce
      show ?thesis
      proof (cases l)
        case (Inl x)
        then show ?thesis unfolding step using e m Inr v l by (simp add: portal_reload_def del: funpow.simps)
      next
        case l': (Inr ss)
        then have "?n = length ss" using ListSites_length l sites by simp
        then show ?thesis unfolding step using e m Inr v l l'
          by (simp add: portal_reload_def advance_route install_fold del: funpow.simps)
      qed
    qed
  qed
qed

section \<open>What every interleaving keeps\<close>

text \<open>A route is in order when it belongs to a valid, enabled site of its domain, leads to the site's upstream,
  and has an engine of exactly the site's mode in front, unless the mode is \<open>off\<close>. The site and the custom
  directives of the engine have to be ones that were in the store: \<open>S\<close> and \<open>R\<close> tell which were.\<close>

definition route_ok ::
  "(string \<Rightarrow> string + 'waf) \<Rightarrow> (string \<Rightarrow> string) \<Rightarrow> (site \<Rightarrow> bool) \<Rightarrow> (string list \<Rightarrow> bool) \<Rightarrow> string \<Rightarrow> 'waf handler \<Rightarrow> bool" where
  "route_ok newWAF uni S R domain h \<longleftrightarrow> (\<exists>st t. S st \<and> site_valid st \<and> site_Enabled st \<and> site_target st = Some t \<and>
     ToLower uni (site_Domain st) = domain \<and>
     (if site_WAFMode st = WAFModeOff then h = ReverseProxy t
      else \<exists>ds e. R ds \<and> newWAF (directives_of (Join ds newline) (engine_word (site_WAFMode st))) = Inr e \<and>
                  h = Inspected e (site_Domain st) t))"

definition routes_ok ::
  "(string \<Rightarrow> string + 'waf) \<Rightarrow> (string \<Rightarrow> string) \<Rightarrow> (site \<Rightarrow> bool) \<Rightarrow> (string list \<Rightarrow> bool) \<Rightarrow> ('waf, 'cert) proxy \<Rightarrow> bool" where
  "routes_ok newWAF uni S R p \<longleftrightarrow> (\<forall>domain h. handlers p domain = Some h \<longrightarrow> route_ok newWAF uni S R domain h)"

fun task_ok ::
  "(string \<Rightarrow> string + 'waf) \<Rightarrow> (string \<Rightarrow> string) \<Rightarrow> (site \<Rightarrow> bool) \<Rightarrow> (string list \<Rightarrow> bool) \<Rightarrow> ('waf, 'cert) reload_task \<Rightarrow> bool" where
  "task_ok newWAF uni S R (Compile ds) \<longleftrightarrow> R ds"
| "task_ok newWAF uni S R (Route ss t) \<longleftrightarrow> (\<forall>s \<in> set ss. S s \<and> site_valid s) \<and> routes_ok newWAF uni S R t"
| "task_ok newWAF uni S R _ \<longleftrightarrow> True"

definition conc_inv ::
  "(string \<Rightarrow> string + 'waf) \<Rightarrow> (string \<Rightarrow> string) \<Rightarrow> (site \<Rightarrow> bool) \<Rightarrow> (string list \<Rightarrow> bool)
   \<Rightarrow> ('waf, 'cert) portal \<times> ('waf, 'cert) reload_task list \<Rightarrow> bool" where
  "conc_inv newWAF uni S R x \<longleftrightarrow> contents_ok (p_store (fst x)) \<and>
     (\<forall>st \<in> set (sites (p_store (fst x))). S st) \<and> R (stored_directives (p_store (fst x))) \<and>
     (\<exists>ds. R ds \<and> compiled newWAF ds (p_waf (fst x))) \<and>
     routes_ok newWAF uni S R (p_proxy (fst x)) \<and> list_all (task_ok newWAF uni S R) (snd x)"

lemma routes_ok_New [simp]: "routes_ok newWAF uni S R New_Proxy"
  by (simp add: routes_ok_def New_Proxy_def)

lemma routes_ok_install [simp]: "routes_ok newWAF uni S R (install t p) = routes_ok newWAF uni S R t"
  by (simp add: routes_ok_def install_def)

text \<open>What was in the store stays a thing that was.\<close>

lemma routes_ok_mono:
  assumes "\<And>st. S st \<Longrightarrow> S' st" and "\<And>ds. R ds \<Longrightarrow> R' ds"
  shows "routes_ok newWAF uni S R p \<Longrightarrow> routes_ok newWAF uni S' R' p"
  unfolding routes_ok_def route_ok_def using assms by (meson order.refl)

lemma task_ok_mono:
  assumes "\<And>st. S st \<Longrightarrow> S' st" and "\<And>ds. R ds \<Longrightarrow> R' ds"
  shows "task_ok newWAF uni S R t \<Longrightarrow> task_ok newWAF uni S' R' t"
  using assms routes_ok_mono [where S = S and R = R and S' = S' and R' = R'] by (cases t) auto

lemma handler_route_ok:
  assumes "compiled newWAF ds m" and "R ds" and "S s" and "site_valid s" and "site_target s = Some t"
  shows "route_ok newWAF uni S R (ToLower uni (site_Domain s)) (handler_of m s)"
proof -
  have on: "site_Enabled s" using assms(5) by (auto simp: site_target_def split: option.splits if_splits)
  have d: "dom (engines m) = {WAFModeOn, WAFModeDetection}" using assms(1) by (simp add: compiled_def)
  have h: "handler_of m s = (case Engine (site_WAFMode s) m of None \<Rightarrow> ReverseProxy t | Some e \<Rightarrow> Inspected e (site_Domain s) t)"
    using assms(5) by (simp add: handler_of_def split: option.splits)
  show ?thesis
  proof (cases "site_WAFMode s = WAFModeOff")
    case True
    then have "site_WAFMode s \<notin> dom (engines m)" unfolding d by simp
    then have "Engine (site_WAFMode s) m = None" by (simp add: Engine_def domIff)
    with True h on assms show ?thesis by (auto simp: route_ok_def)
  next
    case False
    then have "site_WAFMode s \<in> dom (engines m)" using assms(4) d by (auto simp: site_valid_def)
    then obtain e where e: "Engine (site_WAFMode s) m = Some e" by (auto simp: Engine_def)
    with assms(1) have "newWAF (directives_of (Join ds newline) (engine_word (site_WAFMode s))) = Inr e"
      by (simp add: compiled_def)
    with False h e on assms(2-5) show ?thesis unfolding route_ok_def by auto
  qed
qed

lemma add_site_routes_ok:
  assumes "compiled newWAF ds m" and "R ds" and "S s" and "site_valid s" and "routes_ok newWAF uni S R t"
  shows "routes_ok newWAF uni S R (add_site uni load m s t)"
proof (cases "site_target s")
  case None
  then show ?thesis using assms(5) by (simp add: add_site_dead)
next
  case (Some x)
  with handler_route_ok [where R = R and S = S, OF assms(1-4) Some] assms(5) show ?thesis by (auto simp: routes_ok_def add_site_live)
qed

lemma fold_routes_ok:
  "compiled newWAF ds m \<Longrightarrow> R ds \<Longrightarrow> (\<forall>s \<in> set ss. S s \<and> site_valid s) \<Longrightarrow> routes_ok newWAF uni S R t \<Longrightarrow>
     routes_ok newWAF uni S R (fold (add_site uni load m) ss t)"
  by (induction ss arbitrary: t) (simp_all add: add_site_routes_ok)

lemma listed_sites: "ListSites d = (Inr ss, d') \<Longrightarrow> set ss = set (sites d)"
  by (auto simp: ListSites_def elim!: stmt_cases)

lemma read_directives: "EnabledRuleDirectives d = (Inr ds, d') \<Longrightarrow> ds = stored_directives d"
  by (auto simp: EnabledRuleDirectives_def stored_directives_def elim!: stmt_cases)

lemma listed_valid: "contents_ok d \<Longrightarrow> ListSites d = (Inr ss, d') \<Longrightarrow> \<forall>s \<in> set ss. site_valid s"
  by (simp add: contents_ok_def listed_sites)

lemma query_contents:
  assumes "contents_ok d"
  shows "ListSites d = (l, d') \<Longrightarrow> contents_ok d'" and "EnabledRuleDirectives d = (r, d'') \<Longrightarrow> contents_ok d''"
  using store_move_contents [OF store_move.query assms] queries_same_data(2,5) [of d] by (metis snd_conv)+

text \<open>Reading changes nothing the invariant speaks of.\<close>

lemma conc_inv_query:
  assumes "conc_inv newWAF uni S R (a, ts)" and "same_data (p_store a) d"
  shows "conc_inv newWAF uni S R (a\<lparr>p_store := d\<rparr>, ts)"
  using assms store_move_contents [OF store_move.query [OF assms(2)]] stored_same_data(1) [OF assms(2)] same_dataD(1) [OF assms(2)]
  by (simp add: conc_inv_def)

lemma Manager_Reload_keeps_compiled:
  assumes "compiled newWAF ds m" and "R ds" and "R ds'" and "Manager_Reload newWAF ds' m = (v, m')"
  shows "\<exists>ds. R ds \<and> compiled newWAF ds m'"
proof (cases v)
  case (Inl e)
  then have "m' = m" using waf_reload.fail_keeps [of newWAF ds' m] assms(4) by simp
  with assms(1,2) show ?thesis by blast
next
  case (Inr u)
  with assms(3,4) Manager_Reload_compiled show ?thesis by blast
qed

lemma task_step_inv:
  assumes "conc_inv newWAF uni S R (a, ts)" and "task_ok newWAF uni S R t" and "task_step newWAF uni load t a = (t', b)"
  shows "conc_inv newWAF uni S R (b, ts) \<and> task_ok newWAF uni S R t'"
proof -
  from assms(1) obtain ds where c: "contents_ok (p_store a)" and m: "compiled newWAF ds (p_waf a)" "R ds"
    and S: "\<forall>st \<in> set (sites (p_store a)). S st" and R: "R (stored_directives (p_store a))"
    by (auto simp: conc_inv_def)
  show ?thesis
  proof (cases t)
    case ReadDirectives
    obtain r d where q: "EnabledRuleDirectives (p_store a) = (r, d)" by fastforce
    then have "conc_inv newWAF uni S R (a\<lparr>p_store := d\<rparr>, ts)"
      using conc_inv_query [OF assms(1)] queries_same_data(5) [of "p_store a"] by simp
    with assms(3) ReadDirectives q R read_directives show ?thesis by (cases r) auto
  next
    case (Compile x)
    with assms Manager_Reload_keeps_compiled [where R = R, OF m] show ?thesis
      by (auto simp: conc_inv_def split: prod.splits sum.splits)
  next
    case ReadSites
    obtain l d where q: "ListSites (p_store a) = (l, d)" by fastforce
    then have "conc_inv newWAF uni S R (a\<lparr>p_store := d\<rparr>, ts)"
      using conc_inv_query [OF assms(1)] queries_same_data(2) [of "p_store a"] by simp
    with assms(3) ReadSites q S listed_sites listed_valid [OF c] show ?thesis by (cases l) auto
  next
    case (Route ss x)
    with assms add_site_routes_ok [where R = R and S = S, OF m] show ?thesis by (cases ss) (auto simp: conc_inv_def)
  next
    case (Done x)
    with assms show ?thesis by auto
  qed
qed

lemma conc_inv_mono:
  assumes "conc_inv newWAF uni S R x" and "\<And>st. S st \<Longrightarrow> S' st" and "\<And>ds. R ds \<Longrightarrow> R' ds"
  shows "conc_inv newWAF uni S' R' x"
proof -
  have "routes_ok newWAF uni S R p \<Longrightarrow> routes_ok newWAF uni S' R' p" for p :: "('a, 'b) proxy"
    by (rule routes_ok_mono [OF assms(2,3)])
  moreover have "task_ok newWAF uni S R t \<Longrightarrow> task_ok newWAF uni S' R' t" for t :: "('a, 'b) reload_task"
    by (rule task_ok_mono [OF assms(2,3)])
  ultimately show ?thesis
    using assms unfolding conc_inv_def list_all_iff by blast
qed

lemma reload_conc_inv:
  assumes "reload_conc newWAF uni load x y" and "conc_inv newWAF uni S R x"
    and "\<And>st. st \<in> set (sites (p_store (fst y))) \<Longrightarrow> S st" and "R (stored_directives (p_store (fst y)))"
  shows "conc_inv newWAF uni S R y"
  using assms(1)
proof cases
  case (statement a d ts)
  with assms(2-4) store_move_contents show ?thesis by (auto simp: conc_inv_def)
next
  case (call a ts)
  with assms(2) show ?thesis by (simp add: conc_inv_def)
next
  case (progress i ts a t b)
  have "task_ok newWAF uni S R (ts ! i)" using assms(2) progress(1,3) by (simp add: conc_inv_def list_all_length)
  with task_step_inv [OF _ _ progress(4)] assms(2) progress(1) have "conc_inv newWAF uni S R (b, ts)" "task_ok newWAF uni S R t" by blast+
  then show ?thesis using progress(2,3) by (auto simp: conc_inv_def list_all_length nth_list_update)
qed

text \<open>The sites and the directives the store had in the states of a run.\<close>

definition had_site :: "(('waf, 'cert) portal \<times> ('waf, 'cert) reload_task list) list \<Rightarrow> site \<Rightarrow> bool" where
  "had_site cs st \<longleftrightarrow> (\<exists>c \<in> set cs. st \<in> set (sites (p_store (fst c))))"

definition had_directives :: "(('waf, 'cert) portal \<times> ('waf, 'cert) reload_task list) list \<Rightarrow> string list \<Rightarrow> bool" where
  "had_directives cs ds \<longleftrightarrow> (\<exists>c \<in> set cs. ds = stored_directives (p_store (fst c)))"

lemma interleaving_inv:
  assumes "successively (reload_conc newWAF uni load) cs" and "cs \<noteq> []"
    and "conc_inv newWAF uni (had_site [hd cs]) (had_directives [hd cs]) (hd cs)"
  shows "conc_inv newWAF uni (had_site cs) (had_directives cs) (last cs)"
  using assms
proof (induction cs rule: rev_induct)
  case (snoc c cs)
  show ?case
  proof (cases cs)
    case Nil
    with snoc.prems(3) show ?thesis by simp
  next
    case (Cons x xs)
    then have "cs \<noteq> []" by simp
    then have step: "reload_conc newWAF uni load (last cs) c" and run: "successively (reload_conc newWAF uni load) cs"
      using snoc.prems(1) by (simp_all add: successively_append_iff)
    have "conc_inv newWAF uni (had_site cs) (had_directives cs) (last cs)"
      using snoc.IH [OF run] snoc.prems(3) Cons by simp
    then have "conc_inv newWAF uni (had_site (cs @ [c])) (had_directives (cs @ [c])) (last cs)"
      by (rule conc_inv_mono) (auto simp: had_site_def had_directives_def)
    then have "conc_inv newWAF uni (had_site (cs @ [c])) (had_directives (cs @ [c])) c"
      by (rule reload_conc_inv [OF step]) (auto simp: had_site_def had_directives_def)
    then show ?thesis by simp
  qed
qed simp

section \<open>When overlapping reloads agree\<close>

text \<open>Reloads that overlap only with each other: calls and steps, no statement that changes the store.\<close>

inductive reloads_only ::
  "(string \<Rightarrow> string + 'waf) \<Rightarrow> (string \<Rightarrow> string) \<Rightarrow> (string \<Rightarrow> string \<Rightarrow> 'cert option)
   \<Rightarrow> ('waf, 'cert) portal \<times> ('waf, 'cert) reload_task list
   \<Rightarrow> ('waf, 'cert) portal \<times> ('waf, 'cert) reload_task list \<Rightarrow> bool"
  for newWAF uni load where
  "reloads_only newWAF uni load (a, ts) (a, ReadDirectives # ts)"
| "i < length ts \<Longrightarrow> task_step newWAF uni load (ts ! i) a = (t, b) \<Longrightarrow>
    reloads_only newWAF uni load (a, ts) (b, ts[i := t])"

fun on_track ::
  "(string \<Rightarrow> string) \<Rightarrow> (string \<Rightarrow> string \<Rightarrow> 'cert option) \<Rightarrow> db \<Rightarrow> 'waf manager \<Rightarrow> ('waf, 'cert) portal
   \<Rightarrow> ('waf, 'cert) reload_task \<Rightarrow> bool" where
  "on_track uni load d m a ReadDirectives \<longleftrightarrow> True"
| "on_track uni load d m a (Compile ds) \<longleftrightarrow> ds = stored_directives d"
| "on_track uni load d m a ReadSites \<longleftrightarrow> p_waf a = m"
| "on_track uni load d m a (Route ss t) \<longleftrightarrow> p_waf a = m \<and>
     (\<exists>pre. stored_sites d = pre @ ss \<and> t = fold (add_site uni load m) pre New_Proxy)"
| "on_track uni load d m a (Done res) \<longleftrightarrow> p_waf a = m \<and> res = Inr () \<and>
     p_proxy a = Proxy_Reload uni load m (stored_sites d) New_Proxy"

lemma task_step_on_track:
  assumes "faults d = []" and "\<And>m0. Manager_Reload newWAF (stored_directives d) m0 = (Inr (), m)"
    and "p_store a = d" and "on_track uni load d m a t" and "task_step newWAF uni load t a = (t', b)"
  shows "p_store b = d \<and> on_track uni load d m b t' \<and> (\<forall>u. on_track uni load d m a u \<longrightarrow> on_track uni load d m b u)"
proof (cases t)
  case ReadDirectives
  with assms(1,3,5) show ?thesis by (auto simp: EnabledRuleDirectives_def stored_directives_def)
next
  case (Compile ds)
  then have b: "b = a\<lparr>p_waf := m\<rparr>" "t' = ReadSites" using assms(2) [of "p_waf a"] assms(4,5) by auto
  have "on_track uni load d m a u \<Longrightarrow> on_track uni load d m b u" for u unfolding b by (cases u) auto
  with assms(3) b show ?thesis by auto
next
  case ReadSites
  with assms(1,3-5) show ?thesis by (auto simp: ListSites_def stored_sites_def)
next
  case (Route ss x)
  then obtain pre where pre: "stored_sites d = pre @ ss" "x = fold (add_site uni load m) pre New_Proxy" and m: "p_waf a = m"
    using assms(4) by auto
  show ?thesis
  proof (cases ss)
    case Nil
    then have "install x (p_proxy a) = Proxy_Reload uni load m (stored_sites d) (p_proxy a)" using pre by (simp add: install_fold)
    also have "\<dots> = Proxy_Reload uni load m (stored_sites d) New_Proxy" by (rule Proxy_Reload_any)
    finally have b: "b = a\<lparr>p_proxy := Proxy_Reload uni load m (stored_sites d) New_Proxy\<rparr>" "t' = Done (Inr ())"
      using assms(5) Route Nil by auto
    have "on_track uni load d m a u \<Longrightarrow> on_track uni load d m b u" for u unfolding b by (cases u) auto
    with assms(3) b m show ?thesis by auto
  next
    case (Cons s rest)
    then have b: "b = a" "t' = Route rest (add_site uni load m s x)" using assms(5) Route m by auto
    have "stored_sites d = (pre @ [s]) @ rest" "add_site uni load m s x = fold (add_site uni load m) (pre @ [s]) New_Proxy"
      using pre Cons by simp_all
    with assms(3) b m show ?thesis unfolding b on_track.simps by blast
  qed
next
  case (Done res)
  with assms(3-5) show ?thesis by auto
qed

lemma reloads_only_on_track:
  assumes "faults d = []" and "\<And>m0. Manager_Reload newWAF (stored_directives d) m0 = (Inr (), m)"
    and "reloads_only newWAF uni load x y" and "p_store (fst x) = d" and "list_all (on_track uni load d m (fst x)) (snd x)"
  shows "p_store (fst y) = d \<and> list_all (on_track uni load d m (fst y)) (snd y) \<and> (snd x \<noteq> [] \<longrightarrow> snd y \<noteq> [])"
  using assms(3)
proof cases
  case (1 a ts)
  with assms(4,5) show ?thesis by simp
next
  case (2 i ts a t b)
  have "on_track uni load d m a (ts ! i)" using assms(5) 2(1,3) by (simp add: list_all_length)
  from task_step_on_track [OF assms(1,2) _ this 2(4)] assms(4) 2(1)
  have b: "p_store b = d" "on_track uni load d m b t" "\<And>u. on_track uni load d m a u \<Longrightarrow> on_track uni load d m b u" by simp_all
  with assms(5) 2 show ?thesis by (auto simp: list_all_length nth_list_update)
qed

text \<open>C11: Reloads that overlap without a change of the store in between agree. Whatever the interleaving of any
  number of reloads on one database whose rules compile and whose driver does not fail, once all of them
  have returned, every one has succeeded and the engines and the routing are those of the database.\<close>

theorem overlapping_reloads_converge:
  assumes "faults (p_store a) = []" and "compiles newWAF (stored_directives (p_store a))"
    and "(reloads_only newWAF uni load)\<^sup>*\<^sup>* (a, [ReadDirectives]) (b, ts)" and "\<forall>t \<in> set ts. \<exists>res. t = Done res"
  shows "in_sync newWAF uni load (p_store a) b \<and> p_store b = p_store a \<and> ts = replicate (length ts) (Done (Inr ()))"
proof -
  let ?d = "p_store a"
  obtain m where m: "Manager_Reload newWAF (stored_directives ?d) (p_waf a) = (Inr (), m)"
    using assms(2) compiles_iff by (metis prod.collapse)
  have all: "Manager_Reload newWAF (stored_directives ?d) m0 = (Inr (), m)" for m0
    using waf_reload.same_verdict [of newWAF "stored_directives ?d" m0 "p_waf a"]
      waf_reload.history_free [of newWAF "stored_directives ?d" m0 "p_waf a"] m by (metis fst_conv prod.collapse snd_conv)
  have inv: "p_store b = ?d \<and> list_all (on_track uni load ?d m b) ts \<and> ts \<noteq> []"
    using assms(3)
  proof (induction rule: rtranclp_induct2)
    case (step b us c vs)
    from reloads_only_on_track [OF assms(1) all step.hyps(2)] step.IH show ?case by simp
  qed simp
  have d: "t = Done (Inr ()) \<and> p_waf b = m \<and> p_proxy b = Proxy_Reload uni load m (stored_sites ?d) New_Proxy" if "t \<in> set ts" for t
    using inv that assms(4) by (fastforce simp: list_all_iff)
  obtain t where "t \<in> set ts" using inv by (cases ts) auto
  with d have "p_waf b = m" "p_proxy b = Proxy_Reload uni load m (stored_sites ?d) New_Proxy" by blast+
  then have "in_sync newWAF uni load ?d b" using all Proxy_Reload_any unfolding in_sync_iff by metis
  moreover have "ts = replicate (length ts) (Done (Inr ()))" using d by (intro replicate_eqI) auto
  ultimately show ?thesis using inv by simp
qed

lemma reloads_only_advance:
  assumes "i < length ts" and "(advance newWAF uni load ^^ n) (ts ! i, a) = (t, b)"
  shows "(reloads_only newWAF uni load)\<^sup>*\<^sup>* (a, ts) (b, ts[i := t])"
  using assms(2)
proof (induction n arbitrary: t b)
  case (Suc n)
  obtain u c where u: "(advance newWAF uni load ^^ n) (ts ! i, a) = (u, c)" by fastforce
  with Suc.prems have "task_step newWAF uni load ((ts[i := u]) ! i) c = (t, b)" using assms(1) by simp
  from reloads_only.intros(2) [OF _ this] assms(1) have "reloads_only newWAF uni load (c, ts[i := u]) (b, ts[i := t])" by simp
  with Suc.IH [OF u] show ?case by simp
qed simp

lemma reloads_only_conc:
  "(reloads_only newWAF uni load)\<^sup>*\<^sup>* x y \<Longrightarrow> (reload_conc newWAF uni load)\<^sup>*\<^sup>* x y"
proof (induction rule: rtranclp_induct)
  case (step y z)
  from step.hyps(2) have "reload_conc newWAF uni load y z"
    by cases (auto intro: reload_conc.call reload_conc.progress)
  with step.IH show ?case by simp
qed simp

lemma reload_alone:
  assumes "portal_reload newWAF uni load a = (res, b)" and "i < length ts" and "ts ! i = ReadDirectives"
  shows "(reloads_only newWAF uni load)\<^sup>*\<^sup>* (a, ts) (b, ts[i := Done res])"
  by (rule reloads_only_advance [OF assms(2), where n = "4 + length (sites (p_store a))"])
    (simp add: assms(1,3) reload_task_alone del: funpow.simps)

text \<open>A whole request to the control plane is a run as well: its statements and its reloads one after the other.
  Only the ended tasks of its reloads are left over.\<close>

lemma portal_moves_run:
  assumes "portal_moves newWAF uni load a b"
  shows "\<exists>us. (\<forall>t \<in> set us. \<exists>res. t = Done res) \<and> (reload_conc newWAF uni load)\<^sup>*\<^sup>* (a, ts) (b, us @ ts)"
  using assms
proof (induction rule: rtranclp_induct)
  case base
  show ?case by (intro exI [of _ "[]"]) simp
next
  case (step b c)
  then obtain us where us: "\<forall>t \<in> set us. \<exists>res. t = Done res" "(reload_conc newWAF uni load)\<^sup>*\<^sup>* (a, ts) (b, us @ ts)" by blast
  from step.hyps(2) show ?case
  proof cases
    case (on_store d)
    with reload_conc.statement us show ?thesis by (metis (no_types, lifting) rtranclp.rtrancl_into_rtrancl)
  next
    case on_reload
    obtain res where r: "portal_reload newWAF uni load b = (res, c)" using on_reload by (metis prod.collapse)
    have "(reload_conc newWAF uni load)\<^sup>*\<^sup>* (b, us @ ts) (c, (Done res # us) @ ts)"
      using converse_rtranclp_into_rtranclp [OF reload_conc.call reloads_only_conc [OF reload_alone [OF r, of 0]]] by fastforce
    with us show ?thesis by (intro exI [of _ "Done res # us"]) auto
  qed
qed

lemma request_is_run:
  assumes "portal_server newWAF uni load s"
  shows "\<exists>us. (\<forall>t \<in> set us. \<exists>res. t = Done res) \<and>
    (reload_conc newWAF uni load)\<^sup>*\<^sup>* (a, ts) (snd (Handler s now ep r a), us @ ts)"
  by (rule portal_moves_run [OF Handler_moves [OF assms]])

theorem overlapping_reloads_converge_witness:
  "\<exists>b. (reloads_only text_waf (\<lambda>s. s) (\<lambda>_ _. None))\<^sup>*\<^sup>* (fresh_portal, [ReadDirectives]) (b, [Done (Inr ()), Done (Inr ())]) \<and>
     in_sync text_waf (\<lambda>s. s) (\<lambda>_ _. None) (p_store fresh_portal) b"
proof -
  let ?R = "reloads_only text_waf (\<lambda>s. s) (\<lambda>_ _. None :: string option)"
  let ?load = "portal_reload text_waf (\<lambda>s. s) (\<lambda>_ _. None)"
  have ok: "compiles text_waf (stored_directives (p_store fresh_portal))"
    using compiles_none by (simp add: fresh_portal_def empty_db_def stored_directives_def)
  obtain a where a: "?load fresh_portal = (Inr (), a)"
    using portal_reload_atomic_facts(2) [OF fresh_faults prod.collapse [symmetric]] ok by (metis prod.collapse)
  then have s: "p_store a = p_store fresh_portal" using portal_reload_atomic_facts(1) [OF fresh_faults] by blast
  have fa: "faults (p_store a) = []" and oka: "compiles text_waf (stored_directives (p_store a))"
    unfolding s by (rule fresh_faults ok)+
  obtain b where b: "?load a = (Inr (), b)"
    using portal_reload_atomic_facts(2) [OF fa prod.collapse [symmetric]] oka by (metis prod.collapse)
  have "?R (fresh_portal, [ReadDirectives]) (fresh_portal, [ReadDirectives, ReadDirectives])" by (rule reloads_only.intros)
  moreover have "?R\<^sup>*\<^sup>* (fresh_portal, [ReadDirectives, ReadDirectives]) (a, [ReadDirectives, Done (Inr ())])"
    using reload_alone [OF a, of 1 "[ReadDirectives, ReadDirectives]"] by simp
  moreover have "?R\<^sup>*\<^sup>* (a, [ReadDirectives, Done (Inr ())]) (b, [Done (Inr ()), Done (Inr ())])"
    using reload_alone [OF b, of 0 "[ReadDirectives, Done (Inr ())]"] by simp
  ultimately have run: "?R\<^sup>*\<^sup>* (fresh_portal, [ReadDirectives]) (b, [Done (Inr ()), Done (Inr ())])" by simp
  with overlapping_reloads_converge [OF fresh_faults ok run] show ?thesis by auto
qed

section \<open>When they do not\<close>

text \<open>C36: Reloads are not serialized, and one that has read the sites before a change can undo its effect. If a
  site is deleted while a reload that has listed the sites is still building its table, and the deletion's
  own reload finishes first, then in the end the deletion is in the store, both reloads have reported
  success, no reload is left, and the routing is nevertheless the one of the old sites: the deleted site
  is served until something else triggers a reload.\<close>

theorem overlapping_reload_keeps_deleted_site:
  fixes a :: "('waf, 'cert) portal"
  assumes "faults (p_store a) = []" and "compiles newWAF (stored_directives (p_store a))"
    and "DeleteSite i (p_store a) = (Inr (), d)"
  shows "\<exists>b. (reload_conc newWAF uni load)\<^sup>*\<^sup>* (a, []) (b, [Done (Inr ()), Done (Inr ())]) \<and> p_store b = d \<and>
    p_proxy b = Proxy_Reload uni load (p_waf b) (stored_sites (p_store a)) New_Proxy"
proof -
  let ?R = "reloads_only newWAF uni load" and ?C = "reload_conc newWAF uni load"
  let ?ss = "stored_sites (p_store a)"
  obtain m where m: "Manager_Reload newWAF (stored_directives (p_store a)) (p_waf a) = (Inr (), m)"
    using assms(2) compiles_iff by (metis prod.collapse)
  define a1 where "a1 = a\<lparr>p_waf := m\<rparr>"
  define a2 where "a2 = a1\<lparr>p_store := d\<rparr>"
  have d: "faults d = []" "stored_directives d = stored_directives (p_store a)"
    using assms(1,3) by (auto simp: DeleteSite_def stored_directives_def)
  have "(advance newWAF uni load ^^ 3) (ReadDirectives, a) = (Route ?ss New_Proxy, a1)"
    using assms(1) m by (simp add: numeral_eq_Suc a1_def EnabledRuleDirectives_def ListSites_def stored_directives_def stored_sites_def)
  then have 1: "?R\<^sup>*\<^sup>* (a, [ReadDirectives]) (a1, [Route ?ss New_Proxy])"
    using reloads_only_advance [of 0 "[ReadDirectives]"] by simp
  have 2: "?C (a1, [Route ?ss New_Proxy]) (a2, [Route ?ss New_Proxy])"
    unfolding a2_def using store_move.delete_site [of "p_store a" i] assms(3)
    by (intro reload_conc.statement) (simp add: a1_def)
  have f2: "faults (p_store a2) = []" and ok2: "compiles newWAF (stored_directives (p_store a2))"
    using assms(2) by (simp_all add: a2_def d)
  obtain a3 where a3: "portal_reload newWAF uni load a2 = (Inr (), a3)"
    using portal_reload_atomic_facts(2) [OF f2 prod.collapse [symmetric], of newWAF uni load] ok2 by (metis prod.collapse)
  have s3: "p_store a3 = d" using portal_reload_atomic_facts(1) [OF f2 a3] by (simp add: a2_def)
  have 3: "?R\<^sup>*\<^sup>* (a2, [ReadDirectives, Route ?ss New_Proxy]) (a3, [Done (Inr ()), Route ?ss New_Proxy])"
    using reload_alone [OF a3, of 0 "[ReadDirectives, Route ?ss New_Proxy]"] by simp
  define b where "b = a3\<lparr>p_proxy := Proxy_Reload uni load (p_waf a3) ?ss (p_proxy a3)\<rparr>"
  have 4: "?R\<^sup>*\<^sup>* (a3, [Done (Inr ()), Route ?ss New_Proxy]) (b, [Done (Inr ()), Done (Inr ())])"
    using reloads_only_advance [of 1 "[Done (Inr ()), Route ?ss New_Proxy]", where n = "Suc (length ?ss)" and a = a3]
      advance_route [of ?ss newWAF uni load New_Proxy a3]
    by (simp add: install_fold b_def del: funpow.simps)
  have "?C\<^sup>*\<^sup>* (a, []) (a1, [Route ?ss New_Proxy])"
    by (rule converse_rtranclp_into_rtranclp [OF reload_conc.call reloads_only_conc [OF 1]])
  also note 2
  also have "?C\<^sup>*\<^sup>* (a2, [Route ?ss New_Proxy]) (a3, [Done (Inr ()), Route ?ss New_Proxy])"
    by (rule converse_rtranclp_into_rtranclp [OF reload_conc.call reloads_only_conc [OF 3]])
  also note reloads_only_conc [OF 4]
  finally have "?C\<^sup>*\<^sup>* (a, []) (b, [Done (Inr ()), Done (Inr ())])" .
  moreover have "p_proxy b = Proxy_Reload uni load (p_waf b) ?ss New_Proxy" unfolding b_def by (simp add: Proxy_Reload_def Let_def)
  ultimately show ?thesis using s3 by (auto simp: b_def)
qed

definition site_portal :: "(string, string) portal" where
  "site_portal = fresh_portal\<lparr>p_store := empty_db\<lparr>sites := [sample_site], sites_seq := 1\<rparr>\<rparr>"

theorem overlapping_reload_keeps_deleted_site_witness:
  "\<exists>b. (reload_conc text_waf (\<lambda>s. s) (\<lambda>_ _. None))\<^sup>*\<^sup>* (site_portal, []) (b, [Done (Inr ()), Done (Inr ())]) \<and>
     sites (p_store b) = [] \<and> handlerFor (\<lambda>s. s) ''example.com'' (p_proxy b) = Some (handler_of (p_waf b) sample_site)"
proof -
  let ?d = "empty_db\<lparr>sites_seq := 1\<rparr>"
  have f: "faults (p_store site_portal) = []" and ds: "stored_directives (p_store site_portal) = []"
    and ss: "stored_sites (p_store site_portal) = [sample_site]"
    by (simp_all add: site_portal_def fresh_portal_def empty_db_def stored_directives_def stored_sites_def)
  have del: "DeleteSite (site_ID sample_site) (p_store site_portal) = (Inr (), ?d)"
    by (simp add: DeleteSite_def site_portal_def fresh_portal_def empty_db_def)
  have ok: "compiles text_waf (stored_directives (p_store site_portal))" unfolding ds by (rule compiles_none)
  from overlapping_reload_keeps_deleted_site [OF f ok del, of "\<lambda>s. s" "\<lambda>_ _. None"] obtain b
    where run: "(reload_conc text_waf (\<lambda>s. s) (\<lambda>_ _. None))\<^sup>*\<^sup>* (site_portal, []) (b, [Done (Inr ()), Done (Inr ())])"
      and b: "p_store b = ?d" "p_proxy b = Proxy_Reload (\<lambda>s. s) (\<lambda>_ _. None) (p_waf b) [sample_site] New_Proxy"
    unfolding ss by blast
  have "handlerFor (\<lambda>s. s) ''example.com'' (p_proxy b) = Some (handler_of (p_waf b) sample_site)"
    unfolding b(2) by (simp add: handlerFor_def host_domain_example Proxy_Reload_lookup sample_routed)
  with run b(1) show ?thesis by (auto simp: empty_db_def)
qed

end
