(* ===== verification/Portal_Main.thy ===== *)
theory Portal_Main
  imports Control_Props Config Store_Open
begin

text \<open>
  \<^verbatim>\<open>cmd/wafportal/main.go\<close>: start-up, the listeners, the client address used for rate limiting, and the
  sink that takes events off the request path.
\<close>

section \<open>Client addresses\<close>

text \<open>\<open>Header.Get\<close> looks its key up in canonical form: the first letter and every letter after a hyphen in
  upper case, the others in lower case, unless the key has a byte that no header name may have.\<close>

definition token_byte :: "char \<Rightarrow> bool" where
  "token_byte c \<longleftrightarrow> is_letter c \<or> is_digit c \<or> c \<in> set ''!#$%&*+-.^_`|~'' \<or> c = CHR 0x27"

definition upper_byte :: "char \<Rightarrow> char" where
  "upper_byte c = (if CHR ''a'' \<le> c \<and> c \<le> CHR ''z'' then char_of (of_char c - 32 :: nat) else c)"

fun canonical_loop :: "bool \<Rightarrow> string \<Rightarrow> string" where
  "canonical_loop up [] = []"
| "canonical_loop up (c # cs) = (if up then upper_byte c else lower_byte c) # canonical_loop (c = CHR ''-'') cs"

definition CanonicalHeaderKey :: "string \<Rightarrow> string" where
  "CanonicalHeaderKey k = (if list_all token_byte k then canonical_loop True k else k)"

definition Header_Get :: "http_request \<Rightarrow> string \<Rightarrow> string" where
  "Header_Get r k = Values_Get (r_Header r) (CanonicalHeaderKey k)"

definition clientIPFunc :: "rate_limit_config \<Rightarrow> http_request \<Rightarrow> string" where
  "clientIPFunc cfg r =
     (let h = Header_Get r (cfg_ForwardedHeader cfg);
          peer = (case SplitHostPort (r_RemoteAddr r) of None \<Rightarrow> r_RemoteAddr r | Some (host, _) \<Rightarrow> host)
      in if cfg_TrustForwardedHeader cfg \<and> cfg_ForwardedHeader cfg \<noteq> [] \<and> h \<noteq> []
         then TrimSpace (before_byte h CHR '','') else peer)"

section \<open>The event sink\<close>

text \<open>The buffered channel.\<close>

record event_sink =
  ch :: "event list"
  buffer :: nat

definition newEventSink :: "nat \<Rightarrow> event_sink" where
  "newEventSink n = \<lparr>ch = [], buffer = n\<rparr>"

text \<open>\<open>Submit\<close> tells whether the event was taken; it never waits.\<close>

definition Submit :: "event \<Rightarrow> event_sink \<Rightarrow> bool \<times> event_sink" where
  "Submit e s = (if length (ch s) < buffer s then (True, s\<lparr>ch := ch s @ [e]\<rparr>) else (False, s))"

text \<open>What the worker receives from the channel; it waits while there is nothing.\<close>

definition receive :: "event_sink \<Rightarrow> (event \<times> event_sink) option" where
  "receive s = (case ch s of [] \<Rightarrow> None | e # rest \<Rightarrow> Some (e, s\<lparr>ch := rest\<rparr>))"

text \<open>One round of \<open>run\<close>: receive and insert; a failed insert is logged and the event is gone.\<close>

definition run_once :: "event_sink \<times> db \<Rightarrow> ((event \<times> (db_error + event)) option) \<times> event_sink \<times> db" where
  "run_once st =
     (case receive (fst st) of
        None \<Rightarrow> (None, st)
      | Some (e, s) \<Rightarrow> (case InsertEvent e (snd st) of (res, d) \<Rightarrow> (Some (e, res), s, d)))"

text \<open>Submissions of the request path and rounds of the worker, in any order.\<close>

datatype sink_event = Submitted event | Worked

datatype sink_output = Accepted event | Dropped event | Stored event event | Lost event db_error

fun sink_step :: "sink_event \<Rightarrow> event_sink \<times> db \<Rightarrow> sink_output list \<times> event_sink \<times> db" where
  "sink_step (Submitted e) st =
     (case Submit e (fst st) of (ok, s) \<Rightarrow> ([if ok then Accepted e else Dropped e], s, snd st))"
| "sink_step Worked st =
     (case run_once st of
        (None, st) \<Rightarrow> ([], st)
      | (Some (e, Inl err), st) \<Rightarrow> ([Lost e err], st)
      | (Some (e, Inr e'), st) \<Rightarrow> ([Stored e e'], st))"

section \<open>Listeners\<close>

datatype listener_handler = AdminAPI | ProxyPlain | ProxyTLS

record http_server =
  hs_Addr :: string
  hs_Handler :: listener_handler
  hs_ReadHeaderTimeout :: duration
  hs_ReadTimeout :: duration
  hs_WriteTimeout :: duration
  hs_IdleTimeout :: duration

definition setProxyTimeouts :: "http_server \<Rightarrow> http_server" where
  "setProxyTimeouts s = s\<lparr>hs_ReadHeaderTimeout := 10 * second, hs_IdleTimeout := 120 * second\<rparr>"

definition bare_server :: "string \<Rightarrow> listener_handler \<Rightarrow> http_server" where
  "bare_server addr h = \<lparr>hs_Addr = addr, hs_Handler = h, hs_ReadHeaderTimeout = 0, hs_ReadTimeout = 0,
     hs_WriteTimeout = 0, hs_IdleTimeout = 0\<rparr>"

definition startServers :: "config \<Rightarrow> http_server list" where
  "startServers cfg =
     (let admin = (bare_server (cfg_Addr (cfg_Admin cfg)) AdminAPI)
            \<lparr>hs_ReadHeaderTimeout := 10 * second, hs_ReadTimeout := 30 * second, hs_WriteTimeout := 60 * second,
             hs_IdleTimeout := 120 * second\<rparr>;
          httpSrv = setProxyTimeouts (bare_server (cfg_HTTPAddr (cfg_Proxy cfg)) ProxyPlain)
      in [admin, httpSrv] @
         (if cfg_HTTPSAddr (cfg_Proxy cfg) \<noteq> []
          then [setProxyTimeouts (bare_server (cfg_HTTPSAddr (cfg_Proxy cfg)) ProxyTLS)] else []))"

section \<open>The embedded app\<close>

text \<open>A file system as the names it has. \<open>fs.ValidPath\<close>: slash-separated elements, none empty, \<open>.\<close> or \<open>..\<close>, or
  the name \<open>.\<close> of the root. (It also asks for UTF-8, which every embedded name is.)\<close>

definition ValidPath :: "string \<Rightarrow> bool" where
  "ValidPath name \<longleftrightarrow> name = ''.'' \<or> list_all (\<lambda>e. e \<noteq> [] \<and> e \<noteq> ''.'' \<and> e \<noteq> ''..'') (split_on CHR ''/'' name)"

definition fs_Sub :: "(string \<Rightarrow> bool) \<Rightarrow> string \<Rightarrow> string + (string \<Rightarrow> bool)" where
  "fs_Sub fsys dir =
     (if \<not> ValidPath dir then Inl (''sub '' @ dir @ '': invalid argument'')
      else if dir = ''.'' then Inr fsys
      else Inr (\<lambda>name. ValidPath name \<and> fsys (if name = ''.'' then dir else dir @ ''/'' @ name)))"

definition Dist :: "(string \<Rightarrow> bool) \<Rightarrow> string + (string \<Rightarrow> bool)" where
  "Dist embedded = fs_Sub embedded ''dist''"

section \<open>Start-up\<close>

datatype fatal =
  FatalConfig config_error | FatalStore open_error | FatalLoad portal_error | FatalAuth auth_error | FatalSPA string

record ('waf, 'cert, 'lim) running =
  run_portal :: "('waf, 'cert) portal"
  run_auth :: authenticator
  run_limiter :: "'lim limiter option"
  run_sink :: event_sink
  run_servers :: "http_server list"
  run_announced :: "(string \<times> string) option"
  run_spa :: "string \<Rightarrow> bool"
  run_clientIP :: "http_request \<Rightarrow> string"

text \<open>\<open>main\<close> up to the point where it serves: \<open>failed\<close>, \<open>fs\<close> and \<open>f\<close> are what opening the database meets and
  finds, \<open>envPassword\<close> the environment variable, \<open>rs\<close> and \<open>rp\<close> the random bytes of the secret and of a
  generated password, \<open>embedded\<close> the files in the binary.\<close>

definition main_start ::
  "(string \<Rightarrow> config \<Rightarrow> config \<times> string option) \<Rightarrow> file_read \<Rightarrow> string option \<Rightarrow> string option list \<Rightarrow> db_file
   \<Rightarrow> (string \<Rightarrow> string + 'waf) \<Rightarrow> (string \<Rightarrow> string) \<Rightarrow> (string \<Rightarrow> string \<Rightarrow> 'cert option) \<Rightarrow> (string \<Rightarrow> string + string)
   \<Rightarrow> string + string \<Rightarrow> string + string \<Rightarrow> string \<Rightarrow> (string \<Rightarrow> bool) \<Rightarrow> fatal + ('waf, 'cert, 'lim) running" where
  "main_start unmarshal rd failed fs f newWAF uni load gen rs rp envPassword embedded =
     (case Load unmarshal rd of
        (_, Some e) \<Rightarrow> Inl (FatalConfig e)
      | (cfg, None) \<Rightarrow>
          (case fst (Open failed fs f) of
             Inl e \<Rightarrow> Inl (FatalStore e)
           | Inr d \<Rightarrow>
               (let limiter = (if cfg_Enabled (cfg_RateLimit cfg)
                      then Some (New_Limiter (cfg_RequestsPerSecond (cfg_RateLimit cfg)) (cfg_Burst (cfg_RateLimit cfg)))
                      else None)
                in case portal_reload newWAF uni load \<lparr>p_store = d, p_waf = NewManager, p_proxy = New_Proxy\<rparr> of
                     (Inl e, _) \<Rightarrow> Inl (FatalLoad e)
                   | (Inr _, a) \<Rightarrow>
                       (let password = (if envPassword \<noteq> [] then envPassword else cfg_Password (cfg_Admin cfg))
                        in case New gen rs rp (cfg_Username (cfg_Admin cfg)) password (p_store a) of
                             (Inl e, _) \<Rightarrow> Inl (FatalAuth e)
                           | (Inr au, d) \<Rightarrow>
                               (let (announced, d) = (if GeneratedPassword au \<noteq> []
                                      then (case Username d of (u, d) \<Rightarrow> (Some (u, GeneratedPassword au), d)) else (None, d))
                                in case Dist embedded of
                                     Inl e \<Rightarrow> Inl (FatalSPA e)
                                   | Inr spa \<Rightarrow>
                                       Inr \<lparr>run_portal = a\<lparr>p_store := d\<rparr>, run_auth = au, run_limiter = limiter,
                                            run_sink = newEventSink 4096, run_servers = startServers cfg,
                                            run_announced = announced, run_spa = spa,
                                            run_clientIP = clientIPFunc (cfg_RateLimit cfg)\<rparr>)))))"

section \<open>Bounded queues\<close>

text \<open>What a sender and a receiver may rely on: a queue with a bound that takes an element at its end
  unless it is full, and gives one from its front unless it is empty.\<close>

locale bounded_queue =
  fixes put :: "'e \<Rightarrow> 'q \<Rightarrow> bool \<times> 'q" and get :: "'q \<Rightarrow> ('e \<times> 'q) option"
    and items :: "'q \<Rightarrow> 'e list" and bound :: "'q \<Rightarrow> nat"
  assumes put_room: "length (items q) < bound q \<Longrightarrow> put e q = (True, q') \<Longrightarrow> items q' = items q @ [e]"
    and put_verdict: "fst (put e q) \<longleftrightarrow> length (items q) < bound q"
    and put_full: "\<not> fst (put e q) \<Longrightarrow> snd (put e q) = q"
    and get_none: "get q = None \<longleftrightarrow> items q = []"
    and get_some: "get q = Some (e, q') \<Longrightarrow> items q = e # items q'"
    and bound_put: "bound (snd (put e q)) = bound q" and bound_get: "get q = Some (e, q') \<Longrightarrow> bound q' = bound q"
begin

lemma put_items: "put e q = (ok, q') \<Longrightarrow> items q' = items q @ (if ok then [e] else [])"
  using put_room [of q e q'] put_verdict [of e q] put_full [of e q] by (cases ok) auto

lemma put_bounded: "length (items q) \<le> bound q \<Longrightarrow> length (items (snd (put e q))) \<le> bound q"
  using put_items [of e q] put_verdict [of e q] by (cases "put e q") auto

lemma get_bounded: "length (items q) \<le> bound q \<Longrightarrow> get q = Some (e, q') \<Longrightarrow> length (items q') \<le> bound q'"
  using get_some bound_get by fastforce

end

interpretation sink: bounded_queue Submit receive ch buffer
  by unfold_locales (auto simp: Submit_def receive_def split: if_splits list.splits)

section \<open>Properties of the sink\<close>

fun accepted_of :: "sink_output \<Rightarrow> event list" where
  "accepted_of (Accepted e) = [e]" | "accepted_of _ = []"

fun taken_of :: "sink_output \<Rightarrow> event list" where
  "taken_of (Stored e _) = [e]" | "taken_of (Lost e _) = [e]" | "taken_of _ = []"

fun stored_of :: "sink_output \<Rightarrow> event list" where
  "stored_of (Stored _ e) = [e]" | "stored_of _ = []"

fun submitted_of :: "sink_event \<Rightarrow> event list" where
  "submitted_of (Submitted e) = [e]" | "submitted_of Worked = []"

fun offered_of :: "sink_output \<Rightarrow> event list" where
  "offered_of (Accepted e) = [e]" | "offered_of (Dropped e) = [e]" | "offered_of _ = []"

lemma run_once_cases:
  obtains (idle) "run_once st = (None, st)" "ch (fst st) = []"
  | (work) e s res d where "receive (fst st) = Some (e, s)" "InsertEvent e (snd st) = (res, d)" "run_once st = (Some (e, res), s, d)"
proof (cases "receive (fst st)")
  case None
  then have "run_once st = (None, st)" "ch (fst st) = []" using sink.get_none [of "fst st"] by (simp_all add: run_once_def)
  then show thesis by (rule idle)
next
  case (Some p)
  obtain e s where p: "p = (e, s)" by fastforce
  obtain res d where "InsertEvent e (snd st) = (res, d)" by fastforce
  with Some p show thesis by (intro work [of e s res d]) (simp_all add: run_once_def)
qed

lemma sink_step_queue:
  assumes "sink_step x st = (os, st')"
  shows "ch (fst st) @ concat (map accepted_of os) = concat (map taken_of os) @ ch (fst st')"
    and "length (ch (fst st)) \<le> buffer (fst st) \<Longrightarrow> length (ch (fst st')) \<le> buffer (fst st')"
    and "buffer (fst st') = buffer (fst st)" and "concat (map offered_of os) = submitted_of x"
proof -
  have "ch (fst st) @ concat (map accepted_of os) = concat (map taken_of os) @ ch (fst st') \<and>
    (length (ch (fst st)) \<le> buffer (fst st) \<longrightarrow> length (ch (fst st')) \<le> buffer (fst st')) \<and>
    buffer (fst st') = buffer (fst st) \<and> concat (map offered_of os) = submitted_of x"
  proof (cases x)
    case (Submitted e)
    with assms show ?thesis by (auto simp: Submit_def split: if_splits)
  next
    case Worked
    show ?thesis
    proof (cases rule: run_once_cases [of st])
      case idle
      with assms Worked show ?thesis by simp
    next
      case (work e s res d)
      with sink.get_some [OF work(1)] sink.bound_get [OF work(1)] assms Worked show ?thesis
        by (auto split: sum.splits)
    qed
  qed
  then show "ch (fst st) @ concat (map accepted_of os) = concat (map taken_of os) @ ch (fst st')"
    and "length (ch (fst st)) \<le> buffer (fst st) \<Longrightarrow> length (ch (fst st')) \<le> buffer (fst st')"
    and "buffer (fst st') = buffer (fst st)" and "concat (map offered_of os) = submitted_of x" by auto
qed

lemma sink_run_queue:
  assumes "run_steps sink_step xs st = (os, st')" and "length (ch (fst st)) \<le> buffer (fst st)"
  shows "ch (fst st) @ concat (map accepted_of os) = concat (map taken_of os) @ ch (fst st') \<and>
    length (ch (fst st')) \<le> buffer (fst st) \<and> concat (map offered_of os) = concat (map submitted_of xs)"
  using assms
proof (induction xs arbitrary: st os)
  case (Cons x xs)
  obtain o1 s1 where s: "sink_step x st = (o1, s1)" by (metis prod.collapse)
  obtain o2 where r: "run_steps sink_step xs s1 = (o2, st')" and os: "os = o1 @ o2"
    using Cons.prems(1) s by (auto split: prod.splits)
  note q = sink_step_queue [OF s]
  from Cons.IH [OF r q(2) [OF Cons.prems(2)]] q show ?case
    by (simp add: os) (metis append.assoc)
qed simp

text \<open>C26: The sink is a bounded first-in first-out buffer that never blocks. However submissions and the
  worker interleave, every submitted event is either accepted or dropped, at once; what the worker has
  processed and what still waits are together exactly the accepted events, in the order of their
  submission; and at most 4096 wait.\<close>

theorem sink_fifo:
  assumes "run_steps sink_step xs (newEventSink 4096, d) = (os, s, d')"
  shows "concat (map accepted_of os) = concat (map taken_of os) @ ch s \<and> length (ch s) \<le> 4096 \<and>
    concat (map offered_of os) = concat (map submitted_of xs)"
  using sink_run_queue [OF assms] by (simp add: newEventSink_def)

definition sink_sample :: "string \<Rightarrow> event" where
  "sink_sample x = \<lparr>ev_ID = 0, ev_Timestamp = 0, ev_TxID = ''t'', ev_Domain = x, ev_ClientIP = ''10.0.0.1'',
     ev_Method = ''GET'', ev_URI = ''/'', ev_Blocked = True, ev_StatusCode = 403, ev_RuleID = 942100, ev_Message = ''SQLi'',
     ev_Severity = 2, ev_AnomalyScore = 5, ev_MatchedRules = [942100]\<rparr>"

theorem sink_fifo_witness:
  "ch (fst (snd (run_steps sink_step [Submitted (sink_sample ''a''), Submitted (sink_sample ''b'')] (newEventSink 4096, empty_db)))) =
     [sink_sample ''a'', sink_sample ''b'']"
proof -
  let ?run = "run_steps sink_step [Submitted (sink_sample ''a''), Submitted (sink_sample ''b'')] (newEventSink 4096, empty_db)"
  have "?run = (fst ?run, fst (snd ?run), snd (snd ?run))" by simp
  from sink_fifo [OF this] show ?thesis by (simp add: newEventSink_def Submit_def)
qed

definition int64_event :: "event \<Rightarrow> bool" where
  "int64_event e \<longleftrightarrow> (\<forall>x \<in> set (ev_MatchedRules e). min_int64 \<le> x \<and> x \<le> max_int64)"

lemma sink_step_store:
  assumes "sink_step x st = (os, st')" and "\<forall>e \<in> set (ch (fst st)). int64_event e" and "\<forall>e \<in> set (submitted_of x). int64_event e"
  shows "map scan_event (events (snd st')) = map scan_event (events (snd st)) @ concat (map stored_of os)"
    and "\<forall>e \<in> set (ch (fst st')). int64_event e"
proof -
  have "map scan_event (events (snd st')) = map scan_event (events (snd st)) @ concat (map stored_of os) \<and>
    (\<forall>e \<in> set (ch (fst st')). int64_event e)"
  proof (cases x)
    case (Submitted e)
    with assms show ?thesis by (auto simp: Submit_def split: if_splits)
  next
    case Worked
    show ?thesis
    proof (cases rule: run_once_cases [of st])
      case idle
      with assms Worked show ?thesis by simp
    next
      case (work e s res d)
      have q: "ch (fst st) = e # ch s" by (rule sink.get_some [OF work(1)])
      then have in64: "\<forall>x \<in> set (ev_MatchedRules e). min_int64 \<le> x \<and> x \<le> max_int64"
        using assms(2) by (simp add: int64_event_def)
      show ?thesis
      proof (cases res)
        case (Inl err)
        then have "events d = events (snd st)"
          using work(2) by (auto simp: InsertEvent_def Let_def elim!: stmt_cases split: if_splits)
        with work Inl assms Worked q show ?thesis by auto
      next
        case (Inr e')
        with scan_inserted [OF in64] work(2) have "map scan_event (events d) = map scan_event (events (snd st)) @ [e']" by simp
        with work Inr assms Worked q show ?thesis by auto
      qed
    qed
  qed
  then show "map scan_event (events (snd st')) = map scan_event (events (snd st)) @ concat (map stored_of os)"
    and "\<forall>e \<in> set (ch (fst st')). int64_event e" by auto
qed

text \<open>What the worker stores is what the log shows. Whatever fails meanwhile, the stored events are
  those that were there, followed by the ones the worker managed to insert, in that order, and each
  reads back as it was inserted; no failed insert leaves anything behind.\<close>

lemma sink_run_store:
  assumes "run_steps sink_step xs st = (os, st')" and "\<forall>e \<in> set (ch (fst st)). int64_event e"
    and "\<forall>e \<in> set (concat (map submitted_of xs)). int64_event e"
  shows "map scan_event (events (snd st')) = map scan_event (events (snd st)) @ concat (map stored_of os)"
  using assms
proof (induction xs arbitrary: st os)
  case (Cons x xs)
  obtain o1 s1 where s: "sink_step x st = (o1, s1)" by (metis prod.collapse)
  obtain o2 where r: "run_steps sink_step xs s1 = (o2, st')" and os: "os = o1 @ o2"
    using Cons.prems(1) s by (auto split: prod.splits)
  have "\<forall>e \<in> set (submitted_of x). int64_event e" "\<forall>e \<in> set (concat (map submitted_of xs)). int64_event e"
    using Cons.prems(3) by auto
  note q = sink_step_store [OF s Cons.prems(2) this(1)] and rest = this(2)
  from Cons.IH [OF r q(2) rest] q(1) show ?case by (simp add: os)
qed simp

section \<open>Properties of the client address\<close>

text \<open>Without trust in a forwarded header, no header a client sends changes the key its requests are
  counted under: it is the address of the TCP peer alone.\<close>

lemma untrusted_headers_ignored:
  assumes "\<not> cfg_TrustForwardedHeader cfg \<or> cfg_ForwardedHeader cfg = []"
  shows "clientIPFunc cfg (r\<lparr>r_Header := h\<rparr>) = clientIPFunc cfg r \<and>
    clientIPFunc cfg r = (case SplitHostPort (r_RemoteAddr r) of None \<Rightarrow> r_RemoteAddr r | Some (host, _) \<Rightarrow> host)"
  using assms by (auto simp: clientIPFunc_def Let_def split: option.splits)

lemma untrusted_headers_ignored_witness:
  "clientIPFunc (cfg_RateLimit Default) (plain_request\<lparr>r_Header := [(''X-Forwarded-For'', [''1.2.3.4''])]\<rparr>) = ''10.0.0.1''"
  using untrusted_headers_ignored [where cfg = "cfg_RateLimit Default" and r = plain_request
      and h = "[(''X-Forwarded-For'', [''1.2.3.4''])]"]
    SplitHostPort_plain [of "''10.0.0.1''" "''5000''"]
  by (simp add: Default_def plain_request_def)

text \<open>Behind a proxy that appends to the forwarded header, the client chooses its own key. With trust
  in the header, the key is what stands before the first comma, that is what the client sent, whatever
  the trusted proxies have added after it.\<close>

lemma forwarded_prefix_chosen_by_client:
  assumes "cfg_TrustForwardedHeader cfg" and "cfg_ForwardedHeader cfg \<noteq> []"
    and "Header_Get r (cfg_ForwardedHeader cfg) = sent @ CHR '','' # appended" and "CHR '','' \<notin> set sent"
  shows "clientIPFunc cfg r = TrimSpace sent"
proof -
  have "before_byte (sent @ CHR '','' # appended) CHR '','' = sent"
    using assms(4) by (simp add: before_byte_def IndexByte_append_hit)
  with assms show ?thesis by (simp add: clientIPFunc_def Let_def)
qed

lemma canonical_xff: "CanonicalHeaderKey ''X-Forwarded-For'' = ''X-Forwarded-For''"
  by code_simp

lemma forwarded_prefix_chosen_by_client_witness:
  "clientIPFunc ((cfg_RateLimit Default)\<lparr>cfg_TrustForwardedHeader := True\<rparr>)
     (plain_request\<lparr>r_Header := [(''X-Forwarded-For'', [''x, 203.0.113.9''])]\<rparr>) = ''x''"
  by (subst forwarded_prefix_chosen_by_client [where sent = "''x''" and appended = "'' 203.0.113.9''"])
    (simp_all add: Default_def Header_Get_def canonical_xff Values_Get_def TrimSpace_graphic graphic_def)

section \<open>Properties of the start-up\<close>

text \<open>Every listener is protected against slow clients, and TLS is served when it is configured. There
  is one admin listener and one plaintext listener, and a TLS listener exactly when an address is
  given for it; each allows ten seconds for the headers and two minutes of idling. Only the admin
  listener bounds whole requests and responses; the proxy leaves streams alone.\<close>

lemma listeners_hardened:
  "list_all (\<lambda>h. hs_ReadHeaderTimeout h = 10 * second \<and> hs_IdleTimeout h = 120 * second) (startServers cfg) \<and>
   map hs_Handler (startServers cfg) = [AdminAPI, ProxyPlain] @ (if cfg_HTTPSAddr (cfg_Proxy cfg) = [] then [] else [ProxyTLS]) \<and>
   list_all (\<lambda>h. if hs_Handler h = AdminAPI then hs_ReadTimeout h = 30 * second \<and> hs_WriteTimeout h = 60 * second
                 else hs_ReadTimeout h = 0 \<and> hs_WriteTimeout h = 0) (startServers cfg)"
  by (simp add: startServers_def setProxyTimeouts_def bare_server_def Let_def)

lemma main_start_steps:
  assumes "main_start unmarshal rd failed fs f newWAF uni load gen rs rp envPassword embedded = Inr run"
    and "fst (Open failed fs f) = Inr d"
  obtains cfg a au d' where "Load unmarshal rd = (cfg, None)"
    "portal_reload newWAF uni load \<lparr>p_store = d, p_waf = NewManager, p_proxy = New_Proxy\<rparr> = (Inr (), a)"
    "New gen rs rp (cfg_Username (cfg_Admin cfg)) (if envPassword \<noteq> [] then envPassword else cfg_Password (cfg_Admin cfg)) (p_store a) =
       (Inr au, d')"
    "run_auth run = au" "p_waf (run_portal run) = p_waf a" "p_proxy (run_portal run) = p_proxy a"
    "p_store (run_portal run) = (if GeneratedPassword au \<noteq> [] then snd (Username d') else d')"
    "run_announced run = (if GeneratedPassword au \<noteq> [] then Some (fst (Username d'), GeneratedPassword au) else None)"
  using assms unfolding main_start_def Let_def
  by (auto split: prod.splits sum.splits option.splits if_splits)

text \<open>C20: A portal that starts is ready. When start-up succeeds on a database whose driver does not fail,
  the engines and the routing are those of the stored rules and sites, and the administrator can log
  in with the password of the environment variable, or else of the configuration, or else with the one
  that was generated and announced together with the account's name.\<close>

theorem start_ready:
  assumes "main_start unmarshal rd failed fs f newWAF uni load gen rs rp envPassword embedded = Inr run"
    and "fst (Open failed fs f) = Inr d"
    and "faults d = []" and "rs \<noteq> Inr []" and "\<forall>p h. gen p = Inr h \<longrightarrow> cmp h p"
    and "Load unmarshal rd = (cfg, None)"
    and "pw = (if envPassword \<noteq> [] then envPassword else cfg_Password (cfg_Admin cfg))"
  shows "in_sync newWAF uni load d (run_portal run) \<and>
    (pw \<noteq> [] \<longrightarrow> fst (Check cmp (stored_username (p_store (run_portal run))) pw (p_store (run_portal run)))) \<and>
    (pw = [] \<and> settings d keyHash = None \<longrightarrow>
       fst (Check cmp (stored_username (p_store (run_portal run))) (GeneratedPassword (run_auth run)) (p_store (run_portal run)))) \<and>
    (GeneratedPassword (run_auth run) \<noteq> [] \<longrightarrow>
       run_announced run = Some (stored_username (p_store (run_portal run)), GeneratedPassword (run_auth run)))"
proof (rule main_start_steps [OF assms(1,2)], goal_cases)
  case (1 cfg' a au d')
  have c: "cfg' = cfg" using 1(1) assms(6) by simp
  have a: "p_store a = d" "in_sync newWAF uni load d a"
    using portal_reload_atomic_facts(1,3) [OF _ 1(2)] assms(3) by simp_all
  have f: "faults d = []" by (rule assms(3))
  have new: "New gen rs rp (cfg_Username (cfg_Admin cfg)) pw d = (Inr au, d')" using 1(3) unfolding c a(1) assms(7) .
  have d': "faults d' = []" using New_secret [OF f new assms(4)] by blast
  then have store: "p_store (run_portal run) = d'" using 1(7) by (simp add: Username_sound)
  have sync: "in_sync newWAF uni load d (run_portal run)" using a(2) 1(5,6) by (simp add: in_sync_def)
  have hash: "(pw \<noteq> [] \<longrightarrow> fst (Check cmp (stored_username d') pw d')) \<and>
      (pw = [] \<and> settings d keyHash = None \<longrightarrow> fst (Check cmp (stored_username d') (GeneratedPassword au) d'))"
    using New_login [OF f new assms(4,5)] by blast
  show ?case using sync hash 1(4,8) d' by (simp add: store Username_sound)
qed

text \<open>C38: A stored rule that does not compile keeps the portal from starting: if the enabled directives in
  the database do not compile, start-up ends with an error whatever the configuration, so no restart
  brings the portal back until the rule is repaired in the database.\<close>

theorem bad_rule_blocks_start:
  fixes outcome :: "fatal + ('waf, 'cert, 'lim) running"
  assumes "fst (Open failed fs f) = Inr d" and "faults d = []" and "\<not> compiles newWAF (stored_directives d)"
    and "outcome = main_start unmarshal rd failed fs f newWAF uni load gen rs rp envPassword embedded"
  shows "\<exists>e. outcome = Inl e"
proof (cases outcome)
  case (Inr run)
  with assms(1,4) obtain a where "portal_reload newWAF uni load \<lparr>p_store = d, p_waf = NewManager, p_proxy = New_Proxy\<rparr> = (Inr (), a)"
    by (metis main_start_steps)
  then show ?thesis
    using portal_reload_ok_iff [of "\<lparr>p_store = d, p_waf = NewManager, p_proxy = New_Proxy\<rparr>" newWAF uni load] assms by simp
qed simp

text \<open>A start on the file a closed database has left.\<close>

definition sample_start :: "db \<Rightarrow> fatal + (string, string, int \<times> go_time) running" where
  "sample_start d = main_start burst_yaml FileMissing None [] (Close d) text_waf (\<lambda>s. s) (\<lambda>_ _. None) mark_gen (Inr ''k'')
     (Inr ''rnd'') ''hunter22'' (\<lambda>name. name = ''dist/index.html'')"

lemma Dist_ok: "Dist embedded = Inr (\<lambda>name. ValidPath name \<and> embedded (if name = ''.'' then ''dist'' else ''dist/'' @ name))"
  by (simp add: Dist_def fs_Sub_def ValidPath_def split_on.simps)

lemma sample_start_ok: "\<exists>run. sample_start empty_db = Inr run"
proof -
  have f: "faults (p_store fresh_portal) = []" by (rule fresh_faults)
  obtain res a where r: "portal_reload text_waf (\<lambda>s. s) (\<lambda>_ _. None) fresh_portal = (res, a)" by fastforce
  have "compiles text_waf (stored_directives (p_store fresh_portal))"
    using compiles_none by (simp add: fresh_portal_def empty_db_def stored_directives_def)
  with portal_reload_atomic_facts(1,2) [OF f r] have ok: "res = Inr ()" "p_store a = empty_db"
    by (simp_all add: fresh_portal_def)
  have "\<exists>au d'. New mark_gen (Inr ''k'') (Inr ''rnd'') [] ''hunter22'' empty_db = (Inr au, d')"
    by (simp add: New_def loadOrCreateSecret_def chooseUsername_def Let_def GetSetting_def SetSetting_def setPassword_def
        mark_gen_def empty_db_def)
  moreover have "fst (Open None [] (Close empty_db)) = Inr empty_db" by (simp add: empty_db_def)
  ultimately show ?thesis using r ok
    by (auto simp: sample_start_def main_start_def Load_def Let_def Default_def fresh_portal_def Dist_ok split: prod.splits)
qed

theorem start_ready_witness:
  "\<exists>run. sample_start empty_db = Inr run \<and>
     fst (Check mark_cmp (stored_username (p_store (run_portal run))) ''hunter22'' (p_store (run_portal run)))"
proof -
  obtain run where run: "sample_start empty_db = Inr run" using sample_start_ok by blast
  have "faults empty_db = []" by (simp add: empty_db_def)
  moreover have "Load burst_yaml FileMissing = (Default, None)" by (simp add: Load_def)
  ultimately show ?thesis
    using start_ready [OF run [unfolded sample_start_def] Open_Close _ _ mark_bcrypt _ refl] run by simp
qed

theorem bad_rule_blocks_start_witness:
  "\<exists>e. sample_start (empty_db\<lparr>rules := [bad_rule]\<rparr>) = Inl e"
  by (rule bad_rule_blocks_start [OF Open_Close _ _ sample_start_def])
    (use bad_not_compiles in \<open>simp_all add: empty_db_def stored_directives_def bad_rule_def\<close>)

end
