(* ===== verification/Portal_Traffic.thy ===== *)
theory Portal_Traffic
  imports Portal_Main
begin

text \<open>
  The rate limit as the clients of a portal see it: sequences of requests to the proxy
  (\<open>ServeHTTP\<close> of \<^verbatim>\<open>internal/proxy\<close>) and ticks of the limiter's cleanup (\<^verbatim>\<open>internal/ratelimit\<close>), with the key
  that \<open>clientIPFunc\<close> of \<^verbatim>\<open>cmd/wafportal/main.go\<close> chooses. The routing table may be another one at every
  request.
\<close>

datatype ('waf, 'cert) traffic =
  Arrive "('waf, 'cert) proxy" "go_time \<times> go_time \<times> go_time" http_request writer
| Cleanup go_time

text \<open>The answer to each request, under the key it was counted for, and the limiter left behind.\<close>

fun traffic_step ::
  "('waf, 'tx, 'lim) proxy_env \<Rightarrow> ((string \<times> client) list \<Rightarrow> (string \<times> client) list) \<Rightarrow> ('waf, 'cert) traffic
   \<Rightarrow> 'lim limiter \<Rightarrow> (string \<times> 'lim served) list \<times> 'lim limiter" where
  "traffic_step env v (Arrive p clk r w) l =
     (let out = ServeHTTP env p clk (Some l) r w
      in ([(env_clientIP env r, out\<lparr>sv_limiter := None\<rparr>)], case sv_limiter out of None \<Rightarrow> l | Some l' \<Rightarrow> l'))"
| "traffic_step env v (Cleanup now) l = ([], cleanup_tick v now l)"

section \<open>The specification\<close>

fun limiter_view :: "('waf, 'tx, 'lim) proxy_env \<Rightarrow> ('waf, 'cert) traffic \<Rightarrow> limiter_event" where
  "limiter_view env (Arrive p (seen, taken, now) r w) = Request (env_clientIP env r) seen taken"
| "limiter_view env (Cleanup now) = Tick now"

text \<open>The TCP peer of a request.\<close>

definition peer_host :: "http_request \<Rightarrow> string" where
  "peer_host r = (case SplitHostPort (r_RemoteAddr r) of None \<Rightarrow> r_RemoteAddr r | Some (host, _) \<Rightarrow> host)"

fun arrivals ::
  "(http_request \<Rightarrow> string) \<Rightarrow> string \<Rightarrow> ('waf, 'cert) traffic list
   \<Rightarrow> (('waf, 'cert) proxy \<times> (go_time \<times> go_time \<times> go_time) \<times> http_request \<times> writer) list" where
  "arrivals k key [] = []"
| "arrivals k key (Arrive p clk r w # es) = (if k r = key then [(p, clk, r, w)] else []) @ arrivals k key es"
| "arrivals k key (Cleanup now # es) = arrivals k key es"

text \<open>What a request gets: the refusal, or exactly what a proxy without a limiter answers.\<close>

definition refusal :: "writer \<Rightarrow> 'lim served" where
  "refusal w = answered (Http_Error ''rate limit exceeded'' StatusTooManyRequests (Header_Set ''Retry-After'' ''1'' w)) None"

definition answer_for ::
  "('waf, 'tx, 'lim) proxy_env \<Rightarrow> bool \<Rightarrow> ('waf, 'cert) proxy \<times> (go_time \<times> go_time \<times> go_time) \<times> http_request \<times> writer
   \<Rightarrow> 'lim served" where
  "answer_for env ok x = (case x of (p, clk, r, w) \<Rightarrow> if ok then ServeHTTP env p clk None r w else refusal w)"

section \<open>Facts\<close>

lemma serve_handler_limiter:
  "(serve_handler env h lim now r w)\<lparr>sv_limiter := None\<rparr> = serve_handler env h None now r w"
  "sv_limiter (serve_handler env h lim now r w) = lim"
  by (cases h; simp add: Let_def split: prod.splits)+

lemma ServeHTTP_limited:
  assumes "Allow (env_newBucket env) (env_allow env) (env_clientIP env r) seen taken l = (ok, l')"
  shows "(ServeHTTP env p (seen, taken, now) (Some l) r w)\<lparr>sv_limiter := None\<rparr> = answer_for env ok (p, (seen, taken, now), r, w)"
    and "sv_limiter (ServeHTTP env p (seen, taken, now) (Some l) r w) = Some l'"
proof -
  have "(ServeHTTP env p (seen, taken, now) (Some l) r w)\<lparr>sv_limiter := None\<rparr> = answer_for env ok (p, (seen, taken, now), r, w) \<and>
    sv_limiter (ServeHTTP env p (seen, taken, now) (Some l) r w) = Some l'"
    using assms by (cases ok)
      (auto simp: ServeHTTP_def limiter_check_def answer_for_def refusal_def answered_def serve_handler_limiter split: option.splits)
  then show "(ServeHTTP env p (seen, taken, now) (Some l) r w)\<lparr>sv_limiter := None\<rparr> = answer_for env ok (p, (seen, taken, now), r, w)"
    and "sv_limiter (ServeHTTP env p (seen, taken, now) (Some l) r w) = Some l'" by blast+
qed

text \<open>The answers of a run are those the limiter alone would decide on.\<close>

lemma traffic_run:
  "outputs_for key (fst (run_steps (traffic_step env v) es l)) =
     map2 (answer_for env)
       (outputs_for key (fst (run_steps (limiter_step (env_newBucket env) (env_allow env) v) (map (limiter_view env) es) l)))
       (arrivals (env_clientIP env) key es)"
proof (induction es arbitrary: l)
  case (Cons e es)
  show ?case
  proof (cases e)
    case (Arrive p clk r w)
    obtain seen taken now where clk: "clk = (seen, taken, now)" by (cases clk) auto
    obtain ok l' where al: "Allow (env_newBucket env) (env_allow env) (env_clientIP env r) seen taken l = (ok, l')" by fastforce
    note s = ServeHTTP_limited [OF al, of p now w]
    show ?thesis using Cons.IH [of l'] s al by (auto simp: Arrive clk Let_def split: prod.splits)
  next
    case (Cleanup now)
    with Cons.IH [of "cleanup_tick v now l"] show ?thesis by (simp split: prod.splits)
  qed
qed simp

lemma taken_arrivals:
  "taken_by key (map (limiter_view env) es) =
     map (\<lambda>(p, (seen, taken, now), r, w). taken) (arrivals (env_clientIP env) key es)"
proof (induction es)
  case (Cons e es)
  then show ?case by (cases e) (auto split: prod.splits)
qed simp

section \<open>Properties\<close>

text \<open>C15: Every TCP peer is limited by a token bucket of its own and by nothing else. When forwarded headers
  are not trusted, and a bucket that was left alone for its filling time is as good as new and that time
  fits into the cleanup interval, then whatever headers the requests carry, whatever other peers send,
  whenever the cleanup runs and however the routing changes, the requests of a peer are decided by one
  bucket of the configured rate and burst that starts full and is never evicted: those it refuses get
  429 with Retry-After and no handler, all others get exactly what the proxy answers without a limiter.\<close>

theorem peer_rate_limit:
  assumes "visits v" and "env_clientIP env = clientIPFunc cfg"
    and "\<not> cfg_TrustForwardedHeader cfg \<or> cfg_ForwardedHeader cfg = []"
    and "refills (env_allow env) (env_newBucket env limit bst) full" and "full + skew \<le> 10 * minute"
    and "timed skew 0 (map (limiter_view env) es)"
  shows "outputs_for peer (fst (run_steps (traffic_step env v) es (New_Limiter limit bst))) =
    map2 (answer_for env)
      (bucket_run (env_allow env) (env_newBucket env limit bst) (map (\<lambda>(p, (seen, taken, now), r, w). taken) (arrivals peer_host peer es)))
      (arrivals peer_host peer es)"
proof -
  have key: "env_clientIP env = peer_host"
    using assms(2,3) untrusted_headers_ignored by (fastforce simp: peer_host_def fun_eq_iff)
  show ?thesis
    using eviction_invisible [where allow = "env_allow env" and new = "env_newBucket env", OF assms(1,4,5,6), of peer]
    by (simp add: traffic_run taken_arrivals key)
qed

text \<open>A peer that sends three requests at once, each with another forged address, to a portal with a burst of
  two: the third is refused.\<close>

definition strict_env :: "(string, toy_tx, int \<times> go_time) proxy_env" where
  "strict_env = sample_env\<lparr>env_clientIP := clientIPFunc (cfg_RateLimit Default)\<rparr>"

definition forged :: "string \<Rightarrow> (string, string) traffic" where
  "forged x = Arrive New_Proxy (0, 0, 0) (plain_request\<lparr>r_Header := [(''X-Forwarded-For'', [x])]\<rparr>) new_writer"

lemma peer_host_plain: "peer_host (plain_request\<lparr>r_Header := h\<rparr>) = ''10.0.0.1''"
  using SplitHostPort_plain [of "''10.0.0.1''" "''5000''"] by (simp add: peer_host_def plain_request_def)

theorem peer_rate_limit_witness:
  "map (\<lambda>out. final_status (sv_writer out)) (outputs_for ''10.0.0.1''
     (fst (run_steps (traffic_step strict_env rev) [forged ''1.1.1.1'', forged ''2.2.2.2'', forged ''3.3.3.3''] (New_Limiter 1 2)))) =
   [404, 404, 429]"
proof -
  have "env_clientIP strict_env = clientIPFunc (cfg_RateLimit Default)" "env_allow strict_env = toy_allow second 2"
    "env_newBucket strict_env = toy_new" "env_uni strict_env = (\<lambda>s. s)" by (simp_all add: strict_env_def sample_env_def)
  note env = this
  have st: "final_status (sv_writer (answer_for strict_env ok (New_Proxy, (0, 0, 0), r, new_writer))) = (if ok then 404 else 429)" for ok r
    by (simp add: answer_for_def ServeHTTP_def limiter_check_def handlerFor_def New_Proxy_def answered_def refusal_def new_writer_def http_defs)
  show ?thesis
    by (subst peer_rate_limit [OF visits_rev env(1), where full = "2 * second" and skew = 0])
      (use toy_refills in \<open>simp_all add: env st forged_def peer_host_plain Default_def toy_new_def Let_def\<close>)
qed

end
