(* ===== verification/Control_Routes.thy ===== *)
theory Control_Routes
  imports Control_Props
begin

text \<open>
  The handler of the admin listener as a whole (\<open>Handler\<close> of \<^verbatim>\<open>internal/api/api.go\<close>): the routes in the order
  they are registered, which of them stand behind the session middleware, the bodies they decode, and the
  single-page app behind everything else. How the chi router picks a route is a parameter; what is
  needed of it is that it picks a registered one of the request's method. The decoder of JSON text is a
  parameter too, one function per struct the handlers decode into.
\<close>

section \<open>Routes\<close>

type_synonym params = "(string \<times> string) list"

record json_decoder =
  dec_credentials :: "string \<Rightarrow> string + (string \<times> string)"
  dec_passwords :: "string \<Rightarrow> string + (string \<times> string)"
  dec_site :: "string \<Rightarrow> string + site"
  dec_rule :: "string \<Rightarrow> string + custom_rule"

text \<open>The path parameter \<open>{id}\<close>, empty when the route has none.\<close>

definition URLParam :: "params \<Rightarrow> string \<Rightarrow> string" where
  "URLParam ps k = (case map_of ps k of None \<Rightarrow> [] | Some v \<Rightarrow> v)"

text \<open>What a route leads to: a handler of the interface, behind \<open>auth.Middleware\<close> or not, or the app.\<close>

datatype target = Api bool "json_decoder \<Rightarrow> params \<Rightarrow> string \<Rightarrow> endpoint" | App

type_synonym route = "string option \<times> string \<times> target"

definition public_routes :: "route list" where
  "public_routes =
     [(Some ''GET'', ''/api/health'', Api False (\<lambda>dec ps b. EpHealth)),
      (Some ''POST'', ''/api/login'', Api False (\<lambda>dec ps b. EpLogin (dec_credentials dec b))),
      (Some ''POST'', ''/api/logout'', Api False (\<lambda>dec ps b. EpLogout))]"

definition session_routes :: "route list" where
  "session_routes =
     [(Some ''GET'', ''/api/me'', Api True (\<lambda>dec ps b. EpMe)),
      (Some ''POST'', ''/api/account/password'', Api True (\<lambda>dec ps b. EpPassword (dec_passwords dec b))),
      (Some ''GET'', ''/api/sites'', Api True (\<lambda>dec ps b. EpListSites)),
      (Some ''POST'', ''/api/sites'', Api True (\<lambda>dec ps b. EpCreateSite (dec_site dec b))),
      (Some ''GET'', ''/api/sites/{id}'', Api True (\<lambda>dec ps b. EpGetSite (URLParam ps ''id''))),
      (Some ''PUT'', ''/api/sites/{id}'', Api True (\<lambda>dec ps b. EpUpdateSite (URLParam ps ''id'') (dec_site dec b))),
      (Some ''DELETE'', ''/api/sites/{id}'', Api True (\<lambda>dec ps b. EpDeleteSite (URLParam ps ''id''))),
      (Some ''GET'', ''/api/rules'', Api True (\<lambda>dec ps b. EpListRules)),
      (Some ''POST'', ''/api/rules'', Api True (\<lambda>dec ps b. EpCreateRule (dec_rule dec b))),
      (Some ''GET'', ''/api/rules/{id}'', Api True (\<lambda>dec ps b. EpGetRule (URLParam ps ''id''))),
      (Some ''PUT'', ''/api/rules/{id}'', Api True (\<lambda>dec ps b. EpUpdateRule (URLParam ps ''id'') (dec_rule dec b))),
      (Some ''DELETE'', ''/api/rules/{id}'', Api True (\<lambda>dec ps b. EpDeleteRule (URLParam ps ''id''))),
      (Some ''GET'', ''/api/events'', Api True (\<lambda>dec ps b. EpListEvents)),
      (Some ''GET'', ''/api/stats'', Api True (\<lambda>dec ps b. EpStats))]"

definition routes :: "('waf, 'cert) server \<Rightarrow> route list" where
  "routes s = public_routes @ session_routes @ (if srv_spa s = None then [] else [(None, ''/*'', App)])"

section \<open>Serving\<close>

text \<open>The router's verdict on a request.\<close>

datatype dispatch = Matched route params | NoRoute | WrongMethod

text \<open>An answer of a handler, of the file server asked for a path, of the router itself, or what \<open>Recoverer\<close>
  makes of a panic.\<close>

datatype answer = Answer response | FileServer string | RouterStatus int | Recovered

definition serve_target ::
  "json_decoder \<Rightarrow> ('waf, 'cert) server \<Rightarrow> go_time \<Rightarrow> target \<Rightarrow> params \<Rightarrow> http_request \<Rightarrow> ('waf, 'cert) portal
   \<Rightarrow> answer \<times> ('waf, 'cert) portal" where
  "serve_target dec s now t ps r a =
     (case t of
        Api guarded mk \<Rightarrow>
          (let h = serve_endpoint s now (mk dec ps (case r_Body r of None \<Rightarrow> [] | Some b \<Rightarrow> b));
               (resp, a) = (if guarded then Middleware (srv_auth s) now h r a else h r a)
           in (Answer resp, a))
      | App \<Rightarrow>
          (case srv_spa s of
             None \<Rightarrow> (RouterStatus StatusNotFound, a)
           | Some stat \<Rightarrow> (case SPAHandler stat (r_Path r) of
                            None \<Rightarrow> (Recovered, a)
                          | Some path \<Rightarrow> (FileServer path, a))))"

definition root_handler ::
  "(route list \<Rightarrow> http_request \<Rightarrow> dispatch) \<Rightarrow> json_decoder \<Rightarrow> ('waf, 'cert) server \<Rightarrow> go_time \<Rightarrow> http_request
   \<Rightarrow> ('waf, 'cert) portal \<Rightarrow> answer \<times> ('waf, 'cert) portal" where
  "root_handler chi dec s now r a =
     (case chi (routes s) r of
        NoRoute \<Rightarrow> (RouterStatus StatusNotFound, a)
      | WrongMethod \<Rightarrow> (RouterStatus 405, a)
      | Matched (_, _, t) ps \<Rightarrow> serve_target dec s now t ps r a)"

text \<open>What is relied on of the router.\<close>

definition dispatches :: "(route list \<Rightarrow> http_request \<Rightarrow> dispatch) \<Rightarrow> bool" where
  "dispatches chi \<longleftrightarrow> (\<forall>rs r rt ps. chi rs r = Matched rt ps \<longrightarrow> rt \<in> set rs \<and> (fst rt = None \<or> fst rt = Some (r_Method r)))"

section \<open>The routes and the endpoints\<close>

text \<open>Facts about every registered route: the middleware stands before exactly the endpoints that are not
  public, and only the reading endpoints are registered for methods other than \<open>POST\<close>, \<open>PUT\<close> and \<open>DELETE\<close>.\<close>

fun reads_only :: "endpoint \<Rightarrow> bool" where
  "reads_only EpHealth \<longleftrightarrow> True"
| "reads_only EpMe \<longleftrightarrow> True"
| "reads_only EpListSites \<longleftrightarrow> True"
| "reads_only (EpGetSite _) \<longleftrightarrow> True"
| "reads_only EpListRules \<longleftrightarrow> True"
| "reads_only (EpGetRule _) \<longleftrightarrow> True"
| "reads_only EpListEvents \<longleftrightarrow> True"
| "reads_only EpStats \<longleftrightarrow> True"
| "reads_only _ \<longleftrightarrow> False"

definition write_methods :: "string list" where
  "write_methods = [''POST'', ''PUT'', ''DELETE'']"

fun route_sound :: "route \<Rightarrow> bool" where
  "route_sound (m, p, Api guarded mk) \<longleftrightarrow> m \<noteq> None \<and>
     (\<forall>dec ps b. (guarded \<longleftrightarrow> \<not> public (mk dec ps b)) \<and> (the m \<in> set write_methods \<or> reads_only (mk dec ps b)) \<and>
        (the m = ''POST'' \<or> (\<forall>x. mk dec ps b \<noteq> EpLogin x)))"
| "route_sound (m, p, App) \<longleftrightarrow> False"

lemma routes_sound: "list_all route_sound (public_routes @ session_routes)"
  by (simp add: public_routes_def session_routes_def write_methods_def)

lemma registered_sound: "(m, p, Api guarded mk) \<in> set (routes s) \<Longrightarrow> route_sound (m, p, Api guarded mk)"
  using routes_sound by (simp add: routes_def list_all_iff ball_Un del: route_sound.simps split: if_splits) blast+

text \<open>So a request is either answered without touching the portal, or served as the endpoint of a route.\<close>

definition route_endpoint :: "http_request \<Rightarrow> endpoint \<Rightarrow> bool" where
  "route_endpoint r ep \<longleftrightarrow> (r_Method r \<in> set write_methods \<or> reads_only ep) \<and>
     (r_Method r = ''POST'' \<or> (\<forall>x. ep \<noteq> EpLogin x))"

lemma root_handler_cases:
  assumes "dispatches chi"
  obtains (quiet) "snd (root_handler chi dec s now r a) = a" "\<And>resp. fst (root_handler chi dec s now r a) \<noteq> Answer resp"
  | (api) ep where "route_endpoint r ep" "root_handler chi dec s now r a = map_prod Answer id (Handler s now ep r a)"
proof (cases "chi (routes s) r")
  case (Matched rt ps)
  obtain m p t where rt: "rt = (m, p, t)" by (cases rt)
  have mem: "(m, p, t) \<in> set (routes s)" and m: "m = None \<or> m = Some (r_Method r)"
    using assms Matched rt unfolding dispatches_def by fastforce+
  show thesis
  proof (cases t)
    case (Api guarded mk)
    let ?ep = "mk dec ps (case r_Body r of None \<Rightarrow> [] | Some b \<Rightarrow> b)"
    from mem Api have sound: "route_sound (m, p, Api guarded mk)" by (simp add: registered_sound del: route_sound.simps)
    with m have m: "m = Some (r_Method r)" by auto
    from sound have "guarded \<longleftrightarrow> \<not> public ?ep" "route_endpoint r ?ep"
      unfolding route_sound.simps m option.sel route_endpoint_def by blast+
    with Matched rt Api show thesis
      by (intro api [of ?ep]) (auto simp: root_handler_def serve_target_def Handler_def Let_def split: prod.splits)
  next
    case App
    with Matched rt show thesis
      by (intro quiet) (auto simp: root_handler_def serve_target_def split: option.splits)
  qed
qed (use quiet in \<open>auto simp: root_handler_def\<close>)

lemma root_handler_moves:
  assumes "dispatches chi" and "portal_server newWAF uni load s"
  shows "portal_moves newWAF uni load a (snd (root_handler chi dec s now r a))"
  by (rule root_handler_cases [OF assms(1), of dec s now r a]) (simp_all add: Handler_moves [OF assms(2)])

section \<open>Requests that change nothing\<close>

definition untouched :: "('waf, 'cert) portal \<Rightarrow> ('waf, 'cert) portal \<Rightarrow> bool" where
  "untouched a a' \<longleftrightarrow> same_data (p_store a) (p_store a') \<and> p_waf a' = p_waf a \<and> p_proxy a' = p_proxy a"

lemma untouched_refl [simp]: "untouched a a"
  by (simp add: untouched_def)

lemma query_untouched:
  assumes "\<And>d. same_data d (snd (f d))" and "with_store f a = (res, a')"
  shows "untouched a a'"
  using assms(1) [of "p_store a"] with_store_run [OF assms(2)] by (simp add: untouched_def)

lemmas queries_untouched =
  query_untouched [where f = ListSites, OF queries_same_data(2)]
  query_untouched [where f = "GetSite i" for i, OF queries_same_data(3)]
  query_untouched [where f = ListRules, OF queries_same_data(4)]
  query_untouched [where f = "GetRule i" for i, OF queries_same_data(6)]
  query_untouched [where f = "ListEvents v f" for v f, OF queries_same_data(7)]
  query_untouched [where f = "Stats got v w (\<lambda>_ d. d) t now" for got v w t now, OF Stats_same_data]

lemma reads_only_untouched: "reads_only ep \<Longrightarrow> untouched a (snd (serve_endpoint s now ep r a))"
  by (cases ep) (auto simp: me_def listSites_def getSite_def listRules_def getRule_def listEvents_def stats_handler_def Let_def
      split: prod.splits sum.splits intro: queries_untouched)



section \<open>Properties\<close>


text \<open>C4: Reading is free of side effects. A request whose method is not POST, PUT or DELETE changes neither the
  stored data nor the engines nor the routing, whoever sends it and whatever it asks for: no link and no
  image tag that a signed-in administrator's browser follows can alter the portal.\<close>

theorem safe_methods_change_nothing:
  assumes "dispatches chi" and "r_Method r \<notin> {''POST'', ''PUT'', ''DELETE''}"
  shows "untouched a (snd (root_handler chi dec s now r a))"
proof (rule root_handler_cases [OF assms(1), of dec s now r a], goal_cases)
  case (2 ep)
  moreover have "r_Method r \<notin> set write_methods" using assms(2) by (simp add: write_methods_def)
  ultimately have "reads_only ep" by (simp add: route_endpoint_def)
  with 2 show ?case by (simp add: Handler_def Middleware_def reads_only_untouched)
qed simp

section \<open>Example\<close>

text \<open>A router that compares the segments of the path with those of the pattern, \<open>{id}\<close> standing for any.\<close>

fun segments :: "string \<Rightarrow> string list" where
  "segments [] = [[]]"
| "segments (c # cs) = (if c = CHR ''/'' then [] # segments cs
     else case segments cs of [] \<Rightarrow> [[c]] | x # xs \<Rightarrow> (c # x) # xs)"

fun match_segments :: "string list \<Rightarrow> string list \<Rightarrow> params option" where
  "match_segments [] [] = Some []"
| "match_segments (p # ps) (x # xs) =
     (if p = ''*'' then Some []
      else if p = ''{id}'' then map_option (\<lambda>b. (''id'', x) # b) (match_segments ps xs)
      else if p = x then match_segments ps xs else None)"
| "match_segments _ _ = None"

fun segment_router :: "route list \<Rightarrow> http_request \<Rightarrow> dispatch" where
  "segment_router [] r = NoRoute"
| "segment_router ((m, p, t) # rs) r =
     (if m = None \<or> m = Some (r_Method r)
      then (case match_segments (segments p) (segments (r_Path r)) of
              None \<Rightarrow> segment_router rs r | Some ps \<Rightarrow> Matched (m, p, t) ps)
      else segment_router rs r)"

lemma segment_router_dispatches: "dispatches segment_router"
proof -
  have "segment_router rs r = Matched rt ps \<Longrightarrow> rt \<in> set rs \<and> (fst rt = None \<or> fst rt = Some (r_Method r))" for rs r rt ps
    by (induction rs r rule: segment_router.induct) (auto split: if_splits option.splits)
  then show ?thesis unfolding dispatches_def by blast
qed

definition no_decoder :: json_decoder where
  "no_decoder = \<lparr>dec_credentials = (\<lambda>_. Inl ''EOF''), dec_passwords = (\<lambda>_. Inl ''EOF''), dec_site = (\<lambda>_. Inl ''EOF''),
     dec_rule = (\<lambda>_. Inl ''EOF'')\<rparr>"


definition listing :: http_request where
  "listing = (session_request ''admin'' 0)\<lparr>r_Path := ''/api/sites''\<rparr>"




lemma listing_served:
  "root_handler segment_router no_decoder sample_server 5 listing fresh_portal =
     (Answer (writeJSON StatusOK (JArr [])), fresh_portal)"
proof -
  have "verify sample_auth listing 5 = Some ''admin''"
    using sample_session by (simp add: listing_def verify_def Request_Cookie_def)
  then have "Handler sample_server 5 EpListSites listing fresh_portal = (writeJSON StatusOK (JArr []), fresh_portal)"
    by (simp add: Handler_def Middleware_def srv_auth_sample listSites_def with_store_def ListSites_def fresh_portal_def empty_db_def
        orEmpty_def)
  then show ?thesis
    by (simp add: root_handler_def routes_def public_routes_def session_routes_def listing_def session_request_def plain_request_def
      serve_target_def Handler_def)
qed

theorem safe_methods_change_nothing_witness:
  "untouched fresh_portal (snd (root_handler segment_router no_decoder sample_server 5 listing fresh_portal)) \<and>
   fst (root_handler segment_router no_decoder sample_server 5 listing fresh_portal) = Answer (writeJSON StatusOK (JArr []))"
proof -
  have "r_Method listing \<notin> {''POST'', ''PUT'', ''DELETE''}" by (simp add: listing_def session_request_def plain_request_def)
  from safe_methods_change_nothing [OF segment_router_dispatches this] show ?thesis by (simp add: listing_served)
qed

end
