(* ===== verification/Portal_Shutdown.thy ===== *)
theory Portal_Shutdown
  imports Portal_Main
begin

text \<open>
  The end of \<^verbatim>\<open>main\<close> in \<^verbatim>\<open>cmd/wafportal/main.go\<close>: waiting for a signal, shutting the listeners down in the order
  they were started under one deadline, and the deferred closing of the store. \<open>http.Server.Shutdown\<close> is
  given by how long it takes: from the deadline of its context, the server and the time it is called, the
  error it returns and the time it returns. Its documentation promises that it does not outlast its context.
\<close>

section \<open>Waiting for a signal\<close>

datatype signal = SIGINT | SIGTERM

type_synonym shutdown_call = "go_time \<Rightarrow> http_server \<Rightarrow> go_time \<Rightarrow> string option \<times> go_time"

text \<open>The loop over the servers: which were asked to stop and what they answered, which the code ignores, and
  the time after the last.\<close>

fun shutdown_all :: "shutdown_call \<Rightarrow> go_time \<Rightarrow> http_server list \<Rightarrow> go_time \<Rightarrow> (http_server \<times> string option) list \<times> go_time" where
  "shutdown_all shut deadline [] now = ([], now)"
| "shutdown_all shut deadline (srv # rest) now =
     (case shut deadline srv now of (err, now) \<Rightarrow>
      case shutdown_all shut deadline rest now of (log, now) \<Rightarrow> ((srv, err) # log, now))"

text \<open>The channel holds one signal, so the first one that arrives is the one that counts; without any, the
  function does not return.\<close>

definition waitForShutdown ::
  "shutdown_call \<Rightarrow> (go_time \<times> signal) list \<Rightarrow> http_server list \<Rightarrow> ((http_server \<times> string option) list \<times> go_time) option" where
  "waitForShutdown shut signals servers =
     (case signals of
        [] \<Rightarrow> None
      | (t, _) # _ \<Rightarrow> Some (shutdown_all shut (t + 10 * second) servers t))"

text \<open>What is left when \<open>main\<close> returns: the deferred \<open>Close\<close> of the store waits for a statement that is still
  running, so that it returns at a later time \<open>closed t\<close>, and leaves the file of the state \<open>d\<close> the store has
  then. The channel of the sink is gone with the process.\<close>

definition main_end ::
  "shutdown_call \<Rightarrow> (go_time \<Rightarrow> go_time) \<Rightarrow> (go_time \<times> signal) list \<Rightarrow> http_server list \<Rightarrow> db \<Rightarrow> (go_time \<times> db_file) option" where
  "main_end shut closed signals servers d =
     (case waitForShutdown shut signals servers of
        None \<Rightarrow> None
      | Some (_, t) \<Rightarrow> Some (closed t, Close d))"

section \<open>Properties\<close>

definition honours_deadline :: "shutdown_call \<Rightarrow> bool" where
  "honours_deadline shut \<longleftrightarrow> (\<forall>deadline srv now. now \<le> snd (shut deadline srv now) \<and> snd (shut deadline srv now) \<le> max now deadline)"

lemma shutdown_all_bounded:
  assumes "honours_deadline shut" and "shutdown_all shut deadline servers now = (log, t)" and "now \<le> deadline"
  shows "map fst log = servers \<and> now \<le> t \<and> t \<le> deadline"
  using assms(2,3)
proof (induction servers arbitrary: now log)
  case (Cons srv rest)
  obtain err now1 where s: "shut deadline srv now = (err, now1)" by fastforce
  with assms(1) Cons.prems(2) have now1: "now \<le> now1" "now1 \<le> deadline"
    unfolding honours_deadline_def by (metis snd_conv, metis max.absorb2 snd_conv)
  obtain log1 t1 where r: "shutdown_all shut deadline rest now1 = (log1, t1)" by fastforce
  with s Cons.prems(1) have "log = (srv, err) # log1" "t = t1" by simp_all
  with Cons.IH [OF r [folded \<open>t = t1\<close>] now1(2)] now1(1) show ?case by simp
qed simp

text \<open>C35: A signal stops the listeners within ten seconds, and the log survives as far as it was written. After
  the first signal every listener is asked to stop, the admin listener first, and the wait is over no
  later than ten seconds after it, whatever the listeners answer and however many signals follow; the
  program ends as soon as the store is closed then. The file it leaves, opened again without failures,
  shows the events that were logged before and those the worker had stored, in this order; the accepted
  events that still wait in the channel are not among them, for nothing drains it.\<close>

theorem shutdown_keeps_what_is_stored:
  assumes "honours_deadline shut" and "run_steps sink_step xs (newEventSink 4096, d) = (os, sink, d')"
    and "\<forall>e \<in> set (concat (map submitted_of xs)). int64_event e" and "list_all (\<lambda>x. x = None) (take 7 fs)"
  shows "\<exists>log t f d2. waitForShutdown shut ((t0, sig) # later) (startServers cfg) = Some (log, t) \<and>
    map fst log = startServers cfg \<and> hs_Handler (fst (hd log)) = AdminAPI \<and> t0 \<le> t \<and> t \<le> t0 + 10 * second \<and>
    main_end shut closed ((t0, sig) # later) (startServers cfg) d' = Some (closed t, f) \<and> fst (Open None fs f) = Inr d2 \<and>
    map scan_event (events d2) = map scan_event (events d) @ concat (map stored_of os) \<and>
    concat (map accepted_of os) = concat (map taken_of os) @ ch sink"
proof -
  obtain log t where s: "shutdown_all shut (t0 + 10 * second) (startServers cfg) t0 = (log, t)" by fastforce
  have b: "map fst log = startServers cfg" "t0 \<le> t" "t \<le> t0 + 10 * second"
    using shutdown_all_bounded [OF assms(1) s] by simp_all
  then have "hs_Handler (fst (hd log)) = AdminAPI"
    by (cases log) (auto simp: startServers_def Let_def bare_server_def)
  moreover have "fst (Open None fs (Close d')) = Inr (d'\<lparr>faults := drop 7 fs\<rparr>)"
    using Open_sound [OF assms(4), of "Close d'"] by simp
  moreover have "map scan_event (events d') = map scan_event (events d) @ concat (map stored_of os)"
    using sink_run_store [OF assms(2) _ assms(3)] by (simp add: newEventSink_def)
  moreover have "concat (map accepted_of os) = concat (map taken_of os) @ ch sink"
    using sink_run_queue [OF assms(2)] by (simp add: newEventSink_def)
  ultimately show ?thesis using s b by (simp add: waitForShutdown_def main_end_def)
qed

text \<open>Two events are accepted, the worker stores one, and the process is told to stop: the next start finds one.\<close>

definition slow_shutdown :: shutdown_call where
  "slow_shutdown deadline srv now = (if now < deadline then (Some ''context deadline exceeded'', deadline) else (None, now))"

lemma slow_honours: "honours_deadline slow_shutdown"
  by (simp add: honours_deadline_def slow_shutdown_def)

definition two_accepted :: "sink_event list" where
  "two_accepted = [Submitted (sink_sample ''a''), Submitted (sink_sample ''b''), Worked]"

lemma two_accepted_run:
  "\<exists>e. run_steps sink_step two_accepted (newEventSink 4096, empty_db) =
     ([Accepted (sink_sample ''a''), Accepted (sink_sample ''b''), Stored (sink_sample ''a'') e],
      \<lparr>ch = [sink_sample ''b''], buffer = 4096\<rparr>, snd (InsertEvent (sink_sample ''a'') empty_db))"
  by (simp add: two_accepted_def newEventSink_def Submit_def run_once_def receive_def InsertEvent_def empty_db_def stmt_def Let_def)

theorem shutdown_keeps_what_is_stored_witness:
  "\<exists>t f d2. main_end slow_shutdown (\<lambda>t. t) [(0, SIGTERM)] (startServers Default) (snd (InsertEvent (sink_sample ''a'') empty_db)) = Some (t, f) \<and>
     t \<le> 10 * second \<and> fst (Open None [] f) = Inr d2 \<and> length (events d2) = 1"
proof -
  obtain e where run: "run_steps sink_step two_accepted (newEventSink 4096, empty_db) =
     ([Accepted (sink_sample ''a''), Accepted (sink_sample ''b''), Stored (sink_sample ''a'') e],
      \<lparr>ch = [sink_sample ''b''], buffer = 4096\<rparr>, snd (InsertEvent (sink_sample ''a'') empty_db))"
    using two_accepted_run by blast
  have "\<forall>e \<in> set (concat (map submitted_of two_accepted)). int64_event e"
    by (simp add: two_accepted_def int64_event_def sink_sample_def)
  from shutdown_keeps_what_is_stored [OF slow_honours run this, of "[]" 0 SIGTERM "[]" Default "\<lambda>t. t"]
  obtain t f d2 where "main_end slow_shutdown (\<lambda>t. t) [(0, SIGTERM)] (startServers Default) (snd (InsertEvent (sink_sample ''a'') empty_db)) = Some (t, f)"
    "t \<le> 10 * second" "fst (Open None [] f) = Inr d2" "map scan_event (events d2) = [e]"
    by (auto simp: empty_db_def)
  moreover from this(4) have "length (events d2) = 1" by (cases "events d2") auto
  ultimately show ?thesis by blast
qed

end
