(* ===== verification/Spec2Isabelle.thy ===== *)
theory Spec2Isabelle
  imports Prelude Go_Strings Go_Encoding Go_Hmac Go_Url Http Store Store_Queries Store_Open Config Rate_Limit Waf_Manager
    Waf_Inspect Auth Proxy Portal_Reload Control_Api Control_Props Reload_Race Portal_Main
    Portal_Traffic Control_Routes Portal_Shutdown
begin

text \<open>
  Verification of wafportal, a web application firewall in one Go binary. The data plane
  (\<^verbatim>\<open>internal/proxy\<close>, \<^verbatim>\<open>internal/waf\<close>, \<^verbatim>\<open>internal/ratelimit\<close>) routes each request by its host to a protected site,
  limits its rate, has a Coraza engine inspect it, and hands it to the upstream or blocks it. The control
  plane (\<^verbatim>\<open>internal/api\<close>, \<^verbatim>\<open>internal/auth\<close>) is a JSON interface behind one administrator account. Both share a
  SQLite store (\<^verbatim>\<open>internal/store\<close>); after every change the closure \<open>reload\<close> of \<^verbatim>\<open>cmd/wafportal/main.go\<close> compiles
  the engines from the stored rules and rebuilds the routing from the stored sites. Security events go from
  the request path through a bounded channel to a worker that writes them to the store.

  \<^bold>\<open>Theories and code.\<close> Paths are relative to \<^verbatim>\<open>src/\<close>.

  \<^item> \<^verbatim>\<open>Prelude\<close>: times, status codes, iteration orders (\<open>visits\<close>), stable descending sorting, runs of step
    functions, and the two generic interfaces \<open>keyed_machine\<close> (a machine whose clients do not disturb each
    other) and \<open>atomic_reload\<close> (a component that is replaced as a whole or not at all).
  \<^item> \<^verbatim>\<open>Go_Strings\<close>, \<^verbatim>\<open>Go_Encoding\<close>, \<^verbatim>\<open>Go_Hmac\<close>, \<^verbatim>\<open>Go_Url\<close>, \<^verbatim>\<open>Http\<close>: what the code uses of Go's standard library, on
    strings of bytes: \<open>strings\<close>, \<open>strconv\<close>, hex, base64, JSON lists of numbers, SHA-256 and HMAC on 32-bit
    words, \<open>url.Parse\<close>, requests, cookies and response writers. They translate the library, so they have no
    counterpart under \<^verbatim>\<open>src/\<close>.
  \<^item> \<^verbatim>\<open>Store\<close> (\<^verbatim>\<open>internal/store/models.go\<close>, \<^verbatim>\<open>store.go\<close>): the tables as lists of records with their counters, one
    function per method of \<open>Store\<close>, each statement subject to an error of the driver (\<open>faults\<close>). The locales
    \<open>kv_store\<close>, \<open>id_table\<close> and \<open>crud_table\<close> state what clients rely on and are interpreted for the four tables.
  \<^item> \<^verbatim>\<open>Store_Queries\<close>: the invariant of the database under every sequence of calls, and the event queries.
  \<^item> \<^verbatim>\<open>Store_Open\<close> (\<open>Open\<close>, \<open>migrate\<close>, \<open>Close\<close>): database files and the schema executed statement by statement.
  \<^item> \<^verbatim>\<open>Config\<close> (\<^verbatim>\<open>internal/config/config.go\<close>): the settings, their defaults, loading them.
  \<^item> \<^verbatim>\<open>Rate_Limit\<close> (\<^verbatim>\<open>internal/ratelimit/ratelimit.go\<close>): the table of clients, buckets at addresses, \<open>Allow\<close> split at
    its unlock, the cleanup tick, a sequential machine and an interleaving step relation.
  \<^item> \<^verbatim>\<open>Waf_Manager\<close> (\<^verbatim>\<open>internal/waf/manager.go\<close>): the directive text, the two engines and their replacement.
  \<^item> \<^verbatim>\<open>Waf_Inspect\<close> (\<^verbatim>\<open>internal/waf/middleware.go\<close>): the request phases, the status recorder, the event that
    summarizes a transaction, the middleware with its deferred function and panics.
  \<^item> \<^verbatim>\<open>Auth\<close> (\<^verbatim>\<open>internal/auth/auth.go\<close>): the account, passwords, signed session cookies, the middleware.
  \<^item> \<^verbatim>\<open>Proxy\<close> (\<^verbatim>\<open>internal/proxy/proxy.go\<close>): building the routing table, lookups, certificates, both listeners.
  \<^item> \<^verbatim>\<open>Portal_Reload\<close> (\<open>reload\<close> in \<^verbatim>\<open>cmd/wafportal/main.go\<close>): the shared state and its synchronization.
  \<^item> \<^verbatim>\<open>Control_Api\<close> (\<^verbatim>\<open>internal/api/api.go\<close>): every handler, the app's file lookup; \<^verbatim>\<open>Control_Props\<close>: what these
    handlers do to the portal, as a step relation with its reachable states; \<^verbatim>\<open>Control_Routes\<close> (\<open>Handler\<close>): the
    registered routes with their methods and middleware, and the handler of the admin listener as a whole.
  \<^item> \<^verbatim>\<open>Reload_Race\<close>: the same \<open>reload\<close> as a task that advances by its accesses to shared state, since it takes no
    lock of its own, the interleavings of such tasks with each other and with the statements of requests, and
    what such a run keeps, with the sites and directives the store had in its states.
  \<^item> \<^verbatim>\<open>Portal_Main\<close> (\<^verbatim>\<open>cmd/wafportal/main.go\<close>, \<^verbatim>\<open>web/embed.go\<close>): start-up, listeners, client addresses, the event
    sink as an instance of the locale \<open>bounded_queue\<close>.
  \<^item> \<^verbatim>\<open>Portal_Shutdown\<close> (\<open>waitForShutdown\<close> and the end of \<open>main\<close>): stopping on a signal.
  \<^item> \<^verbatim>\<open>Portal_Traffic\<close>: sequences of requests through the proxy with the limiter threaded through them.
  \<^item> This theory: the properties that span the whole portal.

  \<^bold>\<open>What is shown.\<close> For the data plane: a request reaches an upstream only after the limiter and an engine of
  the mode of a site that was really stored have let it through, in every interleaving of statements and
  reloads (\<open>portal_always_inspects\<close>); a blocked request is answered without the upstream and ends up in the
  log (\<open>blocked_never_reaches_upstream\<close>, \<open>blocked_request_is_logged\<close>); a passed request arrives with its body
  intact; events say what the engine found; the routing table and the choice of certificates implement a
  declarative specification; every TCP peer is limited by one token bucket of its own, whatever others
  send, whatever headers it forges and whenever idle buckets are evicted (\<open>peer_rate_limit\<close>). For the control
  plane: nothing is read or changed without a session, whatever method, path and body a request has
  (\<open>admin_needs_session\<close>), reading methods never change anything, sessions cannot be made without the secret
  and last exactly seven days, the store only ever holds valid data with unique keys; accepted changes of
  rules are in force when they are answered, the other changes, and the rollback of a rejected new rule, as
  long as the database driver does not fail; overlapping reloads agree unless the store changes meanwhile.
  For the store: identifiers stay unique under all histories and failures, pages of a log without equal
  timestamps partition it, the dashboard's numbers are those of the log at the time of their queries, a
  restart loses nothing that was written. A signal stops the listeners within ten seconds. For start-up
  and reload: all or nothing without driver failures, and under any failures the last good engines and the
  last good routing stay in force (\<open>reloads_keep_last_good\<close>).

  Some theorems and lemmas pin down behaviour that is not what one would want: events still in the channel
  at shutdown are lost, a reload that overlaps a deletion can keep the deleted site routed, a failed reload
  after a change of a site is hidden behind a success, a rejected update of a rule stays stored and blocks
  later reloads and restarts, so does a rejected new rule when its rollback fails, events with equal
  timestamps can be skipped by paging, an error while the dashboard's rows are read goes unnoticed, a site
  whose certificate cannot be loaded is served in the clear, a bar in the user name makes sessions
  unusable, an informational status is logged as the answer, the leftmost forwarded address is the client's
  own choice.

  \<^bold>\<open>Bounds.\<close> No definition uses fuel: all loops are structural recursions or folds over finite lists. Table
  counters stop at the largest 64-bit integer, where an insertion reports a full table; number parsing keeps
  Go's saturation at 64 bits; times are unbounded nanoseconds, and the theorems on session expiry assume a
  year before about 2190, where Unix seconds are far inside 64 bits. The channel of the sink holds 4096 events
  as in the code. Floating-point settings are kept as their 64-bit patterns and only passed on.

  \<^bold>\<open>Parameters.\<close> Code outside the repository is an argument: Coraza's compiler and transactions, the token
  bucket, bcrypt, the random source, the YAML decoder, the ACME manager, the loading of key pairs, the exchange
  with an upstream server, the errors of the SQLite driver, \<open>time.ParseDuration\<close>, the Unicode tables behind
  \<open>strings.ToLower\<close> outside ASCII, the path matching of the chi router, the decoding of JSON request bodies,
  \<open>http.Server.Shutdown\<close>, the time the database takes to close, clock readings, and the orders in which Go ranges over maps and SQLite visits
  rows. What a theorem needs of them is a named hypothesis (\<open>visits\<close>, \<open>buffers\<close>, \<open>refills\<close>, \<open>dispatches\<close>,
  \<open>honours_deadline\<close>, that bcrypt accepts what it hashed) with a concrete instance in its witness.

  \<^bold>\<open>Concurrency.\<close> Handlers of the control plane are functions that run whole. Where the code lets others in
  between, the interleavings are modelled as such: reloads and the statements of requests (\<open>reload_conc\<close>), the
  two halves of \<open>Allow\<close> and the cleanup (\<open>limiter_conc\<close>), submissions and the worker of the sink (\<open>sink_step\<close>), the
  queries of the dashboard and whatever happens between them (\<open>Stats\<close>).

  \<^bold>\<open>Not modelled.\<close> The text of JSON and YAML documents and of log lines; the sockets behind
  \<open>ListenAndServe\<close> and what a listener does while it shuts down; the file server behind the embedded app beyond the path it is
  asked for; connection pooling and pragmas of the driver; the TypeScript user interface, the service unit and
  the installation script.
\<close>

section \<open>The account is set up by statements\<close>

text \<open>Start-up reads, and writes settings; the sites and the rules stay what they are.\<close>

inductive account_move :: "db \<Rightarrow> db \<Rightarrow> bool" where
  reads: "same_data d d' \<Longrightarrow> account_move d d'"
| writes: "account_move d (snd (SetSetting k x d))"

abbreviation account_moves :: "db \<Rightarrow> db \<Rightarrow> bool" where
  "account_moves \<equiv> account_move\<^sup>*\<^sup>*"

lemma account_move_store: "account_move d d' \<Longrightarrow> store_move d d' \<and> sites d' = sites d \<and> rules d' = rules d"
  by (induction rule: account_move.induct) (auto intro: store_move.query store_move.set_setting simp: store_frame same_dataD)

lemma account_moves_store:
  "account_moves d d' \<Longrightarrow> store_moves d d' \<and> sites d' = sites d \<and> rules d' = rules d"
proof (induction rule: rtranclp_induct)
  case (step d' d'')
  with account_move_store [OF step.hyps(2)] show ?case by (metis rtranclp.rtrancl_into_rtrancl)
qed simp

lemma setting_moves:
  "GetSetting k d = (g, d') \<Longrightarrow> account_moves d d'" "SetSetting k x d = (u, d') \<Longrightarrow> account_moves d d'"
  "Username d = (n, d') \<Longrightarrow> account_moves d d'"
  using account_move.reads [OF queries_same_data(1) [of d k]] account_move.writes [of d k x]
    account_move.reads [OF Username_same_data [of d]]
  by (simp_all add: r_into_rtranclp)

lemma account_setPassword: "setPassword gen p d = (v, d') \<Longrightarrow> account_moves d d'"
  by (auto simp: setPassword_def split: sum.splits prod.splits dest!: setting_moves(2))

lemma loadOrCreateSecret_moves: "loadOrCreateSecret rnd d = (res, d') \<Longrightarrow> account_moves d d'"
  by (auto simp: loadOrCreateSecret_def split: prod.splits sum.splits if_splits dest!: setting_moves(1,2))

lemma chooseUsername_moves: "chooseUsername u d = (n, d') \<Longrightarrow> account_moves d d'"
  by (auto simp: chooseUsername_def Let_def split: prod.splits sum.splits if_splits option.splits dest!: setting_moves(1))

lemma New_moves:
  assumes "New gen rs rp u pw d = (Inr au, d')"
  shows "account_moves d d'"
proof -
  from assms obtain sec d1 where 1: "loadOrCreateSecret rs d = (Inr sec, d1)"
    by (auto simp: New_def split: prod.splits sum.splits)
  obtain n d2 where 2: "chooseUsername u d1 = (n, d2)" by fastforce
  from assms 1 2 obtain x d3 where 3: "SetSetting keyUsername n d2 = (Inr x, d3)"
    by (auto simp: New_def split: prod.splits sum.splits)
  from assms 1 2 3 obtain st d4 where 4: "GetSetting keyHash d3 = (Inr st, d4)"
    by (auto simp: New_def split: prod.splits sum.splits)
  have "account_moves d d4"
    using loadOrCreateSecret_moves [OF 1] chooseUsername_moves [OF 2] setting_moves(2) [OF 3] setting_moves(1) [OF 4] by simp
  moreover have "account_moves d4 d'"
    using assms 1 2 3 4 by (auto simp: New_def split: prod.splits sum.splits if_splits dest!: account_setPassword)
  ultimately show ?thesis by simp
qed

text \<open>The state after start-up satisfies the invariant of the interleavings, with the sites and the directives it
  has in the store itself.\<close>

lemma started_inv:
  assumes "main_start unmarshal rd failed fs f newWAF uni load gen rs rp envPassword embedded = Inr run"
    and "fst (Open failed fs f) = Inr d" and "contents_ok d"
  shows "conc_inv newWAF uni (had_site [(run_portal run, [])]) (had_directives [(run_portal run, [])]) (run_portal run, [])"
proof (rule main_start_steps [OF assms(1,2)], goal_cases)
  case (1 cfg a au d')
  let ?S = "had_site [(run_portal run, [])]" and ?R = "had_directives [(run_portal run, [])]"
  from 1(2) obtain ds d1 m ss d2 where e: "EnabledRuleDirectives d = (Inr ds, d1)"
    and m: "Manager_Reload newWAF ds NewManager = (Inr (), m)" and l: "ListSites d1 = (Inr ss, d2)"
    and a: "a = \<lparr>p_store = d2, p_waf = m, p_proxy = Proxy_Reload uni load m ss New_Proxy\<rparr>"
    by (auto simp: portal_reload_def split: prod.splits sum.splits)
  have "account_moves (p_store a) (p_store (run_portal run))"
    using New_moves [OF 1(3)] setting_moves(3) [OF prod.collapse [symmetric], of d'] 1(7) by auto
  note st = account_moves_store [OF this]
  have d: "same_data d d1" "same_data d1 d2"
    using queries_same_data(5) [of d] queries_same_data(2) [of d1] e l by simp_all
  have stored: "sites (p_store (run_portal run)) = sites d" "rules (p_store (run_portal run)) = rules d"
    using st same_dataD(1,3) [OF d(1)] same_dataD(1,3) [OF d(2)] by (simp_all add: a)
  then have R: "?R ds" using read_directives [OF e] by (simp add: had_directives_def stored_directives_def)
  have c: "compiled newWAF ds m" using Manager_Reload_compiled [OF m] .
  have "\<forall>s \<in> set ss. ?S s \<and> site_valid s"
    using listed_sites [OF l] listed_valid [OF query_contents(2) [OF assms(3) e] l] same_dataD(1) [OF d(1)] stored
    by (simp add: had_site_def)
  from fold_routes_ok [where R = ?R and S = ?S, OF c R this routes_ok_New]
  have "routes_ok newWAF uni ?S ?R (Proxy_Reload uni load m ss New_Proxy)" by (simp flip: install_fold)
  moreover have "contents_ok (p_store a)"
    using query_contents(1) [OF query_contents(2) [OF assms(3) e] l] by (simp add: a)
  then have "contents_ok (p_store (run_portal run))" using store_moves_contents st by blast
  ultimately show ?case
    using 1(5,6) c R unfolding conc_inv_def by (auto simp: a had_site_def had_directives_def)
qed

section \<open>Properties of the whole portal\<close>

text \<open>C1: A running portal never lets a request of a protected site past the engine. Start the portal on any
  database file with valid contents and take any run from there: statements of requests to the control
  plane, calls of reload, and steps of the reloads in flight interleave arbitrarily, and reloads and
  statements may fail at any point. Whenever a request reaches an upstream in the last state of the run,
  the limiter has let it through, and there is a site that was stored in one of the states of the run,
  valid, enabled, with the domain of the request and with this upstream, such that either the mode of this
  stored site is "off", or the request was inspected by an engine compiled in exactly the site's mode from
  the recommended configuration, the whole rule set and the custom directives that were stored in one of
  the states of the run, and this engine neither interrupted the request nor failed on it. In particular,
  when no site of the domain was ever stored with mode "off", every request that gets through was inspected.\<close>

theorem portal_always_inspects:
  assumes "main_start unmarshal rd failed fs f newWAF uni load gen rs rp envPassword embedded = Inr run"
    and "fst (Open failed fs f) = Inr d" and "contents_ok d"
    and "cs \<noteq> []" and "hd cs = (run_portal run, [])" and "successively (reload_conc newWAF uni load) cs"
    and "last cs = (a, ts)" and "env_uni env = uni"
    and "sv_upstream (ServeHTTP env (p_proxy a) (seen, taken, now) lim r w) = Some (t, r')"
  shows "fst (limiter_check env seen taken r lim) \<and>
    (\<exists>c st. c \<in> set cs \<and> st \<in> set (sites (p_store (fst c))) \<and> site_valid st \<and> site_Enabled st \<and> site_target st = Some t \<and>
       ToLower uni (site_Domain st) = host_domain uni (r_Host r) \<and>
       (site_WAFMode st = WAFModeOff \<or>
        (\<exists>c' engine tx. c' \<in> set cs \<and>
           newWAF (directives_of (Join (stored_directives (p_store (fst c'))) newline) (engine_word (site_WAFMode st))) = Inr engine \<and>
           processRequestPhase (env_coraza env) (env_headers env) r (NewTransaction (env_coraza env) engine) = (None, None, r', tx))))"
proof -
  have ok: "routes_ok newWAF uni (had_site cs) (had_directives cs) (p_proxy a)"
    using interleaving_inv [OF assms(6,4)] started_inv [OF assms(1-3)] assms(5,7) by (simp add: conc_inv_def)
  obtain h lim' where h: "handlers (p_proxy a) (host_domain uni (r_Host r)) = Some h"
    and lim: "fst (limiter_check env seen taken r lim)" and sv: "sv_upstream (serve_handler env h lim' now r w) = Some (t, r')"
    using assms(8,9) by (auto simp: ServeHTTP_def handlerFor_def answered_def split: prod.splits bool.splits option.splits)
  from ok h obtain st x where st: "had_site cs st" "site_valid st" "site_Enabled st" "site_target st = Some x"
      "ToLower uni (site_Domain st) = host_domain uni (r_Host r)"
    and mode: "if site_WAFMode st = WAFModeOff then h = ReverseProxy x
      else \<exists>ds e. had_directives cs ds \<and> newWAF (directives_of (Join ds newline) (engine_word (site_WAFMode st))) = Inr e \<and>
        h = Inspected e (site_Domain st) x"
    unfolding routes_ok_def route_ok_def by blast
  from st(1) obtain c where c: "c \<in> set cs" "st \<in> set (sites (p_store (fst c)))" by (auto simp: had_site_def)
  show ?thesis
  proof (cases "site_WAFMode st = WAFModeOff")
    case True
    with mode sv have "x = t" by (auto simp: Let_def split: prod.splits)
    with st c True lim show ?thesis by blast
  next
    case False
    with mode obtain ds e where e: "had_directives cs ds" "newWAF (directives_of (Join ds newline) (engine_word (site_WAFMode st))) = Inr e"
      "h = Inspected e (site_Domain st) x" by auto
    from e(1) obtain c' where c': "c' \<in> set cs" "ds = stored_directives (p_store (fst c'))" by (auto simp: had_directives_def)
    obtain it err r'' tx where ph: "processRequestPhase (env_coraza env) (env_headers env) r (NewTransaction (env_coraza env) e) =
        (it, err, r'', tx)" by (metis prod_cases4)
    have "x = t" "it = None" "err = None" "r'' = r'"
      using sv upstream_called [OF ph] by (auto simp: e(3) Let_def split: if_splits)
    with st c c' e(2) ph lim show ?thesis by blast
  qed
qed

definition db_one_site :: db where
  "db_one_site = empty_db\<lparr>sites := [sample_site], sites_seq := 1\<rparr>"

lemma db_one_site_facts: "faults db_one_site = []" "stored_directives db_one_site = []" "stored_sites db_one_site = [sample_site]"
  "contents_ok db_one_site"
  by (simp_all add: db_one_site_def empty_db_def stored_directives_def stored_sites_def contents_ok_def db_ok_def ids_ok_def
      site_valid_def test_site_def)

lemma sample_start_one_site:
  "\<exists>run e m. sample_start db_one_site = Inr run \<and> Engine WAFModeOn m = Some e \<and>
     p_proxy (run_portal run) = Proxy_Reload (\<lambda>s. s) (\<lambda>_ _. None) m [sample_site] New_Proxy \<and>
     sites (p_store (run_portal run)) = [sample_site] \<and> rules (p_store (run_portal run)) = []"
proof -
  let ?a = "\<lparr>p_store = db_one_site, p_waf = NewManager, p_proxy = New_Proxy\<rparr> :: (string, string) portal"
  obtain m where m: "Manager_Reload text_waf [] NewManager = (Inr (), m)"
    using compiles_none by (metis compiles_iff prod.collapse)
  have r: "portal_reload text_waf (\<lambda>s. s) (\<lambda>_ _. None) ?a =
      (Inr (), ?a\<lparr>p_waf := m, p_proxy := Proxy_Reload (\<lambda>s. s) (\<lambda>_ _. None) m [sample_site] New_Proxy\<rparr>)"
    by (simp add: portal_reload_sound db_one_site_facts m)
  have "\<exists>au d'. New mark_gen (Inr ''k'') (Inr ''rnd'') [] ''hunter22'' db_one_site = (Inr au, d')"
    by (simp add: New_def loadOrCreateSecret_def chooseUsername_def Let_def GetSetting_def SetSetting_def setPassword_def
        mark_gen_def empty_db_def db_one_site_def)
  then obtain au d' where n: "New mark_gen (Inr ''k'') (Inr ''rnd'') [] ''hunter22'' db_one_site = (Inr au, d')" by blast
  have d': "sites d' = [sample_site]" "rules d' = []"
    using account_moves_store [OF New_moves [OF n]] by (simp_all add: db_one_site_def empty_db_def)
  then have u: "sites (snd (Username d')) = [sample_site]" "rules (snd (Username d')) = []"
    using same_dataD(1,3) [OF Username_same_data [of d']] by simp_all
  obtain e where e: "Engine WAFModeOn m = Some e"
    using Manager_Reload_compiled [OF m] unfolding Engine_def compiled_def by blast
  define d2 where "d2 = (if GeneratedPassword au \<noteq> [] then snd (Username d') else d')"
  have "\<exists>run. sample_start db_one_site = Inr run \<and> p_proxy (run_portal run) = Proxy_Reload (\<lambda>s. s) (\<lambda>_ _. None) m [sample_site] New_Proxy \<and>
      p_store (run_portal run) = d2"
    using r n by (auto simp: sample_start_def main_start_def Load_def Let_def Default_def db_one_site_facts(1) Dist_ok d2_def split: prod.splits)
  moreover have "sites d2 = [sample_site]" "rules d2 = []" using d' u by (simp_all add: d2_def)
  ultimately show ?thesis using e by metis
qed

text \<open>A portal with one protected site: the request that got through was inspected.\<close>

theorem portal_always_inspects_witness:
  "\<exists>engine tx. text_waf (directives_of [] ''On'') = Inr engine \<and>
     processRequestPhase (env_coraza sample_env) (env_headers sample_env) (sample_request ''/x'' (Some ''hello world''))
       (NewTransaction (env_coraza sample_env) engine) = (None, None, sample_request ''/x'' (Some ''hello world''), tx)"
proof -
  obtain run e m where run: "sample_start db_one_site = Inr run" and e: "Engine WAFModeOn m = Some e"
    and p: "p_proxy (run_portal run) = Proxy_Reload (\<lambda>s. s) (\<lambda>_ _. None) m [sample_site] New_Proxy"
    and store: "sites (p_store (run_portal run)) = [sample_site]" "rules (p_store (run_portal run)) = []"
    using sample_start_one_site by blast
  let ?cs = "[(run_portal run, [])] :: ((string, string) portal \<times> (string, string) reload_task list) list"
  have uni: "env_uni sample_env = (\<lambda>s. s)" by (simp add: sample_env_def)
  have "sv_upstream (ServeHTTP sample_env (p_proxy (run_portal run)) (0, 0, 0) None
      (sample_request ''/x'' (Some ''hello world'')) new_writer) = Some (app_url, sample_request ''/x'' (Some ''hello world''))"
    using sample_served_any [OF e] by (simp add: p uni)
  from portal_always_inspects [OF run [unfolded sample_start_def] Open_Close [OF db_one_site_facts(1)] db_one_site_facts(4),
      of ?cs, OF _ _ _ _ uni this]
  show ?thesis by (auto simp: store stored_directives_def Join_def engine_word_def)
qed

section \<open>From the request to the log\<close>

definition no_id :: "event \<Rightarrow> event" where
  "no_id e = e\<lparr>ev_ID := 0\<rparr>"

lemma InsertEvent_room:
  assumes "faults d = []" and "events_seq d < max_int64"
  shows "\<exists>e' d'. InsertEvent e d = (Inr e', d') \<and> no_id e' = no_id e \<and> faults d' = [] \<and> events_seq d' = events_seq d + 1"
  using assms by (simp add: InsertEvent_def Let_def no_id_def)

text \<open>As many rounds of the worker as there are events in the channel empty it, and store each of them.\<close>

lemma worker_drains:
  assumes "faults d = []" and "events_seq d + int (length (ch s)) < max_int64"
  shows "\<exists>os s' d'. run_steps sink_step (replicate (length (ch s)) Worked) (s, d) = (os, s', d') \<and> ch s' = [] \<and>
    map no_id (concat (map stored_of os)) = map no_id (ch s) \<and> faults d' = []"
  using assms
proof (induction "ch s" arbitrary: s d)
  case (Cons e es)
  define s1 where "s1 = s\<lparr>ch := es\<rparr>"
  have rc: "receive s = Some (e, s1)" using Cons.hyps(2) [symmetric] by (simp add: receive_def s1_def)
  have "events_seq d < max_int64" using Cons.prems(2) by simp
  then obtain e' d1 where ins: "InsertEvent e d = (Inr e', d1)" "no_id e' = no_id e" "faults d1 = []" "events_seq d1 = events_seq d + 1"
    using InsertEvent_room [OF Cons.prems(1)] by blast
  have len: "length (ch s) = Suc (length es)" using Cons.hyps(2) by (metis length_Cons)
  have "events_seq d1 + int (length (ch s1)) < max_int64" using Cons.prems(2) ins(4) len by (simp add: s1_def)
  from Cons.hyps(1) [of s1 d1, OF _ ins(3) this] obtain os s' d'
    where r: "run_steps sink_step (replicate (length es) Worked) (s1, d1) = (os, s', d')" "ch s' = []"
      "map no_id (concat (map stored_of os)) = map no_id es" "faults d' = []" by (auto simp: s1_def)
  have "sink_step Worked (s, d) = ([Stored e e'], s1, d1)" using rc ins(1) by (simp add: run_once_def)
  with r ins(2) show ?case unfolding len Cons.hyps(2) [symmetric] by simp
qed simp

text \<open>The plain listing of the control plane: up to a hundred events, all of them are shown.\<close>

lemma listEvents_all:
  assumes "faults (p_store a) = []" and "visits (srv_rows sv)" and "verify (srv_auth sv) rq later = Some u"
    and "r_Query rq = []" and "length (events (p_store a)) \<le> 100"
  shows "\<exists>js. fst (Handler sv later EpListEvents rq a) = writeJSON StatusOK (JArr js) \<and>
    set js = event_json ` set (map scan_event (events (p_store a)))"
proof -
  define f where "f = \<lparr>f_Domain = [], f_BlockedOnly = False, f_Limit = 100, f_Offset = 0\<rparr>"
  let ?rows = "sort_desc (\<lambda>r. ev_Timestamp (er_event r)) (srv_rows sv (filter (event_where f) (events (p_store a))))"
  have all: "filter (event_where f) (events (p_store a)) = events (p_store a)"
    by (simp add: f_def event_where_def)
  have "length ?rows = length (events (p_store a))" using assms(2) unfolding all by (simp add: visits_def) (metis size_mset)
  then have "take (event_limit f) (drop (nat (f_Offset f)) ?rows) = ?rows" using assms(5) by (simp add: f_def event_limit_def)
  then have l: "ListEvents (srv_rows sv) f (p_store a) = (Inr (map scan_event ?rows), p_store a)"
    using assms(1) by (simp add: ListEvents_def)
  have "set ?rows = set (events (p_store a))" unfolding all using visits_set [OF assms(2)] by simp
  moreover have "fst (Handler sv later EpListEvents rq a) = writeJSON StatusOK (JArr (map event_json (map scan_event ?rows)))"
    using l assms(3,4)
    by (simp add: Handler_def Middleware_def listEvents_def Values_Get_def atoiDefault_def Atoi_eq_ParseInt ParseInt_def ParseUint_def
        with_store_def orEmpty_def f_def)
  ultimately show ?thesis by (intro exI [of _ "map event_json (map scan_event ?rows)"]) (simp add: image_image)
qed

text \<open>C13: A blocked request leaves its record where the administrator sees it. When the engine of the site a
  request is routed to interrupts it, the upstream is not contacted and one event, marked as blocked, is
  submitted; if the sink has room and the database works, then after as many rounds of the worker as
  there are events before it and itself, the channel is empty, and the event list of the control plane,
  asked for with a valid session, shows that event, all its fields but the
  identifier as they were submitted (as long as the log is no longer than a page).\<close>

theorem blocked_request_is_logged:
  assumes "handlerFor (env_uni env) (r_Host r) p = Some (Inspected engine domain t)"
    and "fst (limiter_check env seen taken r lim)"
    and "processRequestPhase (env_coraza env) (env_headers env) r (NewTransaction (env_coraza env) engine) = (Some it, None, r', tx)"
    and "out = ServeHTTP env p (seen, taken, now) lim r w"
    and "length (ch s) < buffer s" and "\<forall>e \<in> set (ch s) \<union> set (sv_events out). int64_event e"
    and "faults (p_store a) = []" and "events_seq (p_store a) + int (buffer s) < max_int64"
    and "visits (srv_rows sv)" and "verify (srv_auth sv) rq later = Some u" and "r_Query rq = []"
    and "length (events (p_store a)) + length (ch s) < 100"
  shows "\<exists>e os s' d'. sv_events out = [e] \<and> ev_Blocked e \<and> sv_upstream out = None \<and>
    run_steps sink_step (Submitted e # replicate (Suc (length (ch s))) Worked) (s, p_store a) = (os, s', d') \<and> ch s' = [] \<and>
    (\<exists>js e'. fst (Handler sv later EpListEvents rq (a\<lparr>p_store := d'\<rparr>)) = writeJSON StatusOK (JArr js) \<and>
       event_json e' \<in> set js \<and> no_id e' = no_id e)"
proof -
  obtain lim' where lim: "limiter_check env seen taken r lim = (True, lim')" using assms(2) by (cases "limiter_check env seen taken r lim") auto
  note b = middleware_blocked [OF assms(3), of "newReverseProxy env t" domain now w]
  have out: "sv_events out = fst (finish_request (env_coraza env) tx r' domain True (statusFromInterruption it) now)" "sv_upstream out = None"
    using assms(1,4) lim b by (simp_all add: ServeHTTP_def Let_def)
  obtain e where e: "sv_events out = [e]" using finish_blocked out(1) by metis
  have "e \<in> set (fst (finish_request (env_coraza env) tx r' domain True (statusFromInterruption it) now))" using e out(1) by simp
  then have "ev_Blocked e = True" by (rule finish_event_fields [THEN conjunct1])
  then have blocked: "ev_Blocked e" by simp
  define s1 where "s1 = s\<lparr>ch := ch s @ [e]\<rparr>"
  have step: "sink_step (Submitted e) (s, p_store a) = ([Accepted e], s1, p_store a)" using assms(5) by (simp add: Submit_def s1_def)
  have len: "length (ch s1) = Suc (length (ch s))" by (simp add: s1_def)
  have "events_seq (p_store a) + int (length (ch s1)) < max_int64" using assms(5,8) by (simp add: s1_def)
  from worker_drains [OF assms(7) this] obtain os s' d'
    where r: "run_steps sink_step (replicate (length (ch s1)) Worked) (s1, p_store a) = (os, s', d')" "ch s' = []"
      and ids: "map no_id (concat (map stored_of os)) = map no_id (ch s1)" and f: "faults d' = []" by blast
  have evs: "map scan_event (events d') = map scan_event (events (p_store a)) @ concat (map stored_of os)"
    using sink_run_store [OF r(1)] assms(6) e by (simp add: s1_def)
  have "length (concat (map stored_of os)) = length (ch s1)" using ids by (metis length_map)
  then have "length (events d') \<le> 100" using evs assms(12) len by (metis length_append length_map Suc_leI add_Suc_right)
  from listEvents_all [of "a\<lparr>p_store := d'\<rparr>", OF _ assms(9,10,11)] f this obtain js
    where js: "fst (Handler sv later EpListEvents rq (a\<lparr>p_store := d'\<rparr>)) = writeJSON StatusOK (JArr js)"
      "set js = event_json ` set (map scan_event (events d'))" by auto
  have "no_id e \<in> set (map no_id (concat (map stored_of os)))" using ids by (simp add: s1_def)
  then obtain e' where "e' \<in> set (concat (map stored_of os))" "no_id e' = no_id e" by fastforce
  then have "e' \<in> set (map scan_event (events d'))" "no_id e' = no_id e" unfolding evs by simp_all
  moreover have "run_steps sink_step (Submitted e # replicate (Suc (length (ch s))) Worked) (s, p_store a) = (Accepted e # os, s', d')"
    using r(1) step unfolding len by simp
  ultimately show ?thesis using e out(2) blocked r(2) js by blast
qed

abbreviation sample_proxy :: "(string, string) proxy" where
  "sample_proxy \<equiv> Proxy_Reload (\<lambda>s. s) (\<lambda>_ _. None) sample_manager [sample_site] New_Proxy"

lemma sample_handler: "handlerFor (env_uni sample_env) (r_Host (sample_request u b)) sample_proxy = Some (Inspected ''on'' ''Example.com'' app_url)"
  by (simp add: sample_env_def sample_request_def handlerFor_def host_domain_example Proxy_Reload_lookup sample_routed handler_of_def
      Engine_def sample_manager_def)

lemma toy_event_int64: "e \<in> set (fst (finish_request toy_coraza tx r domain blocked status now)) \<Longrightarrow> int64_event e"
  by (auto simp: finish_events buildEvent_def Let_def matched_summarize toy_coraza_def is_detection_def int64_event_def
      split: option.splits if_splits)

theorem blocked_request_is_logged_witness:
  "\<exists>e os s' d' js. sv_events (ServeHTTP sample_env sample_proxy (0, 0, 0) None (sample_request ''/admin'' None) new_writer) = [e] \<and>
     run_steps sink_step [Submitted e, Worked] (newEventSink 4096, p_store fresh_portal) = (os, s', d') \<and> ch s' = [] \<and>
     fst (Handler sample_server 5 EpListEvents (session_request ''admin'' 0) (fresh_portal\<lparr>p_store := d'\<rparr>)) =
       writeJSON StatusOK (JArr js)"
proof -
  let ?out = "ServeHTTP sample_env sample_proxy (0, 0, 0) None (sample_request ''/admin'' None) new_writer"
  have cz: "env_coraza sample_env = toy_coraza" "env_headers sample_env = rev" by (simp_all add: sample_env_def)
  have lim: "limiter_check sample_env 0 0 (sample_request ''/admin'' None) None = (True, None)" by (simp add: limiter_check_def)
  note phase = toy_blocks [where e = "''on''", folded cz]
  have "sv_events ?out = o_events (WAF_Middleware toy_coraza rev ''on'' (newReverseProxy sample_env app_url) ''Example.com'' 0
      (sample_request ''/admin'' None) new_writer)"
    using sample_handler [of "''/admin''" None] by (simp add: ServeHTTP_def lim cz Let_def)
  then have ev: "\<forall>e \<in> set (sv_events ?out). int64_event e"
    using middleware_blocked(3) [OF toy_blocks] toy_event_int64 by auto
  have v: "visits (srv_rows sample_server)" and q: "r_Query (session_request ''admin'' 0) = []"
    by (simp_all add: sample_server_def session_request_def plain_request_def)
  have s: "verify (srv_auth sample_server) (session_request ''admin'' 0) 5 = Some ''admin''"
    using sample_session by (simp add: srv_auth_sample)
  show ?thesis
    using blocked_request_is_logged [OF sample_handler _ phase refl _ _ _ _ v s q, of 0 0 None "newEventSink 4096" 0 new_writer fresh_portal]
      lim ev by (fastforce simp: newEventSink_def fresh_portal_def empty_db_def)
qed

end
